(* ===== verification/Prelude.thy ===== *)
theory Prelude
  imports Main "HOL-Library.Word"
begin

text \<open>
  What the other theories share: the named collections of simplification rules, C's fixed-width
  and truncating integer arithmetic on \<open>int\<close>, sequencing of fallible steps, and generic lemmas
  on lists. Nothing in this theory is about cron.
\<close>

section \<open>Collections of rules\<close>

named_theorems cdefs \<open>definitions of small C helpers, unfolded together\<close>
named_theorems parser_simps \<open>equations of the schedule parser\<close>

section \<open>Machine integers\<close>

text \<open>
  A C \<open>int\<close> has 32 bits. PostgreSQL and the extensions built with its PGXS makefiles are compiled
  with \<open>-fwrapv\<close>, so an overflowing signed operation wraps around: \<open>int32\<close> is the value that is
  left in the variable, and is also what a cast \<open>(int) x\<close> of a wider value leaves.
\<close>

definition INT_MAX :: int where
  [cdefs]: "INT_MAX = 2147483647"

definition LONG_MAX :: int where
  [cdefs]: "LONG_MAX = 9223372036854775807"

definition int32 :: "int \<Rightarrow> int" where
  "int32 x = (x + 2147483648) mod 4294967296 - 2147483648"

lemma int32_id [simp]: "- 2147483648 \<le> x \<Longrightarrow> x < 2147483648 \<Longrightarrow> int32 x = x"
  by (simp add: int32_def)

lemma int32_range: "- 2147483648 \<le> int32 x \<and> int32 x \<le> 2147483647"
proof -
  have "0 \<le> (x + 2147483648) mod 4294967296" and "(x + 2147483648) mod 4294967296 < 4294967296"
    by simp_all
  then show ?thesis unfolding int32_def by linarith
qed

lemma int32_above:
  assumes "2147483648 \<le> x" and "x < 6442450944"
  shows "int32 x = x - 4294967296"
proof -
  have "x + 2147483648 = (x - 2147483648) + 4294967296" by simp
  then have "(x + 2147483648) mod 4294967296 = (x - 2147483648) mod 4294967296"
    by (simp only: mod_add_self2)
  also have "\<dots> = x - 2147483648" using assms by simp
  finally show ?thesis by (simp add: int32_def)
qed

text \<open>The same wrap-around as the conversion to a 32-bit word and back.\<close>

lemma int32_word: "int32 x = sint (word_of_int x :: 32 word)"
  by (simp add: int32_def int_word_sint)

text \<open>C's \<open>/\<close> and \<open>%\<close> round towards zero.\<close>

definition c_div :: "int \<Rightarrow> int \<Rightarrow> int" where
  [cdefs]: "c_div a b = sgn a * sgn b * (\<bar>a\<bar> div \<bar>b\<bar>)"

definition c_mod :: "int \<Rightarrow> int \<Rightarrow> int" where
  [cdefs]: "c_mod a b = a - b * c_div a b"

lemma c_div_nonneg: "0 \<le> a \<Longrightarrow> 0 < b \<Longrightarrow> c_div a b = a div b"
  by (cases "a = 0") (simp_all add: c_div_def)

lemma c_mod_nonneg: "0 \<le> a \<Longrightarrow> 0 < b \<Longrightarrow> c_mod a b = a mod b"
  by (simp add: c_mod_def c_div_nonneg minus_mult_div_eq_mod)

lemma c_mod_neg: "a < 0 \<Longrightarrow> 0 < b \<Longrightarrow> c_mod a b = - ((- a) mod b)"
  by (simp add: c_mod_def c_div_def minus_mult_div_eq_mod [symmetric])

lemma c_mod_eq_0_iff: "0 < b \<Longrightarrow> c_mod a b = 0 \<longleftrightarrow> b dvd a"
  by (cases "0 \<le> a") (simp_all add: c_mod_nonneg c_mod_neg dvd_eq_mod_eq_0 [symmetric])

section \<open>Fallible steps\<close>

text \<open>A fallible step returns \<open>Inl\<close> of its fault or \<open>Inr\<close> of its result.\<close>

definition bindE :: "'e + 'a \<Rightarrow> ('a \<Rightarrow> 'e + 'b) \<Rightarrow> 'e + 'b" where
  "bindE m f = (case m of Inl e \<Rightarrow> Inl e | Inr a \<Rightarrow> f a)"

lemma bindE_simps [simp]: "bindE (Inl e) f = Inl e" "bindE (Inr a) f = f a"
  by (simp_all add: bindE_def)

lemma bindE_Inr_iff: "bindE m f = Inr b \<longleftrightarrow> (\<exists>a. m = Inr a \<and> f a = Inr b)"
  by (cases m) simp_all

lemma bindE_Inl_iff: "bindE m f = Inl e \<longleftrightarrow> m = Inl e \<or> (\<exists>a. m = Inr a \<and> f a = Inl e)"
  by (cases m) auto

text \<open>
  A step that also has observable effects returns the list of them, in order, and its fault or
  result. The effects before a fault have happened.
\<close>

type_synonym ('l, 'e, 'a) io = "'l list \<times> ('e + 'a)"

definition returnIO :: "'a \<Rightarrow> ('l, 'e, 'a) io" where
  "returnIO a = ([], Inr a)"

definition raiseIO :: "'e \<Rightarrow> ('l, 'e, 'a) io" where
  "raiseIO e = ([], Inl e)"

definition emitIO :: "'l \<Rightarrow> ('l, 'e, unit) io" where
  "emitIO l = ([l], Inr ())"

definition bindIO :: "('l, 'e, 'a) io \<Rightarrow> ('a \<Rightarrow> ('l, 'e, 'b) io) \<Rightarrow> ('l, 'e, 'b) io" where
  "bindIO m f = (case snd m of Inl e \<Rightarrow> (fst m, Inl e) | Inr a \<Rightarrow> (fst m @ fst (f a), snd (f a)))"

lemma bindIO_simps [simp]:
  "bindIO (ls, Inl e) f = (ls, Inl e)"
  "bindIO (ls, Inr a) f = (ls @ fst (f a), snd (f a))"
  by (simp_all add: bindIO_def)

lemmas io_simps = returnIO_def raiseIO_def emitIO_def

lemma bindIO_return [simp]: "bindIO (returnIO a) f = f a"
  by (simp add: bindIO_def returnIO_def)

lemma bindIO_raise [simp]: "bindIO (raiseIO e) f = raiseIO e"
  by (simp add: bindIO_def raiseIO_def)

lemma snd_bindIO_Inr: "snd (bindIO m f) = Inr b \<longleftrightarrow> (\<exists>a. snd m = Inr a \<and> snd (f a) = Inr b)"
  by (cases m; cases "snd m") auto

section \<open>Lists\<close>

lemma upt_ex_Suc:
  "(\<exists>i \<in> {1..<length s}. s ! i = d \<and> s ! (i - 1) = d) \<longleftrightarrow> (\<exists>i. Suc i < length s \<and> s ! Suc i = d \<and> s ! i = d)"
proof
  assume "\<exists>i \<in> {1..<length s}. s ! i = d \<and> s ! (i - 1) = d"
  then obtain i where "1 \<le> i" "i < length s" "s ! i = d" "s ! (i - 1) = d" by auto
  then have "Suc (i - 1) < length s \<and> s ! Suc (i - 1) = d \<and> s ! (i - 1) = d" by simp
  then show "\<exists>i. Suc i < length s \<and> s ! Suc i = d \<and> s ! i = d" by blast
next
  assume "\<exists>i. Suc i < length s \<and> s ! Suc i = d \<and> s ! i = d"
  then obtain i where "Suc i < length s" "s ! Suc i = d" "s ! i = d" by blast
  then show "\<exists>i \<in> {1..<length s}. s ! i = d \<and> s ! (i - 1) = d"
    by (intro bexI [where x = "Suc i"]) auto
qed

lemma takeWhile_all: "list_all P xs \<Longrightarrow> takeWhile P xs = xs"
  by (induction xs) auto

lemma dropWhile_all: "list_all P xs \<Longrightarrow> dropWhile P xs = []"
  by (induction xs) auto

lemma length_eq_2: "length xs = 2 \<longleftrightarrow> (\<exists>a b. xs = [a, b])"
  by (auto simp: numeral_2_eq_2 length_Suc_conv)

lemma length_eq_5: "length xs = 5 \<longleftrightarrow> (\<exists>a b c d e. xs = [a, b, c, d, e])"
  by (auto simp: eval_nat_numeral length_Suc_conv)

end
