(* ===== verification/C_Library.thy ===== *)
theory C_Library
  imports Prelude
begin

text \<open>
  The functions of the C standard library that the program uses, in the C locale: character
  classes, string comparison and search, \<open>strtol\<close> in base 10 and formatted printing. A C string is
  a \<^typ>\<open>string\<close> without its terminating NUL; a \<open>char *\<close> that may be NULL is a
  \<^typ>\<open>string option\<close>.
\<close>

section \<open>Characters and comparison\<close>

definition isdigit :: "char \<Rightarrow> bool" where
  "isdigit c = (48 \<le> (of_char c :: nat) \<and> (of_char c :: nat) \<le> 57)"

definition isspace :: "char \<Rightarrow> bool" where
  "isspace c = ((of_char c :: nat) = 32 \<or> (9 \<le> (of_char c :: nat) \<and> (of_char c :: nat) \<le> 13))"

definition to_lower :: "char \<Rightarrow> char" where
  "to_lower c = (if 65 \<le> (of_char c :: nat) \<and> (of_char c :: nat) \<le> 90
                 then char_of ((of_char c :: nat) + 32) else c)"

definition is_ascii :: "string \<Rightarrow> bool" where
  "is_ascii s = list_all (\<lambda>c. (of_char c :: nat) < 128) s"

text \<open>\<open>strcmp(a, b) == 0\<close>, \<open>strcasecmp(a, b) == 0\<close> and \<open>strchr(s, c) != NULL\<close>.\<close>

definition strcmp_eq :: "string \<Rightarrow> string \<Rightarrow> bool" where
  [cdefs]: "strcmp_eq a b = (a = b)"

definition strcasecmp_eq :: "string \<Rightarrow> string \<Rightarrow> bool" where
  [cdefs]: "strcasecmp_eq a b = (map to_lower a = map to_lower b)"

definition strchr_found :: "string \<Rightarrow> char \<Rightarrow> bool" where
  [cdefs]: "strchr_found s c = (c \<in> set s)"

section \<open>Decimal numbers\<close>

definition digit_val :: "char \<Rightarrow> nat" where
  "digit_val c = of_char c - 48"

definition digit_char :: "nat \<Rightarrow> char" where
  "digit_char n = char_of (48 + n)"

definition decimal_val :: "string \<Rightarrow> nat" where
  "decimal_val s = foldl (\<lambda>v c. 10 * v + digit_val c) 0 s"

fun show_nat :: "nat \<Rightarrow> string" where
  "show_nat n = (if n < 10 then [digit_char n] else show_nat (n div 10) @ [digit_char (n mod 10)])"

declare show_nat.simps [simp del]

definition show_int :: "int \<Rightarrow> string" where
  "show_int i = (if i < 0 then CHR ''-'' # show_nat (nat (- i)) else show_nat (nat i))"

text \<open>
  \<open>strtol(s, &end, 10)\<close> on an LP64 platform: the value, what \<open>end\<close> points to, and whether
  \<open>errno\<close> was set to \<open>ERANGE\<close>. Leading white space and one sign are skipped; without a digit
  nothing is consumed.
\<close>

definition strtol10 :: "string \<Rightarrow> int \<times> string \<times> bool" where
  "strtol10 s =
     (let s1 = dropWhile isspace s;
          neg = (case s1 of c # _ \<Rightarrow> c = CHR ''-'' | [] \<Rightarrow> False);
          s2 = (case s1 of c # cs \<Rightarrow> if c = CHR ''-'' \<or> c = CHR ''+'' then cs else s1 | [] \<Rightarrow> s1);
          ds = takeWhile isdigit s2;
          v = (if neg then - int (decimal_val ds) else int (decimal_val ds))
      in if ds = [] then (0, s, False)
         else if v > LONG_MAX then (LONG_MAX, dropWhile isdigit s2, True)
         else if v < - LONG_MAX - 1 then (- LONG_MAX - 1, dropWhile isdigit s2, True)
         else (v, dropWhile isdigit s2, False))"

lemma of_char_digit_char: "n < 10 \<Longrightarrow> (of_char (digit_char n) :: nat) = 48 + n"
  by (simp add: digit_char_def)

lemma isdigit_digit_char [simp]: "n < 10 \<Longrightarrow> isdigit (digit_char n)"
  by (simp add: isdigit_def of_char_digit_char)

lemma digit_val_digit_char [simp]: "n < 10 \<Longrightarrow> digit_val (digit_char n) = n"
  by (simp add: digit_val_def of_char_digit_char)

lemma isdigit_not_space: "isdigit c \<Longrightarrow> \<not> isspace c"
  by (auto simp: isdigit_def isspace_def)

lemma isdigit_ne:
  "\<not> isdigit CHR ''-''" "\<not> isdigit CHR ''+''" "\<not> isdigit CHR ''*''" "\<not> isdigit CHR ''/''"
  "\<not> isdigit CHR '',''" "\<not> isdigit CHR ''$''" "\<not> isdigit CHR '' ''" "\<not> isdigit CHR ''%''"
  by (simp_all add: isdigit_def)

lemma decimal_val_snoc [simp]: "decimal_val (s @ [c]) = 10 * decimal_val s + digit_val c"
  by (simp add: decimal_val_def)

lemma show_nat_digits: "list_all isdigit (show_nat n)"
proof (induction n rule: show_nat.induct)
  case (1 n)
  then show ?case by (subst show_nat.simps) simp
qed

lemma show_nat_nonempty [simp]: "show_nat n \<noteq> []"
  by (subst show_nat.simps) simp

lemma decimal_val_show_nat [simp]: "decimal_val (show_nat n) = n"
proof (induction n rule: show_nat.induct)
  case (1 n)
  show ?case
  proof (cases "n < 10")
    case True
    then show ?thesis by (subst show_nat.simps) (simp add: decimal_val_def)
  next
    case False
    with 1 show ?thesis by (subst show_nat.simps) simp
  qed
qed

lemma show_nat_set: "c \<in> set (show_nat n) \<Longrightarrow> isdigit c"
  using show_nat_digits by (auto simp: list_all_iff)

text \<open>On a non-empty string of digits \<open>strtol\<close> consumes everything and saturates.\<close>

lemma strtol10_digits:
  assumes "s \<noteq> []" and "list_all isdigit s"
  shows "strtol10 s = (if int (decimal_val s) > LONG_MAX then (LONG_MAX, [], True)
                       else (int (decimal_val s), [], False))"
proof -
  obtain c cs where s: "s = c # cs" using assms(1) by (cases s) auto
  have c: "isdigit c" using assms(2) s by simp
  have sp: "dropWhile isspace s = s" using c s by (simp add: isdigit_not_space)
  have ne: "c \<noteq> CHR ''-''" "c \<noteq> CHR ''+''" using c by (auto simp: isdigit_ne)
  have tw: "takeWhile isdigit s = s" "dropWhile isdigit s = []"
    using assms(2) by (simp_all add: takeWhile_all dropWhile_all)
  show ?thesis
    using s ne tw sp by (simp add: strtol10_def Let_def LONG_MAX_def)
qed

text \<open>For the evaluation of concrete strings.\<close>

lemmas char_eval = isdigit_def decimal_val_def digit_val_def to_lower_def char_of_def bit_0

section \<open>Formatted printing\<close>

text \<open>
  What \<open>vsnprintf\<close> expands a format to. PostgreSQL puts its own function in the place of the C
  library's (\<open>port.h\<close>); it differs where C leaves the behaviour undefined: \<open>%m\<close> stands for the text of
  \<open>errno\<close>, here \<open>em\<close>, and a directive that is incomplete or unknown ends the expansion, so that what
  was written before it is all that reaches the buffer. \<open>None\<close> is a directive that reads an argument
  which was not passed, or one of another type; that is undefined in both. Between \<open>%\<close> and the
  conversion stand flags, digits and lengths; with arguments, only the directives of the program's own
  formats (\<open>%s %d %ld\<close>) are given a meaning.
\<close>

datatype fmt_arg = ArgStr string | ArgInt int

definition fmt_modifier :: "char \<Rightarrow> bool" where
  "fmt_modifier c = (c \<in> set ''-+0123456789.lzh$'' \<or> c = CHR 0x27)"

definition reads_arg :: "char \<Rightarrow> bool" where
  "reads_arg c = (c \<in> set ''diouxXcspeEfgG*'')"

lemma dropWhile_shorter: "dropWhile P cs = d # ds \<Longrightarrow> length ds < Suc (length cs)"
  using length_dropWhile_le [of P cs] by simp

function c_format :: "string \<Rightarrow> string \<Rightarrow> fmt_arg list \<Rightarrow> string option" where
  "c_format em [] as = Some []"
| "c_format em (c # cs) as =
     (if c \<noteq> CHR ''%'' then map_option (Cons c) (c_format em cs as)
      else (case dropWhile fmt_modifier cs of
          [] \<Rightarrow> Some []
        | d # ds \<Rightarrow>
          if d = CHR ''%'' then map_option (Cons d) (c_format em ds as)
          else if d = CHR ''m'' then map_option ((@) em) (c_format em ds as)
          else if \<not> reads_arg d then Some []
          else (case as of
              ArgStr s # as' \<Rightarrow>
                if d = CHR ''s'' \<and> takeWhile fmt_modifier cs = [] then map_option ((@) s) (c_format em ds as') else None
            | ArgInt i # as' \<Rightarrow>
                if d = CHR ''d'' \<and> set (takeWhile fmt_modifier cs) \<subseteq> {CHR ''l''}
                then map_option ((@) (show_int i)) (c_format em ds as') else None
            | [] \<Rightarrow> None)))"
  by pat_completeness auto

termination
  by (relation "measure (\<lambda>(em, fmt, as). length fmt)") (auto dest: dropWhile_shorter)

text \<open>\<open>vsnprintf(buf, n, fmt, args)\<close>: at most \<open>n - 1\<close> characters reach the buffer.\<close>

definition vsnprintf :: "string \<Rightarrow> nat \<Rightarrow> string \<Rightarrow> fmt_arg list \<Rightarrow> string option" where
  "vsnprintf em n fmt as = map_option (take (n - 1)) (c_format em fmt as)"

lemma c_format_plain: "CHR ''%'' \<notin> set fmt \<Longrightarrow> c_format em fmt as = Some fmt"
  by (induction fmt) auto

lemma vsnprintf_plain: "CHR ''%'' \<notin> set fmt \<Longrightarrow> vsnprintf em n fmt as = Some (take (n - 1) fmt)"
  by (simp add: vsnprintf_def c_format_plain)

text \<open>A text with every percent sign doubled expands to the text.\<close>

definition doubled :: "string \<Rightarrow> string" where
  "doubled t = concat (map (\<lambda>c. if c = CHR ''%'' then [c, c] else [c]) t)"

lemma c_format_doubled_append: "c_format em (doubled t @ fmt) as = map_option ((@) t) (c_format em fmt as)"
proof (induction t)
  case Nil
  show ?case by (simp add: doubled_def option.map_ident)
next
  case (Cons c t)
  have "\<not> fmt_modifier CHR ''%''" by (simp add: fmt_modifier_def)
  with Cons show ?case by (cases "c_format em fmt as") (simp_all add: doubled_def)
qed

lemma c_format_doubled: "c_format em (doubled t) as = Some t"
  using c_format_doubled_append [of em t "[]" as] by simp

lemma reads_arg_not_modifier: "reads_arg d \<Longrightarrow> \<not> fmt_modifier d \<and> d \<noteq> CHR ''%'' \<and> d \<noteq> CHR ''m''"
  by (auto simp: reads_arg_def fmt_modifier_def)

text \<open>A directive after which nothing was passed.\<close>

lemma c_format_directive:
  assumes "list_all fmt_modifier mods"
  shows "c_format em (CHR ''%'' # mods) [] = Some []"
    and "\<not> fmt_modifier d \<Longrightarrow> c_format em (CHR ''%'' # mods @ d # post) [] =
      (if d = CHR ''%'' then map_option (Cons d) (c_format em post [])
       else if d = CHR ''m'' then map_option ((@) em) (c_format em post [])
       else if reads_arg d then None else Some [])"
proof -
  have "dropWhile fmt_modifier mods = []" using assms by (simp add: list_all_iff dropWhile_eq_Nil_conv)
  then show "c_format em (CHR ''%'' # mods) [] = Some []" by (simp del: dropWhile_eq_Nil_conv)
  assume "\<not> fmt_modifier d"
  then have "dropWhile fmt_modifier (mods @ d # post) = d # post" using assms by (simp add: list_all_iff dropWhile_append2)
  then show "c_format em (CHR ''%'' # mods @ d # post) [] =
      (if d = CHR ''%'' then map_option (Cons d) (c_format em post [])
       else if d = CHR ''m'' then map_option ((@) em) (c_format em post [])
       else if reads_arg d then None else Some [])" by simp
qed

end
