(* ===== verification/Parser_Types.thy ===== *)
theory Parser_Types
  imports C_Library
begin

text \<open>
  The data of the schedule parser (\<open>include/cron_parser.h\<close>) and its error reporting
  (\<open>clear_parse_error\<close>, \<open>set_parse_error\<close> and \<open>field_name\<close> of \<open>src/cron_parser.c\<close>), with the
  well-formedness of a schedule: every bit array keeps its declared length.
\<close>

section \<open>Schedules\<close>

datatype FieldType = CRON_MINUTE | CRON_HOUR | CRON_DOM | CRON_M | CRON_DOW

text \<open>The fixed-size \<open>bool\<close> arrays are lists; \<open>empty_schedule\<close> is the \<open>{0}\<close> initialiser.\<close>

record CronSchedule =
  minute :: "bool list"
  hour :: "bool list"
  dayOfMonth :: "bool list"
  month :: "bool list"
  dayOfWeek :: "bool list"
  MIN_STAR :: bool
  HOUR_STAR :: bool
  DOW_STAR :: bool
  DOM_STAR :: bool
  LAST_DOM :: bool
  SECONDS :: bool
  secondsInterval :: int

definition empty_schedule :: CronSchedule where
  "empty_schedule = \<lparr> minute = replicate 60 False, hour = replicate 24 False,
     dayOfMonth = replicate 32 False, month = replicate 13 False, dayOfWeek = replicate 7 False,
     MIN_STAR = False, HOUR_STAR = False, DOW_STAR = False, DOM_STAR = False,
     LAST_DOM = False, SECONDS = False, secondsInterval = 0 \<rparr>"

definition sched_wf :: "CronSchedule \<Rightarrow> bool" where
  "sched_wf s = (length (minute s) = 60 \<and> length (hour s) = 24 \<and> length (dayOfMonth s) = 32
     \<and> length (month s) = 13 \<and> length (dayOfWeek s) = 7)"

lemma sched_wf_empty [simp]: "sched_wf empty_schedule"
  by (simp add: sched_wf_def empty_schedule_def)

text \<open>The array a field's values are recorded in, and reading one of its bits.\<close>

fun field_array :: "FieldType \<Rightarrow> CronSchedule \<Rightarrow> bool list" where
  "field_array CRON_MINUTE s = minute s"
| "field_array CRON_HOUR s = hour s"
| "field_array CRON_DOM s = dayOfMonth s"
| "field_array CRON_M s = month s"
| "field_array CRON_DOW s = dayOfWeek s"

definition field_bit :: "FieldType \<Rightarrow> CronSchedule \<Rightarrow> int \<Rightarrow> bool" where
  "field_bit type s v = (0 \<le> v \<and> v < int (length (field_array type s)) \<and> field_array type s ! nat v)"

lemma field_bit_empty [simp]: "\<not> field_bit type empty_schedule v"
  by (cases type) (auto simp: field_bit_def empty_schedule_def nat_less_iff)

section \<open>Names of months and week days\<close>

definition month_names :: "(string \<times> int) list" where
  "month_names = [(''JAN'', 1), (''FEB'', 2), (''MAR'', 3), (''APR'', 4), (''MAY'', 5), (''JUN'', 6),
     (''JUL'', 7), (''AUG'', 8), (''SEP'', 9), (''OCT'', 10), (''NOV'', 11), (''DEC'', 12)]"

definition dow_names :: "(string \<times> int) list" where
  "dow_names = [(''SUN'', 0), (''MON'', 1), (''TUE'', 2), (''WED'', 3), (''THU'', 4), (''FRI'', 5),
     (''SAT'', 6)]"

section \<open>Parse errors\<close>

text \<open>
  The \<open>message\<close> and \<open>token\<close> buffers hold at most 255 and 63 characters before their NUL. A caller
  that wants no details passes a NULL pointer, here \<open>None\<close>.
\<close>

record CronParseError =
  message :: string
  token :: string
  fieldIndex :: int
  tokenIndex :: int

definition CRON_PARSE_ERROR_MESSAGE_LEN :: nat where
  [cdefs]: "CRON_PARSE_ERROR_MESSAGE_LEN = 256"

definition CRON_PARSE_ERROR_TOKEN_LEN :: nat where
  [cdefs]: "CRON_PARSE_ERROR_TOKEN_LEN = 64"

definition clear_parse_error :: "CronParseError option \<Rightarrow> CronParseError option" where
  "clear_parse_error error =
     (case error of None \<Rightarrow> None
      | Some _ \<Rightarrow> Some \<lparr> message = [], token = [], fieldIndex = 0, tokenIndex = 0 \<rparr>)"

text \<open>
  All formats passed to \<open>set_parse_error\<close> are literals; \<open>msg\<close> is their expansion. \<open>snprintf\<close> cuts
  both strings to their buffers, and a NULL token leaves the old one in place.
\<close>

definition set_parse_error ::
  "CronParseError option \<Rightarrow> int \<Rightarrow> int \<Rightarrow> string option \<Rightarrow> string \<Rightarrow> CronParseError option" where
  "set_parse_error error fi ti tok msg =
     (case error of None \<Rightarrow> None
      | Some e \<Rightarrow> Some (e\<lparr> fieldIndex := fi, tokenIndex := ti,
          token := (case tok of None \<Rightarrow> token e | Some t \<Rightarrow> take (CRON_PARSE_ERROR_TOKEN_LEN - 1) t),
          message := take (CRON_PARSE_ERROR_MESSAGE_LEN - 1) msg \<rparr>))"

fun field_name :: "FieldType \<Rightarrow> string" where
  "field_name CRON_MINUTE = ''minute''"
| "field_name CRON_HOUR = ''hour''"
| "field_name CRON_DOM = ''day-of-month''"
| "field_name CRON_M = ''month''"
| "field_name CRON_DOW = ''day-of-week''"

lemma set_parse_error_None [simp]: "set_parse_error None fi ti tok msg = None"
  by (simp add: set_parse_error_def)

lemma set_parse_error_is_None [simp]: "set_parse_error e fi ti tok msg = None \<longleftrightarrow> e = None"
  by (simp add: set_parse_error_def split: option.split)

text \<open>A failure that was reported: if there is an error record, it has a message and names the field.\<close>

definition reported :: "int \<Rightarrow> CronParseError option \<Rightarrow> CronParseError option \<Rightarrow> bool" where
  "reported fi e e' =
     (case e of None \<Rightarrow> e' = None
      | Some _ \<Rightarrow> (\<exists>er. e' = Some er \<and> message er \<noteq> [] \<and> fieldIndex er = fi))"

lemma reported_set [simp]: "msg \<noteq> [] \<Longrightarrow> reported fi e (set_parse_error e fi ti tok msg)"
  by (simp add: reported_def set_parse_error_def cdefs split: option.split)

end
