(* ===== verification/Parser_Lex.thy ===== *)
theory Parser_Lex
  imports Parser_Types
begin

text \<open>
  The lexical helpers of \<open>src/cron_parser.c\<close>: splitting a string at a delimiter, spotting empty
  parts, reading numbers and names, the special tokens, and the unused \<open>fillBooleanArray\<close>.
\<close>

section \<open>Splitting\<close>

definition has_empty_part :: "string option \<Rightarrow> char \<Rightarrow> bool" where
  "has_empty_part s delimiter =
     (case s of None \<Rightarrow> True
      | Some s \<Rightarrow>
          if s = [] then True
          else if s ! 0 = delimiter \<or> s ! (length s - 1) = delimiter then True
          else list_ex (\<lambda>i. s ! i = delimiter \<and> s ! (i - 1) = delimiter) [1..<length s])"

text \<open>
  \<open>str_split\<close> first counts the delimiters to size the result array, then scans again and copies
  each part. \<open>split_loop part s delim\<close> is the second scan: \<open>part\<close> holds the characters between
  \<open>start\<close> and \<open>p\<close>, and \<open>s\<close> is the text from \<open>p\<close> on.
\<close>

fun count_delims :: "string \<Rightarrow> char \<Rightarrow> nat" where
  "count_delims [] delim = 0"
| "count_delims (c # s) delim = (if c = delim then Suc (count_delims s delim) else count_delims s delim)"

fun split_loop :: "string \<Rightarrow> string \<Rightarrow> char \<Rightarrow> string list" where
  "split_loop part [] delim = [part]"
| "split_loop part (c # s) delim =
     (if c = delim then part # split_loop [] s delim else split_loop (part @ [c]) s delim)"

definition str_split :: "string option \<Rightarrow> char \<Rightarrow> string list option" where
  "str_split str delim = (case str of None \<Rightarrow> None | Some s \<Rightarrow> Some (split_loop [] s delim))"

text \<open>The size of the array that \<open>str_split\<close> allocates: one slot per part and one for the NULL.\<close>

definition str_split_slots :: "string \<Rightarrow> char \<Rightarrow> nat" where
  "str_split_slots s delim = (1 + count_delims s delim) + 1"

text \<open>A NULL-terminated array of strings is a list; the NULL pointer is \<open>None\<close>.\<close>

definition charArrayLength :: "string list option \<Rightarrow> int" where
  "charArrayLength charArray = (case charArray of None \<Rightarrow> 0 | Some xs \<Rightarrow> int (length xs))"

section \<open>Numbers, names and special tokens\<close>

definition parse_integer :: "string option \<Rightarrow> int option" where
  "parse_integer string =
     (case string of None \<Rightarrow> None
      | Some s \<Rightarrow>
          if s = [] then None
          else if \<not> list_all isdigit s then None
          else (case strtol10 s of (result, endpointer, erange) \<Rightarrow>
            if erange \<or> endpointer \<noteq> [] \<or> result > INT_MAX then None else Some result))"

text \<open>
  \<open>pg_strcasecmp\<close> belongs to PostgreSQL's port library and is a parameter: \<open>psc a b\<close> is its result.
  \<open>pg_strcasecmp_ok\<close> is what its documentation promises for ASCII strings.
\<close>

type_synonym strcasecmp = "string \<Rightarrow> string \<Rightarrow> int"

definition pg_strcasecmp_ok :: "strcasecmp \<Rightarrow> bool" where
  "pg_strcasecmp_ok psc = (\<forall>a b. is_ascii a \<and> is_ascii b \<longrightarrow> (psc a b = 0 \<longleftrightarrow> map to_lower a = map to_lower b))"

fun search_for_cron_name :: "strcasecmp \<Rightarrow> (string \<times> int) list \<Rightarrow> string \<Rightarrow> int option" where
  "search_for_cron_name psc [] tok = None"
| "search_for_cron_name psc ((n, v) # names) tok =
     (if psc n tok = 0 then Some v else search_for_cron_name psc names tok)"

definition isStar :: "string \<Rightarrow> bool" where
  "isStar s = strcmp_eq s ''*''"

definition is_last_dom_token :: "string option \<Rightarrow> bool" where
  "is_last_dom_token tok = (case tok of None \<Rightarrow> False | Some t \<Rightarrow> strcmp_eq t ''$'')"

definition isEnumeration :: "string option \<Rightarrow> bool" where
  "isEnumeration string =
     (case str_split string CHR '','' of None \<Rightarrow> False
      | Some splitted \<Rightarrow> if charArrayLength (Some splitted) < 2 then False else True)"

section \<open>fillBooleanArray\<close>

text \<open>
  A loop over a fixed array, kept in the file but called from nowhere. The outer \<open>None\<close> is an
  access outside the array (undefined behaviour). \<open>is_int\<close> says that a value fits a C \<open>int\<close>, as
  the parameters do; it is part of the guard because the termination argument needs it.
\<close>

definition is_int :: "int \<Rightarrow> bool" where
  "is_int x = (- INT_MAX - 1 \<le> x \<and> x \<le> INT_MAX)"

function fill_loop :: "bool list \<Rightarrow> int \<Rightarrow> int \<Rightarrow> int \<Rightarrow> bool \<Rightarrow> bool list option" where
  "fill_loop array i finish step value =
     (if i < finish \<and> 0 < step \<and> is_int step \<and> is_int finish then
        (if i < 0 \<or> int (length array) \<le> i then None
         else fill_loop (array[nat i := value]) (int32 (i + step)) finish step value)
      else Some array)"
  by pat_completeness auto
termination
proof (relation "measure (\<lambda>(array, i, finish, step, value). if i < 0 then 0 else nat (finish - i + 1))",
       goal_cases)
  case (2 array i finish step val)
  then have b: "0 \<le> i" "i < finish" "0 < step" "step \<le> 2147483647" "finish \<le> 2147483647"
    by (auto simp: is_int_def cdefs)
  show ?case
  proof (cases "i + step < 2147483648")
    case True
    with b show ?thesis by simp
  next
    case False
    with b have "int32 (i + step) = i + step - 4294967296" by (intro int32_above) auto
    with b show ?thesis by simp
  qed
qed simp

declare fill_loop.simps [simp del]

definition fillBooleanArray ::
  "bool list option \<Rightarrow> int \<Rightarrow> int \<Rightarrow> int \<Rightarrow> bool \<Rightarrow> bool list option option" where
  "fillBooleanArray array start finish step value =
     (case array of None \<Rightarrow> Some None
      | Some a \<Rightarrow>
          if step \<le> 0 then Some (Some a)
          else let r = (if start < 0 then (if a = [] then None else Some (a[0 := value])) else Some a)
               in (case r of None \<Rightarrow> None
                   | Some a' \<Rightarrow> map_option Some (fill_loop a' start finish step value)))"

section \<open>What splitting returns\<close>

text \<open>Gluing parts back together with the delimiter.\<close>

fun join :: "char \<Rightarrow> string list \<Rightarrow> string" where
  "join d [] = []"
| "join d [x] = x"
| "join d (x # y # xs) = x @ d # join d (y # xs)"

lemma split_loop_nonempty [simp]: "split_loop part s d \<noteq> []"
  by (induction part s d rule: split_loop.induct) auto

lemma join_Cons: "xs \<noteq> [] \<Longrightarrow> join d (x # xs) = x @ d # join d xs"
  by (cases xs) auto

lemma join_split_loop: "join d (split_loop part s d) = part @ s"
  by (induction part s d rule: split_loop.induct) (auto simp: join_Cons)

lemma split_loop_delim_free: "d \<notin> set part \<Longrightarrow> list_all (\<lambda>p. d \<notin> set p) (split_loop part s d)"
  by (induction part s d rule: split_loop.induct) auto

lemma length_split_loop: "length (split_loop part s d) = Suc (count_delims s d)"
  by (induction part s d rule: split_loop.induct) auto

lemma split_loop_no_delim: "d \<notin> set s \<Longrightarrow> split_loop part s d = [part @ s]"
  by (induction part s d rule: split_loop.induct) auto

lemma split_loop_app: "d \<notin> set s \<Longrightarrow> split_loop part (s @ d # rest) d = (part @ s) # split_loop [] rest d"
  by (induction s arbitrary: part) auto

lemma split_join:
  assumes "xs \<noteq> []" and "list_all (\<lambda>p. d \<notin> set p) xs"
  shows "split_loop [] (join d xs) d = xs"
  using assms
proof (induction d xs rule: join.induct)
  case (3 d x y xs)
  then show ?case by (simp add: split_loop_app)
qed (simp_all add: split_loop_no_delim)

lemma str_split_Some [parser_simps]: "str_split (Some s) d = Some (split_loop [] s d)"
  by (simp add: str_split_def)

text \<open>
  C38: str_split (src/cron_parser.c) returns the delimiter-free parts of the string whose join with
  the delimiter is the string again, these parts are the only ones with that property, and there
  are exactly as many as the slots it allocated before the terminating NULL, so no store through
  result[idx] leaves the array.
\<close>

theorem str_split_correct:
  "\<exists>parts. str_split (Some s) delim = Some parts
     \<and> join delim parts = s \<and> list_all (\<lambda>p. delim \<notin> set p) parts
     \<and> Suc (length parts) = str_split_slots s delim
     \<and> {xs. xs \<noteq> [] \<and> list_all (\<lambda>p. delim \<notin> set p) xs \<and> join delim xs = s} = {parts}"
proof -
  let ?ps = "split_loop [] s delim"
  have "{xs. xs \<noteq> [] \<and> list_all (\<lambda>p. delim \<notin> set p) xs \<and> join delim xs = s} = {?ps}"
    using split_join [where d = delim] by (auto simp: join_split_loop split_loop_delim_free)
  then show ?thesis
    by (simp add: str_split_Some join_split_loop split_loop_delim_free length_split_loop str_split_slots_def)
qed

lemma Nil_in_split_loop:
  "[] \<in> set (split_loop part s d) \<longleftrightarrow>
     part = [] \<and> (s = [] \<or> hd s = d) \<or> s \<noteq> [] \<and> last s = d
     \<or> (\<exists>i. Suc i < length s \<and> s ! Suc i = d \<and> s ! i = d)"
proof (induction part s d rule: split_loop.induct)
  case (1 part d)
  show ?case by auto
next
  case (2 part c s d)
  have ex: "(\<exists>i. Suc i < length (c # s) \<and> (c # s) ! Suc i = d \<and> (c # s) ! i = d)
     \<longleftrightarrow> s \<noteq> [] \<and> hd s = d \<and> c = d \<or> (\<exists>i. Suc i < length s \<and> s ! Suc i = d \<and> s ! i = d)"
    (is "?l \<longleftrightarrow> ?r")
  proof
    assume ?l
    then obtain i where i: "Suc i < length (c # s)" "(c # s) ! Suc i = d" "(c # s) ! i = d" by blast
    show ?r
    proof (cases i)
      case 0
      with i show ?thesis by (cases s) auto
    next
      case (Suc j)
      with i show ?thesis by auto
    qed
  next
    assume ?r
    then show ?l
    proof
      assume "s \<noteq> [] \<and> hd s = d \<and> c = d"
      then show ?l by (intro exI [where x = 0]) (cases s, auto)
    next
      assume "\<exists>i. Suc i < length s \<and> s ! Suc i = d \<and> s ! i = d"
      then obtain i where "Suc i < length s" "s ! Suc i = d" "s ! i = d" by blast
      then show ?l by (intro exI [where x = "Suc i"]) auto
    qed
  qed
  show ?case
    using 2 unfolding ex by (cases "s = []") auto
qed

lemma has_empty_part_parts [parser_simps]:
  "has_empty_part (Some s) d \<longleftrightarrow> [] \<in> set (split_loop [] s d)"
proof (cases "s = []")
  case True
  then show ?thesis by (simp add: has_empty_part_def)
next
  case False
  have "list_ex (\<lambda>i. s ! i = d \<and> s ! (i - 1) = d) [1..<length s]
     \<longleftrightarrow> (\<exists>i. Suc i < length s \<and> s ! Suc i = d \<and> s ! i = d)"
    unfolding upt_ex_Suc [symmetric] by (simp add: list_ex_iff)
  with False show ?thesis
    by (auto simp: has_empty_part_def Nil_in_split_loop hd_conv_nth last_conv_nth)
qed

text \<open>
  has_empty_part (src/cron_parser.c) is true exactly when splitting at the delimiter gives an
  empty part: at the start, at the end, between two adjacent delimiters, or because the string is
  empty.
\<close>

theorem has_empty_part_correct:
  "has_empty_part (Some s) delim = (\<exists>parts. str_split (Some s) delim = Some parts \<and> [] \<in> set parts)"
  by (simp add: str_split_Some has_empty_part_parts)

section \<open>What number reading returns\<close>

lemma parse_integer_None [simp]: "parse_integer None = None"
  by (simp add: parse_integer_def)

lemma parse_integer_digits [parser_simps]:
  "parse_integer (Some s) =
     (if s \<noteq> [] \<and> list_all isdigit s \<and> int (decimal_val s) \<le> INT_MAX
      then Some (int (decimal_val s)) else None)"
  by (auto simp: parse_integer_def strtol10_digits cdefs)

lemma parse_integer_show_nat: "int n \<le> INT_MAX \<Longrightarrow> parse_integer (Some (show_nat n)) = Some (int n)"
  by (simp add: parse_integer_digits show_nat_digits)

lemma parse_integer_range: "parse_integer s = Some n \<Longrightarrow> 0 \<le> n \<and> n \<le> INT_MAX"
  by (cases s) (auto simp: parse_integer_digits split: if_splits)

text \<open>
  parse_integer (src/cron_parser.c) accepts exactly the non-empty strings of decimal digits
  whose value fits a C int, returns that value, and reads back every printed int, so neither the
  ERANGE saturation of strtol nor the narrowing cast ever yields a wrong number.
\<close>

theorem parse_integer_correct:
  "parse_integer (Some s) =
     (if s \<noteq> [] \<and> list_all isdigit s \<and> int (decimal_val s) \<le> INT_MAX
      then Some (int (decimal_val s)) else None)
   \<and> parse_integer (Some (show_nat (n mod 2147483648))) = Some (int (n mod 2147483648))"
proof -
  have "n mod 2147483648 < 2147483648" by simp
  then have "int (n mod 2147483648) \<le> INT_MAX" by (simp add: INT_MAX_def)
  from parse_integer_show_nat [OF this] show ?thesis by (simp add: parse_integer_digits)
qed

lemma search_for_cron_name_Some:
  "search_for_cron_name psc names tok = Some v \<Longrightarrow> \<exists>n. (n, v) \<in> set names \<and> psc n tok = 0"
  by (induction psc names tok rule: search_for_cron_name.induct) (auto split: if_splits)

lemma isStar_iff [parser_simps]: "isStar s \<longleftrightarrow> s = ''*''"
  by (simp add: isStar_def cdefs)

lemma is_last_dom_token_iff [parser_simps]: "is_last_dom_token (Some s) \<longleftrightarrow> s = ''$''"
  by (simp add: is_last_dom_token_def cdefs)

lemma charArrayLength_Some [parser_simps]: "charArrayLength (Some xs) = int (length xs)"
  by (simp add: charArrayLength_def)

end
