(* ===== verification/Parser_Field.thy ===== *)
theory Parser_Field
  imports Parser_Lex
begin

text \<open>
  The operations of \<open>src/cron_parser.c\<close> that fill a schedule: \<open>set_field_value\<close>,
  \<open>set_field_range\<close>, \<open>parse_range\<close>, \<open>parse_field_item\<close>, \<open>parse_cron_field\<close> and the entry points
  \<open>parse_with_error\<close> and \<open>parse\<close>. Each takes the schedule and the error record and returns its
  boolean result with both as it leaves them. Memory is not modelled: \<open>palloc0\<close> reports failure by
  raising an error and never returns NULL, and the \<open>free_*\<close> calls have no other effect.
\<close>

type_synonym parse_result = "bool \<times> CronSchedule \<times> CronParseError option"

fun get_bounds :: "FieldType \<Rightarrow> int \<times> int" where
  "get_bounds CRON_MINUTE = (0, 59)"
| "get_bounds CRON_HOUR = (0, 23)"
| "get_bounds CRON_M = (1, 12)"
| "get_bounds CRON_DOM = (1, 31)"
| "get_bounds CRON_DOW = (0, 7)"

fun mark_star_field :: "CronSchedule \<Rightarrow> FieldType \<Rightarrow> CronSchedule" where
  "mark_star_field scheduler CRON_MINUTE = scheduler\<lparr> MIN_STAR := True \<rparr>"
| "mark_star_field scheduler CRON_HOUR = scheduler\<lparr> HOUR_STAR := True \<rparr>"
| "mark_star_field scheduler CRON_DOM = scheduler\<lparr> DOM_STAR := True \<rparr>"
| "mark_star_field scheduler CRON_DOW = scheduler\<lparr> DOW_STAR := True \<rparr>"
| "mark_star_field scheduler CRON_M = scheduler"

definition set_field_value ::
  "CronSchedule \<Rightarrow> FieldType \<Rightarrow> int \<Rightarrow> int \<Rightarrow> int \<Rightarrow> string option \<Rightarrow> CronParseError option \<Rightarrow> parse_result"
where
  "set_field_value scheduler type value fi ti tok error =
     (case get_bounds type of (min_value, max_value) \<Rightarrow>
        if value < min_value \<or> max_value < value then
          (False, scheduler,
           set_parse_error error fi ti tok
             (field_name type @ '' must be '' @ show_int min_value @ ''-'' @ show_int max_value))
        else
          (case type of
             CRON_MINUTE \<Rightarrow> (True, scheduler\<lparr> minute := (minute scheduler)[nat value := True] \<rparr>, error)
           | CRON_HOUR \<Rightarrow> (True, scheduler\<lparr> hour := (hour scheduler)[nat value := True] \<rparr>, error)
           | CRON_M \<Rightarrow> (True, scheduler\<lparr> month := (month scheduler)[nat value := True] \<rparr>, error)
           | CRON_DOM \<Rightarrow>
               (True, scheduler\<lparr> dayOfMonth := (dayOfMonth scheduler)[nat value := True] \<rparr>, error)
           | CRON_DOW \<Rightarrow>
               (let value = (if value = 7 then 0 else value)
                in (True, scheduler\<lparr> dayOfWeek := (dayOfWeek scheduler)[nat value := True] \<rparr>, error))))"

text \<open>A value that passes the bounds check is small; this also makes the range loop terminate.\<close>

lemma set_field_value_True:
  "set_field_value s type v fi ti tok e = (True, s', e') \<Longrightarrow>
     fst (get_bounds type) \<le> v \<and> v \<le> snd (get_bounds type) \<and> e' = e"
  by (cases type) (auto simp: set_field_value_def Let_def split: if_splits)

lemma get_bounds_small: "0 \<le> fst (get_bounds type)" "snd (get_bounds type) \<le> 59"
  by (cases type; simp)+

text \<open>
  The loop of \<open>set_field_range\<close>; \<open>value += step\<close> wraps at 32 bits. The caller has checked that
  \<open>step\<close> is positive; the guard repeats it, with the range of a C \<open>int\<close>, for termination.
\<close>

function range_loop ::
  "CronSchedule \<Rightarrow> FieldType \<Rightarrow> int \<Rightarrow> int \<Rightarrow> int \<Rightarrow> int \<Rightarrow> int \<Rightarrow> string option
     \<Rightarrow> CronParseError option \<Rightarrow> parse_result"
where
  "range_loop scheduler type value finish step fi ti tok error =
     (if value \<le> finish \<and> 0 < step \<and> is_int step then
        (case set_field_value scheduler type value fi ti tok error of (ok, scheduler', error') \<Rightarrow>
           if \<not> ok then (False, scheduler', error')
           else range_loop scheduler' type (int32 (value + step)) finish step fi ti tok error')
      else (True, scheduler, error))"
  by pat_completeness auto
termination
proof (relation "measure (\<lambda>(s, type, value, finish, step, fi, ti, tok, e).
    if value < 0 then 0 else nat (finish - value + 1))", goal_cases)
  case (2 s type v finish step fi ti tok e ok r s' e')
  then have "set_field_value s type v fi ti tok e = (True, s', e')" by auto
  from set_field_value_True [OF this] get_bounds_small [of type]
  have v: "0 \<le> v" "v \<le> 59" by auto
  from 2 have b: "v \<le> finish" "0 < step" "step \<le> 2147483647" by (auto simp: is_int_def cdefs)
  show ?case
  proof (cases "v + step < 2147483648")
    case True
    with b v show ?thesis by simp
  next
    case False
    with b v have "int32 (v + step) = v + step - 4294967296" by (intro int32_above) auto
    with b v show ?thesis by simp
  qed
qed simp

declare range_loop.simps [simp del]

definition set_field_range ::
  "CronSchedule \<Rightarrow> FieldType \<Rightarrow> int \<Rightarrow> int \<Rightarrow> int \<Rightarrow> int \<Rightarrow> int \<Rightarrow> string option
     \<Rightarrow> CronParseError option \<Rightarrow> parse_result"
where
  "set_field_range scheduler type start finish step fi ti tok error =
     (if step \<le> 0 then
        (False, scheduler, set_parse_error error fi ti tok ''step must be greater than 0'')
      else if finish < start then
        (False, scheduler,
         set_parse_error error fi ti tok ''range start must be less than or equal to range end'')
      else range_loop scheduler type start finish step fi ti tok error)"

definition parse_field_value :: "strcasecmp \<Rightarrow> FieldType \<Rightarrow> string \<Rightarrow> int option" where
  "parse_field_value psc type tok =
     (case parse_integer (Some tok) of Some v \<Rightarrow> Some v
      | None \<Rightarrow>
          if type = CRON_M then search_for_cron_name psc month_names tok
          else if type = CRON_DOW then search_for_cron_name psc dow_names tok
          else None)"

definition parse_range :: "strcasecmp \<Rightarrow> string option \<Rightarrow> FieldType \<Rightarrow> (int \<times> int) option" where
  "parse_range psc string type =
     (case string of None \<Rightarrow> None
      | Some s \<Rightarrow>
          if has_empty_part (Some s) CHR ''-'' then None
          else (case str_split (Some s) CHR ''-'' of None \<Rightarrow> None
           | Some splitted \<Rightarrow>
               if charArrayLength (Some splitted) \<noteq> 2 then None
               else (case parse_field_value psc type (splitted ! 0) of None \<Rightarrow> None
                | Some start \<Rightarrow>
                    if type = CRON_DOM \<and> is_last_dom_token (Some (splitted ! 1))
                    then Some (start, 31)
                    else (case parse_field_value psc type (splitted ! 1) of None \<Rightarrow> None
                      | Some finish \<Rightarrow> Some (start, finish)))))"

definition parse_field_item ::
  "strcasecmp \<Rightarrow> CronSchedule \<Rightarrow> string option \<Rightarrow> FieldType \<Rightarrow> int \<Rightarrow> int \<Rightarrow> CronParseError option
     \<Rightarrow> parse_result"
where
  "parse_field_item psc scheduler item type fi ti error =
     (case get_bounds type of (min_value, max_value) \<Rightarrow>
      case item of
        None \<Rightarrow> (False, scheduler, set_parse_error error fi ti item (''empty '' @ field_name type @ '' value''))
      | Some it \<Rightarrow>
        if it = [] then
          (False, scheduler, set_parse_error error fi ti item (''empty '' @ field_name type @ '' value''))
        else if is_last_dom_token item then
          (if type \<noteq> CRON_DOM then
             (False, scheduler, set_parse_error error fi ti item ''$ is only allowed in day-of-month'')
           else (True, scheduler\<lparr> LAST_DOM := True \<rparr>, error))
        else if isStar it then
          (case set_field_range scheduler type min_value max_value 1 fi ti item error of
             (ok, scheduler', error') \<Rightarrow>
               (ok, if ok then mark_star_field scheduler' type else scheduler', error'))
        else if strchr_found it CHR ''/'' then
          (if has_empty_part item CHR ''/'' then
             (False, scheduler, set_parse_error error fi ti item ''invalid step syntax'')
           else (case str_split item CHR ''/'' of
               None \<Rightarrow> (False, scheduler, set_parse_error error fi ti item ''out of memory'')
             | Some step_parts \<Rightarrow>
               if charArrayLength (Some step_parts) \<noteq> 2 then
                 (False, scheduler, set_parse_error error fi ti item ''invalid step syntax'')
               else (case parse_integer (Some (step_parts ! 1)) of
                   None \<Rightarrow>
                     (False, scheduler, set_parse_error error fi ti item ''step must be a positive integer'')
                 | Some step \<Rightarrow>
                   if step \<le> 0 then
                     (False, scheduler, set_parse_error error fi ti item ''step must be a positive integer'')
                   else if isStar (step_parts ! 0) then
                     set_field_range scheduler type min_value max_value step fi ti item error
                   else if type = CRON_DOM \<and> is_last_dom_token (Some (step_parts ! 0)) then
                     set_field_range scheduler type min_value max_value step fi ti item error
                   else if strchr_found (step_parts ! 0) CHR ''-'' then
                     (case parse_range psc (Some (step_parts ! 0)) type of
                        None \<Rightarrow>
                          (False, scheduler,
                           set_parse_error error fi ti item (''invalid '' @ field_name type @ '' range''))
                      | Some (start, finish) \<Rightarrow>
                          set_field_range scheduler type start finish step fi ti item error)
                   else
                     (False, scheduler,
                      set_parse_error error fi ti item (''invalid step base for '' @ field_name type)))))
        else if strchr_found it CHR ''-'' then
          (case parse_range psc item type of
             None \<Rightarrow>
               (False, scheduler,
                set_parse_error error fi ti item (''invalid '' @ field_name type @ '' range''))
           | Some (start, finish) \<Rightarrow>
               set_field_range scheduler type start finish 1 fi ti item error)
        else
          (case parse_field_value psc type it of
             Some number \<Rightarrow> set_field_value scheduler type number fi ti item error
           | None \<Rightarrow>
               (False, scheduler,
                set_parse_error error fi ti item (''invalid '' @ field_name type @ '' value''))))"

text \<open>The loop over the list items; \<open>i\<close> counts from 0 and the reported token index from 1.\<close>

fun items_loop ::
  "strcasecmp \<Rightarrow> CronSchedule \<Rightarrow> string list \<Rightarrow> FieldType \<Rightarrow> int \<Rightarrow> int \<Rightarrow> CronParseError option \<Rightarrow> parse_result"
where
  "items_loop psc scheduler [] type fi i error = (True, scheduler, error)"
| "items_loop psc scheduler (it # items) type fi i error =
     (case parse_field_item psc scheduler (Some it) type fi (i + 1) error of (ok, scheduler', error') \<Rightarrow>
        if \<not> ok then
          (False, scheduler',
           (case error' of None \<Rightarrow> None
            | Some e \<Rightarrow>
                if message e = [] then
                  set_parse_error error' fi (i + 1) (Some it) (''invalid '' @ field_name type @ '' value'')
                else Some e))
        else items_loop psc scheduler' items type fi (i + 1) error')"

definition parse_cron_field ::
  "strcasecmp \<Rightarrow> CronSchedule \<Rightarrow> string option \<Rightarrow> FieldType \<Rightarrow> int \<Rightarrow> CronParseError option \<Rightarrow> parse_result"
where
  "parse_cron_field psc scheduler field type fi error =
     (if has_empty_part field CHR '','' then
        (False, scheduler, set_parse_error error fi 0 field ''invalid list syntax'')
      else (case str_split field CHR '','' of
          None \<Rightarrow>
            (False, scheduler, set_parse_error error fi 0 field (''empty '' @ field_name type @ '' field''))
        | Some items \<Rightarrow>
            if charArrayLength (Some items) = 0 then
              (False, scheduler, set_parse_error error fi 0 field (''empty '' @ field_name type @ '' field''))
            else items_loop psc scheduler items type fi 0 error))"

text \<open>
  The five fields are parsed in order and the first failure stops the rest, as the \<open>||\<close> chain of
  the condition does.
\<close>

fun fields_chain ::
  "strcasecmp \<Rightarrow> CronSchedule \<Rightarrow> (string \<times> FieldType \<times> int) list \<Rightarrow> CronParseError option \<Rightarrow> parse_result"
where
  "fields_chain psc temp [] error = (True, temp, error)"
| "fields_chain psc temp ((f, type, fi) # fs) error =
     (case parse_cron_field psc temp (Some f) type fi error of (ok, temp', error') \<Rightarrow>
        if \<not> ok then (False, temp', error') else fields_chain psc temp' fs error')"

definition parse_with_error ::
  "strcasecmp \<Rightarrow> string option \<Rightarrow> CronParseError option \<Rightarrow> CronSchedule option \<times> CronParseError option"
where
  "parse_with_error psc command error =
     (let error = clear_parse_error error in
      case command of
        None \<Rightarrow> (None, set_parse_error error 0 0 None ''schedule is empty'')
      | Some cmd \<Rightarrow>
        if cmd = [] then (None, set_parse_error error 0 0 None ''schedule is empty'')
        else (case str_split command CHR '' '' of
           None \<Rightarrow> (None, set_parse_error error 0 0 None ''expected 5 cron fields or \"N seconds\"'')
         | Some flds \<Rightarrow>
          let countFields = charArrayLength (Some flds) in
          if countFields = 2 \<and> strcasecmp_eq (flds ! 1) ''seconds'' then
            (case parse_integer (Some (flds ! 0)) of
               None \<Rightarrow> (None, set_parse_error error 1 1 (Some (flds ! 0)) ''seconds interval must be 1-59'')
             | Some seconds \<Rightarrow>
                 if seconds < 1 \<or> 59 < seconds then
                   (None, set_parse_error error 1 1 (Some (flds ! 0)) ''seconds interval must be 1-59'')
                 else (Some (empty_schedule\<lparr> SECONDS := True, secondsInterval := seconds \<rparr>), error))
          else if countFields \<noteq> 5 then
            (None, set_parse_error error 0 0 None ''expected 5 cron fields or \"N seconds\"'')
          else
            (case fields_chain psc empty_schedule
                [(flds ! 0, CRON_MINUTE, 1), (flds ! 1, CRON_HOUR, 2), (flds ! 2, CRON_DOM, 3),
                 (flds ! 3, CRON_M, 4), (flds ! 4, CRON_DOW, 5)] error of
               (ok, temp, error') \<Rightarrow> (if ok then Some temp else None, error'))))"

definition parse :: "strcasecmp \<Rightarrow> string option \<Rightarrow> CronSchedule option" where
  "parse psc command = fst (parse_with_error psc command None)"

end
