(* ===== verification/Parser_Spec.thy ===== *)
theory Parser_Spec
  imports Parser_Field
begin

text \<open>
  An abstract specification of the schedule language: the items of a field as a datatype, the set
  of values each stands for, a reader from strings to this syntax, and the schedule a syntax tree
  denotes. The operations of the parser are then shown to compute exactly this denotation.
\<close>

section \<open>Abstract syntax and its meaning\<close>

datatype cron_item =
  ItStar | ItLast | ItEvery int | ItRange int int | ItRangeEvery int int int | ItSingle int

datatype cron_ast =
  AstSeconds int
| AstFields "cron_item list" "cron_item list" "cron_item list" "cron_item list" "cron_item list"

definition lower :: "FieldType \<Rightarrow> int" where
  "lower type = fst (get_bounds type)"

definition upper :: "FieldType \<Rightarrow> int" where
  "upper type = snd (get_bounds type)"

definition progression :: "int \<Rightarrow> int \<Rightarrow> int \<Rightarrow> int set" where
  "progression a b n = {v. a \<le> v \<and> v \<le> b \<and> n dvd (v - a)}"

definition last_of :: "int \<Rightarrow> int \<Rightarrow> int \<Rightarrow> int" where
  "last_of a b n = a + n * ((b - a) div n)"

text \<open>
  What the code accepts as a stepped range: the values that are actually reached lie in the field's
  bounds, and the addition that leaves the range does not overflow.
\<close>

definition prog_ok :: "FieldType \<Rightarrow> int \<Rightarrow> int \<Rightarrow> int \<Rightarrow> bool" where
  "prog_ok type a b n =
     (0 < n \<and> a \<le> b \<and> lower type \<le> a \<and> last_of a b n \<le> upper type \<and> last_of a b n + n \<le> INT_MAX)"

fun item_valid :: "FieldType \<Rightarrow> cron_item \<Rightarrow> bool" where
  "item_valid type ItStar = True"
| "item_valid type ItLast = (type = CRON_DOM)"
| "item_valid type (ItEvery n) = prog_ok type (lower type) (upper type) n"
| "item_valid type (ItRange a b) = prog_ok type a b 1"
| "item_valid type (ItRangeEvery a b n) = prog_ok type a b n"
| "item_valid type (ItSingle v) = (lower type \<le> v \<and> v \<le> upper type)"

fun item_values :: "FieldType \<Rightarrow> cron_item \<Rightarrow> int set" where
  "item_values type ItStar = progression (lower type) (upper type) 1"
| "item_values type ItLast = {}"
| "item_values type (ItEvery n) = progression (lower type) (upper type) n"
| "item_values type (ItRange a b) = progression a b 1"
| "item_values type (ItRangeEvery a b n) = progression a b n"
| "item_values type (ItSingle v) = {v}"

text \<open>Day 7 of the week is day 0.\<close>

definition norm_value :: "FieldType \<Rightarrow> int \<Rightarrow> int" where
  "norm_value type v = (if type = CRON_DOW \<and> v = 7 then 0 else v)"

definition mark :: "bool list \<Rightarrow> int set \<Rightarrow> bool list" where
  "mark xs V = map (\<lambda>i. xs ! i \<or> int i \<in> V) [0..<length xs]"

fun add_values :: "FieldType \<Rightarrow> int set \<Rightarrow> CronSchedule \<Rightarrow> CronSchedule" where
  "add_values CRON_MINUTE V s = s\<lparr> minute := mark (minute s) V \<rparr>"
| "add_values CRON_HOUR V s = s\<lparr> hour := mark (hour s) V \<rparr>"
| "add_values CRON_DOM V s = s\<lparr> dayOfMonth := mark (dayOfMonth s) V \<rparr>"
| "add_values CRON_M V s = s\<lparr> month := mark (month s) V \<rparr>"
| "add_values CRON_DOW V s = s\<lparr> dayOfWeek := mark (dayOfWeek s) V \<rparr>"

fun denote_item :: "FieldType \<Rightarrow> cron_item \<Rightarrow> CronSchedule \<Rightarrow> CronSchedule" where
  "denote_item type ItLast s = s\<lparr> LAST_DOM := True \<rparr>"
| "denote_item type ItStar s =
     mark_star_field (add_values type (norm_value type ` item_values type ItStar) s) type"
| "denote_item type it s = add_values type (norm_value type ` item_values type it) s"

fun denote :: "cron_ast \<Rightarrow> CronSchedule" where
  "denote (AstSeconds n) = empty_schedule\<lparr> SECONDS := True, secondsInterval := n \<rparr>"
| "denote (AstFields ms hs ds mos ws) =
     fold (denote_item CRON_DOW) ws (fold (denote_item CRON_M) mos (fold (denote_item CRON_DOM) ds
       (fold (denote_item CRON_HOUR) hs (fold (denote_item CRON_MINUTE) ms empty_schedule))))"

fun ast_valid :: "cron_ast \<Rightarrow> bool" where
  "ast_valid (AstSeconds n) = (1 \<le> n \<and> n \<le> 59)"
| "ast_valid (AstFields ms hs ds mos ws) =
     (list_all (item_valid CRON_MINUTE) ms \<and> list_all (item_valid CRON_HOUR) hs
      \<and> list_all (item_valid CRON_DOM) ds \<and> list_all (item_valid CRON_M) mos
      \<and> list_all (item_valid CRON_DOW) ws)"

section \<open>Reading the syntax\<close>

definition read_bounds :: "strcasecmp \<Rightarrow> FieldType \<Rightarrow> string \<Rightarrow> (int \<times> int) option" where
  "read_bounds psc type s =
     (case split_loop [] s CHR ''-'' of
        [a, b] \<Rightarrow>
          if a = [] \<or> b = [] then None
          else (case parse_field_value psc type a of None \<Rightarrow> None
            | Some x \<Rightarrow>
                if type = CRON_DOM \<and> b = ''$'' then Some (x, 31)
                else map_option (Pair x) (parse_field_value psc type b))
      | _ \<Rightarrow> None)"

definition read_item :: "strcasecmp \<Rightarrow> FieldType \<Rightarrow> string \<Rightarrow> cron_item option" where
  "read_item psc type s =
     (if s = [] then None
      else if s = ''$'' then (if type = CRON_DOM then Some ItLast else None)
      else if s = ''*'' then Some ItStar
      else (case split_loop [] s CHR ''/'' of
          [_] \<Rightarrow>
            if CHR ''-'' \<in> set s then map_option (\<lambda>(a, b). ItRange a b) (read_bounds psc type s)
            else map_option ItSingle (parse_field_value psc type s)
        | [base, st] \<Rightarrow>
            if base = [] \<or> st = [] then None
            else (case parse_integer (Some st) of None \<Rightarrow> None
              | Some n \<Rightarrow>
                  if n \<le> 0 then None
                  else if base = ''*'' \<or> type = CRON_DOM \<and> base = ''$'' then Some (ItEvery n)
                  else map_option (\<lambda>(a, b). ItRangeEvery a b n) (read_bounds psc type base))
        | _ \<Rightarrow> None))"

definition read_field :: "strcasecmp \<Rightarrow> FieldType \<Rightarrow> string \<Rightarrow> cron_item list option" where
  "read_field psc type s = those (map (read_item psc type) (split_loop [] s CHR '',''))"

definition read_schedule :: "strcasecmp \<Rightarrow> string \<Rightarrow> cron_ast option" where
  "read_schedule psc cmd =
     (case split_loop [] cmd CHR '' '' of
        [n, u] \<Rightarrow>
          if strcasecmp_eq u ''seconds'' then map_option AstSeconds (parse_integer (Some n)) else None
      | [f1, f2, f3, f4, f5] \<Rightarrow>
          (case (read_field psc CRON_MINUTE f1, read_field psc CRON_HOUR f2, read_field psc CRON_DOM f3,
                 read_field psc CRON_M f4, read_field psc CRON_DOW f5) of
             (Some ms, Some hs, Some ds, Some mos, Some ws) \<Rightarrow> Some (AstFields ms hs ds mos ws)
           | _ \<Rightarrow> None)
      | _ \<Rightarrow> None)"

section \<open>Marking bits\<close>

lemma length_mark [simp]: "length (mark xs V) = length xs"
  by (simp add: mark_def)

lemma nth_mark: "i < length xs \<Longrightarrow> mark xs V ! i \<longleftrightarrow> xs ! i \<or> int i \<in> V"
  by (simp add: mark_def)

lemma mark_mark [simp]: "mark (mark xs V) W = mark xs (V \<union> W)"
  by (rule nth_equalityI) (auto simp: nth_mark)

lemma mark_update:
  assumes "0 \<le> v"
  shows "xs[nat v := True] = mark xs {v}"
proof (rule nth_equalityI)
  fix i
  assume "i < length (xs[nat v := True])"
  with assms show "xs[nat v := True] ! i = mark xs {v} ! i"
    by (cases "nat v = i") (auto simp: nth_mark)
qed simp

lemma add_values_add_values: "add_values type W (add_values type V s) = add_values type (V \<union> W) s"
  by (cases type) auto

lemma field_array_add_values: "field_array type (add_values type V s) = mark (field_array type s) V"
  by (cases type) auto

lemma sched_wf_add_values [simp]: "sched_wf (add_values type V s) = sched_wf s"
  by (cases type) (simp_all add: sched_wf_def)

lemma sched_wf_mark_star [simp]: "sched_wf (mark_star_field s type) = sched_wf s"
  by (cases type) (simp_all add: sched_wf_def)

lemma sched_wf_denote_item: "sched_wf (denote_item type it s) = sched_wf s"
  by (cases it) (simp_all, simp add: sched_wf_def)

section \<open>One value, one range\<close>

lemma set_field_value_spec:
  "set_field_value s type v fi ti tok e =
     (if lower type \<le> v \<and> v \<le> upper type
      then (True, add_values type {norm_value type v} s, e)
      else (False, s, snd (snd (set_field_value s type v fi ti tok e))))"
  by (cases type)
     (auto simp: set_field_value_def Let_def lower_def upper_def norm_value_def mark_update)

lemma set_field_value_if:
  "if lower type \<le> v \<and> v \<le> upper type
   then set_field_value s type v fi ti tok e = (True, add_values type {norm_value type v} s, e)
   else \<not> fst (set_field_value s type v fi ti tok e)"
  by (cases type)
     (auto simp: set_field_value_def Let_def lower_def upper_def norm_value_def mark_update)

lemma lower_nonneg: "0 \<le> lower type" "upper type \<le> 59" "lower type \<le> upper type"
  by (cases type; simp add: lower_def upper_def)+

lemma last_of_ge: "0 < n \<Longrightarrow> a \<le> b \<Longrightarrow> a \<le> last_of a b n"
  by (simp add: last_of_def pos_imp_zdiv_nonneg_iff)

lemma last_of_step: "0 < n \<Longrightarrow> last_of (a + n) b n = last_of a b n"
proof -
  assume n: "0 < n"
  have "(b - (a + n)) div n = (b - a + (- 1) * n) div n" by (simp add: algebra_simps)
  also have "\<dots> = (b - a) div n - 1" using n by (subst div_mult_self1) auto
  finally have "n * ((b - (a + n)) div n) = n * ((b - a) div n - 1)" by simp
  also have "\<dots> = n * ((b - a) div n) - n" by (simp add: right_diff_distrib)
  finally show ?thesis by (simp add: last_of_def)
qed

lemma last_of_single: "0 < n \<Longrightarrow> a \<le> b \<Longrightarrow> b < a + n \<Longrightarrow> last_of a b n = a"
  by (simp add: last_of_def div_pos_pos_trivial)

lemma progression_single: "0 < n \<Longrightarrow> a \<le> b \<Longrightarrow> b < a + n \<Longrightarrow> progression a b n = {a}"
  by (auto simp: progression_def dest: zdvd_imp_le)

lemma progression_step:
  assumes n: "0 < n" and ab: "a \<le> b"
  shows "progression a b n = insert a (progression (a + n) b n)"
proof (rule set_eqI)
  fix v
  have "a \<le> v \<and> n dvd (v - a) \<longleftrightarrow> v = a \<or> a + n \<le> v \<and> n dvd (v - (a + n))"
  proof -
    have "n dvd (v - (a + n)) \<longleftrightarrow> n dvd (v - a)"
      using dvd_diff_right_iff [of n n "v - a"] by (simp add: dvd_diff_commute diff_diff_eq [symmetric])
    moreover have "a < v \<and> n dvd (v - a) \<Longrightarrow> a + n \<le> v"
      using zdvd_imp_le [of n "v - a"] by simp
    ultimately show ?thesis using n by auto
  qed
  with ab show "v \<in> progression a b n \<longleftrightarrow> v \<in> insert a (progression (a + n) b n)"
    by (auto simp: progression_def)
qed

lemma range_loop_spec:
  assumes "v \<le> finish" and "0 < step" and "is_int step"
  shows "if prog_ok type v finish step
     then range_loop s type v finish step fi ti tok e
            = (True, add_values type (norm_value type ` progression v finish step) s, e)
     else \<not> fst (range_loop s type v finish step fi ti tok e)"
  using assms
proof (induction s type v finish step fi ti tok e rule: range_loop.induct)
  case (1 s type v finish step fi ti tok e)
  note prems = "1.prems"
  have step: "step \<le> 2147483647" using prems by (simp add: is_int_def cdefs)
  let ?run = "range_loop s type v finish step fi ti tok e"
  show ?case
  proof (cases "lower type \<le> v \<and> v \<le> upper type")
    case False
    then have "\<not> prog_ok type v finish step"
      using last_of_ge [of step v finish] prems by (auto simp: prog_ok_def)
    moreover have "\<not> fst ?run"
      using prems False by (subst range_loop.simps, subst set_field_value_spec) auto
    ultimately show ?thesis by simp
  next
    case True
    define s1 where "s1 = add_values type {norm_value type v} s"
    have sfv: "set_field_value s type v fi ti tok e = (True, s1, e)"
      using True by (subst set_field_value_spec) (simp add: s1_def)
    have run: "?run = range_loop s1 type (int32 (v + step)) finish step fi ti tok e"
      using prems by (subst range_loop.simps) (simp add: sfv)
    have v: "0 \<le> v" "v \<le> 59" using True lower_nonneg [of type] by auto
    show ?thesis
    proof (cases "v + step < 2147483648")
      case False
      then have wrap: "int32 (v + step) = v + step - 4294967296"
        using v step by (intro int32_above) auto
      have "\<not> fst (range_loop s1 type (int32 (v + step)) finish step fi ti tok e)"
        using prems v step wrap lower_nonneg [of type]
        by (subst range_loop.simps, subst set_field_value_spec) auto
      moreover have "\<not> prog_ok type v finish step"
        using False last_of_ge [of step v finish] prems by (auto simp: prog_ok_def cdefs)
      ultimately show ?thesis by (simp add: run)
    next
      case noov: True
      then have nx: "int32 (v + step) = v + step" using v prems by simp
      show ?thesis
      proof (cases "v + step \<le> finish")
        case True
        have "prog_ok type (v + step) finish step \<longleftrightarrow> prog_ok type v finish step"
          using \<open>lower type \<le> v \<and> v \<le> upper type\<close> True prems
          by (auto simp: prog_ok_def last_of_step)
        moreover have "progression v finish step = insert v (progression (v + step) finish step)"
          using prems by (intro progression_step) auto
        moreover have "if prog_ok type (int32 (v + step)) finish step
           then range_loop s1 type (int32 (v + step)) finish step fi ti tok e
             = (True, add_values type (norm_value type ` progression (int32 (v + step)) finish step) s1, e)
           else \<not> fst (range_loop s1 type (int32 (v + step)) finish step fi ti tok e)"
          using "1.IH" [of True "(s1, e)" s1 e] prems sfv nx True by simp
        ultimately show ?thesis by (simp add: run nx s1_def add_values_add_values split: if_splits)
      next
        case False
        then have "prog_ok type v finish step"
          using \<open>lower type \<le> v \<and> v \<le> upper type\<close> prems noov
          by (simp add: prog_ok_def last_of_single cdefs)
        moreover have "range_loop s1 type (v + step) finish step fi ti tok e = (True, s1, e)"
          using False by (subst range_loop.simps) simp
        ultimately show ?thesis
          using False prems by (simp add: run nx s1_def progression_single)
      qed
    qed
  qed
qed


section \<open>Items, fields, schedules\<close>

lemma set_field_range_spec:
  assumes "0 < step" and "is_int step"
  shows "if prog_ok type a b step
     then set_field_range s type a b step fi ti tok e
            = (True, add_values type (norm_value type ` progression a b step) s, e)
     else \<not> fst (set_field_range s type a b step fi ti tok e)"
proof (cases "a \<le> b")
  case True
  with range_loop_spec [OF True assms, of type s fi ti tok e] assms show ?thesis
    by (simp add: set_field_range_def)
next
  case False
  with assms show ?thesis by (simp add: set_field_range_def prog_ok_def)
qed

lemma is_int_1 [simp]: "is_int 1"
  by (simp add: is_int_def cdefs)

lemma parse_integer_is_int: "parse_integer s = Some n \<Longrightarrow> is_int n"
  by (drule parse_integer_range) (simp add: is_int_def cdefs)

lemma prog_ok_full [simp]: "prog_ok type (lower type) (upper type) 1"
  using lower_nonneg [of type] by (simp add: prog_ok_def last_of_def cdefs)

lemma count_delims_0: "count_delims s d = 0 \<longleftrightarrow> d \<notin> set s"
  by (induction s d rule: count_delims.induct) auto

lemma split_loop_single: "split_loop [] s d = [y] \<longleftrightarrow> d \<notin> set s \<and> y = s"
proof
  assume l: "split_loop [] s d = [y]"
  then have "Suc (count_delims s d) = 1"
    using length_split_loop [of "[]" s d] by simp
  with l show "d \<notin> set s \<and> y = s"
    by (auto simp: count_delims_0 split_loop_no_delim)
qed (simp add: split_loop_no_delim)

lemma parse_range_read: "parse_range psc (Some s) type = read_bounds psc type s"
proof (cases "\<exists>a b. split_loop [] s CHR ''-'' = [a, b]")
  case True
  then obtain a b where "split_loop [] s CHR ''-'' = [a, b]" by blast
  then show ?thesis
    by (auto simp: parse_range_def read_bounds_def parser_simps split: option.split)
next
  case False
  then have "length (split_loop [] s CHR ''-'') \<noteq> 2" by (simp add: length_eq_2)
  with False show ?thesis
    by (auto simp: parse_range_def read_bounds_def parser_simps split: option.split list.split)
qed

text \<open>What one item of a field must do, stated on its reading.\<close>

definition item_result ::
  "strcasecmp \<Rightarrow> CronSchedule \<Rightarrow> string \<Rightarrow> FieldType \<Rightarrow> CronParseError option \<Rightarrow> parse_result \<Rightarrow> bool" where
  "item_result psc s x type e r =
     (case read_item psc type x of
        None \<Rightarrow> \<not> fst r
      | Some it \<Rightarrow> if item_valid type it then r = (True, denote_item type it s, e) else \<not> fst r)"

lemma get_bounds_lu: "get_bounds type = (lower type, upper type)"
  by (simp add: lower_def upper_def)

lemma read_item_single:
  "CHR ''/'' \<notin> set x \<Longrightarrow> x \<noteq> [] \<Longrightarrow> x \<noteq> ''$'' \<Longrightarrow> x \<noteq> ''*'' \<Longrightarrow>
     read_item psc type x =
       (if CHR ''-'' \<in> set x then map_option (\<lambda>(a, b). ItRange a b) (read_bounds psc type x)
        else map_option ItSingle (parse_field_value psc type x))"
  by (simp add: read_item_def split_loop_no_delim)

lemma read_bounds_no_dash: "CHR ''-'' \<notin> set x \<Longrightarrow> read_bounds psc type x = None"
  by (simp add: read_bounds_def split_loop_no_delim)

lemma parse_item_plain:
  assumes "CHR ''/'' \<notin> set x" and "x \<noteq> []" and "x \<noteq> ''$''" and "x \<noteq> ''*''"
  shows "item_result psc s x type e (parse_field_item psc s (Some x) type fi ti e)"
proof (cases "CHR ''-'' \<in> set x")
  case True
  show ?thesis
  proof (cases "read_bounds psc type x")
    case None
    with True assms show ?thesis
      by (simp add: item_result_def read_item_single parse_field_item_def parser_simps cdefs
          parse_range_read get_bounds_lu)
  next
    case (Some ab)
    obtain a b where ab: "ab = (a, b)" by (cases ab)
    from set_field_range_spec [of 1 type a b s fi ti "Some x" e] True assms Some ab show ?thesis
      by (simp add: item_result_def read_item_single parse_field_item_def parser_simps cdefs
          parse_range_read get_bounds_lu split: if_splits)
  qed
next
  case False
  show ?thesis
  proof (cases "parse_field_value psc type x")
    case None
    with False assms show ?thesis
      by (simp add: item_result_def read_item_single parse_field_item_def parser_simps cdefs
          get_bounds_lu)
  next
    case (Some v)
    from False assms Some set_field_value_if [of type v s fi ti "Some x" e] show ?thesis
      by (simp split: if_splits add: item_result_def read_item_single parse_field_item_def parser_simps cdefs
          get_bounds_lu)
  qed
qed

lemma parse_item_step:
  assumes "CHR ''/'' \<in> set x"
  shows "item_result psc s x type e (parse_field_item psc s (Some x) type fi ti e)"
proof (cases "\<exists>a b. split_loop [] x CHR ''/'' = [a, b]")
  case False
  then have l: "length (split_loop [] x CHR ''/'') \<noteq> 2" by (simp add: length_eq_2)
  have "read_item psc type x = None"
    using False assms split_loop_single [of x "CHR ''/''"]
    by (auto simp: read_item_def split: list.split)
  moreover have "\<not> fst (parse_field_item psc s (Some x) type fi ti e)"
    using l assms by (auto simp: parse_field_item_def parser_simps cdefs get_bounds_lu)
  ultimately show ?thesis by (simp add: item_result_def)
next
  case True
  then obtain a b where ab: "split_loop [] x CHR ''/'' = [a, b]" by blast
  from assms have x: "x \<noteq> []" "x \<noteq> ''$''" "x \<noteq> ''*''" by auto
  show ?thesis
  proof (cases "a = [] \<or> b = [] \<or> parse_integer (Some b) = None \<or> the (parse_integer (Some b)) \<le> 0")
    case True
    with ab assms x show ?thesis
      by (auto simp: item_result_def read_item_def parse_field_item_def parser_simps cdefs
          get_bounds_lu simp del: parse_integer_digits split: option.split)
  next
    case False
    then obtain n where n: "parse_integer (Some b) = Some n" "0 < n" and ne: "a \<noteq> []" "b \<noteq> []"
      by auto
    note range = set_field_range_spec [OF n(2) parse_integer_is_int [OF n(1)], of type _ _ s fi ti "Some x" e]
    show ?thesis
    proof (cases "a = ''*'' \<or> type = CRON_DOM \<and> a = ''$''")
      case True
      then show ?thesis
        using ab assms x n ne range [of "lower type" "upper type"]
        by (auto simp: item_result_def read_item_def parse_field_item_def isStar_iff
            is_last_dom_token_iff str_split_Some has_empty_part_parts charArrayLength_Some cdefs
            get_bounds_lu)
    next
      case False
      show ?thesis
      proof (cases "read_bounds psc type a")
        case None
        with False show ?thesis
          using ab assms x n ne
          by (auto simp: item_result_def read_item_def parse_field_item_def isStar_iff parse_range_read
              is_last_dom_token_iff str_split_Some has_empty_part_parts charArrayLength_Some cdefs
              get_bounds_lu)
      next
        case (Some lh)
        moreover obtain lo hi where "lh = (lo, hi)" by (cases lh)
        moreover have "CHR ''-'' \<in> set a" using Some read_bounds_no_dash [of a psc type] by auto
        ultimately show ?thesis
          using False ab assms x n ne range [of lo hi]
          by (auto simp: item_result_def read_item_def parse_field_item_def isStar_iff parse_range_read
              is_last_dom_token_iff str_split_Some has_empty_part_parts charArrayLength_Some cdefs
              get_bounds_lu)
      qed
    qed
  qed
qed

lemma parse_field_item_spec:
  "item_result psc s x type e (parse_field_item psc s (Some x) type fi ti e)"
proof -
  consider "x = []" | "x = ''$''" | "x = ''*''" | "CHR ''/'' \<in> set x"
    | "CHR ''/'' \<notin> set x" "x \<noteq> []" "x \<noteq> ''$''" "x \<noteq> ''*''" by blast
  then show ?thesis
  proof cases
    case 3
    then show ?thesis
      using set_field_range_spec [of 1 type "lower type" "upper type" s fi ti "Some ''*''" e]
      by (simp add: item_result_def read_item_def parse_field_item_def parser_simps get_bounds_lu)
  next
    case 4
    then show ?thesis by (rule parse_item_step)
  next
    case 5
    then show ?thesis by (rule parse_item_plain)
  qed (simp_all add: item_result_def read_item_def parse_field_item_def parser_simps get_bounds_lu)
qed

text \<open>What a run over a list of items must do, from the reading of the list.\<close>

definition list_result ::
  "CronSchedule \<Rightarrow> FieldType \<Rightarrow> cron_item list option \<Rightarrow> CronParseError option \<Rightarrow> parse_result \<Rightarrow> bool" where
  "list_result s type its e r =
     (case its of
        None \<Rightarrow> \<not> fst r
      | Some its \<Rightarrow>
          if list_all (item_valid type) its then r = (True, fold (denote_item type) its s, e)
          else \<not> fst r)"

lemma items_loop_spec:
  "list_result s type (those (map (read_item psc type) xs)) e (items_loop psc s xs type fi i e)"
proof (induction xs arbitrary: s i e)
  case Nil
  show ?case by (simp add: list_result_def)
next
  case (Cons x xs)
  obtain ok s' e' where p: "parse_field_item psc s (Some x) type fi (i + 1) e = (ok, s', e')"
    by (metis prod_cases3)
  have item: "item_result psc s x type e (ok, s', e')"
    using parse_field_item_spec [of psc s x type e fi "i + 1"] p by simp
  show ?case
  proof (cases ok)
    case False
    with item p show ?thesis
      by (auto simp: item_result_def list_result_def split: option.splits if_splits)
  next
    case True
    with item obtain it where it: "read_item psc type x = Some it" "item_valid type it"
      "s' = denote_item type it s" "e' = e"
      by (auto simp: item_result_def split: option.splits if_splits)
    with Cons.IH [of s' e "i + 1"] True p show ?thesis
      by (auto simp: list_result_def split: option.splits if_splits)
  qed
qed

lemma those_Nil_item: "[] \<in> set xs \<Longrightarrow> those (map (read_item psc type) xs) = None"
  by (induction xs) (auto simp: read_item_def split: option.split)

lemma parse_cron_field_spec:
  "list_result s type (read_field psc type f) e (parse_cron_field psc s (Some f) type fi e)"
  using items_loop_spec [of s type psc "split_loop [] f CHR '',''" e fi 0]
  by (auto simp: parse_cron_field_def read_field_def parser_simps those_Nil_item list_result_def
      split: option.split)

lemma parse_cron_field_cases:
  obtains (ok) its where "read_field psc type f = Some its" "list_all (item_valid type) its"
    "parse_cron_field psc s (Some f) type fi e = (True, fold (denote_item type) its s, e)"
  | (bad) s' e' where "\<And>its. read_field psc type f = Some its \<Longrightarrow> \<not> list_all (item_valid type) its"
    "parse_cron_field psc s (Some f) type fi e = (False, s', e')"
proof -
  obtain b s' e' where r: "parse_cron_field psc s (Some f) type fi e = (b, s', e')"
    by (metis prod_cases3)
  with parse_cron_field_spec [of s type psc f e fi] that show thesis
    by (cases b) (auto simp: list_result_def split: option.splits if_splits)
qed

lemma fields_chain_spec:
  "\<exists>ok t e'. fields_chain psc s fs e = (ok, t, e')
     \<and> ok = list_all (\<lambda>(f, type, fi). \<exists>its. read_field psc type f = Some its \<and> list_all (item_valid type) its) fs
     \<and> (ok \<longrightarrow> e' = e
        \<and> t = fold (\<lambda>(f, type, fi). fold (denote_item type) (the (read_field psc type f))) fs s)"
proof (induction fs arbitrary: s)
  case Nil
  show ?case by auto
next
  case (Cons x fs)
  obtain f type fi where x: "x = (f, type, fi)" by (cases x)
  show ?case
  proof (cases rule: parse_cron_field_cases [of psc type f s fi e])
    case (ok its)
    with Cons.IH [of "fold (denote_item type) its s"] show ?thesis by (auto simp: x)
  next
    case (bad s' e')
    then show ?thesis by (auto simp: x)
  qed
qed

lemma read_schedule_fields:
  "split_loop [] cmd CHR '' '' = [f1, f2, f3, f4, f5] \<Longrightarrow>
     (case read_schedule psc cmd of None \<Rightarrow> None | Some ast \<Rightarrow> if ast_valid ast then Some (denote ast) else None)
     = (if list_all (\<lambda>(f, type, fi). \<exists>its. read_field psc type f = Some its \<and> list_all (item_valid type) its)
             [(f1, CRON_MINUTE, 1 :: int), (f2, CRON_HOUR, 2), (f3, CRON_DOM, 3), (f4, CRON_M, 4), (f5, CRON_DOW, 5)]
        then Some (fold (\<lambda>(f, type, fi). fold (denote_item type) (the (read_field psc type f)))
             [(f1, CRON_MINUTE, 1 :: int), (f2, CRON_HOUR, 2), (f3, CRON_DOM, 3), (f4, CRON_M, 4), (f5, CRON_DOW, 5)]
             empty_schedule)
        else None)"
  by (auto simp: read_schedule_def split: option.split)

lemma parse_with_error_spec:
  "fst (parse_with_error psc (Some cmd) error) =
     (case read_schedule psc cmd of
        None \<Rightarrow> None
      | Some ast \<Rightarrow> if ast_valid ast then Some (denote ast) else None)"
proof -
  let ?fs = "split_loop [] cmd CHR '' ''"
  consider (two) n u where "?fs = [n, u]" | (five) f1 f2 f3 f4 f5 where "?fs = [f1, f2, f3, f4, f5]"
    | (other) "length ?fs \<noteq> 2" "length ?fs \<noteq> 5"
    using length_eq_2 [of ?fs] length_eq_5 [of ?fs] by blast
  then show ?thesis
  proof cases
    case two
    then have "cmd \<noteq> []" by auto
    with two show ?thesis
      by (auto simp: parse_with_error_def read_schedule_def Let_def str_split_Some charArrayLength_Some
          split: option.split)
  next
    case five
    then have ne: "cmd \<noteq> []" by auto
    let ?l = "[(f1, CRON_MINUTE, 1 :: int), (f2, CRON_HOUR, 2), (f3, CRON_DOM, 3), (f4, CRON_M, 4), (f5, CRON_DOW, 5)]"
    obtain ok t e' where c: "fields_chain psc empty_schedule ?l (clear_parse_error error) = (ok, t, e')"
      "ok = list_all (\<lambda>(f, type, fi). \<exists>its. read_field psc type f = Some its \<and> list_all (item_valid type) its) ?l"
      "ok \<longrightarrow> t = fold (\<lambda>(f, type, fi). fold (denote_item type) (the (read_field psc type f))) ?l empty_schedule"
      using fields_chain_spec [of psc empty_schedule ?l "clear_parse_error error"] by blast
    have "fst (parse_with_error psc (Some cmd) error) = (if ok then Some t else None)"
      using five ne c(1) by (simp add: parse_with_error_def Let_def str_split_Some charArrayLength_Some)
    with c(2,3) show ?thesis unfolding read_schedule_fields [OF five] by simp
  next
    case other
    then have "read_schedule psc cmd = None"
      by (auto simp: read_schedule_def split: list.split)
    moreover have "fst (parse_with_error psc (Some cmd) error) = None"
      using other by (auto simp: parse_with_error_def Let_def str_split_Some charArrayLength_Some)
    ultimately show ?thesis by simp
  qed
qed

text \<open>
  C3: the parser refines the abstract schedule language. For every command string, parse_with_error
  (src/cron_parser.c), with or without an error record, accepts exactly the strings that read as a
  valid syntax tree, and the CronSchedule it returns is the denotation of that tree: the bits of
  every array, the star flags, LAST_DOM and the seconds interval, and nothing else.
\<close>

theorem parse_refines_spec:
  "fst (parse_with_error psc (Some cmd) error) =
     (case read_schedule psc cmd of
        None \<Rightarrow> None
      | Some ast \<Rightarrow> if ast_valid ast then Some (denote ast) else None)
   \<and> parse psc (Some cmd) = fst (parse_with_error psc (Some cmd) error)"
  by (simp add: parse_def parse_with_error_spec)

end
