(* ===== verification/Parser_Props.thy ===== *)
theory Parser_Props
  imports Parser_Spec
begin

text \<open>
  Consequences of the refinement of the parser: which bits a parsed schedule has, that every
  schedule the language can express is read back from its printed form, that failures name the
  first wrong field, that every array store is in range, and how names are read.
\<close>

section \<open>Bits and flags of a denotation\<close>

lemma field_bit_mark:
  "0 \<le> v \<and> v < int (length (field_array type s)) \<Longrightarrow>
     field_bit type (add_values type V s) v \<longleftrightarrow> field_bit type s v \<or> v \<in> V"
  by (auto simp: field_bit_def field_array_add_values nth_mark nat_less_iff)

lemma field_array_mark_star [simp]: "field_array t (mark_star_field s type) = field_array t s"
  by (cases type; cases t) simp_all

lemma field_array_add_other: "t \<noteq> type \<Longrightarrow> field_array t (add_values type V s) = field_array t s"
  by (cases type; cases t) simp_all

lemma field_array_last [simp]: "field_array t (s\<lparr> LAST_DOM := True \<rparr>) = field_array t s"
  by (cases t) simp_all

lemma field_array_denote_item:
  "field_array t (denote_item type it s) =
     (if t = type then mark (field_array t s) (norm_value type ` item_values type it) else field_array t s)"
proof (cases "t = type")
  case True
  have "mark xs {} = xs" for xs by (rule nth_equalityI) (auto simp: nth_mark)
  with True show ?thesis by (cases it) (simp_all add: field_array_add_values)
next
  case False
  then show ?thesis by (cases it) (simp_all add: field_array_add_other)
qed

lemma field_array_fold:
  "field_array t (fold (denote_item type) its s) =
     (if t = type then mark (field_array t s) (\<Union>it \<in> set its. norm_value type ` item_values type it)
      else field_array t s)"
proof (induction its arbitrary: s)
  case Nil
  have "mark xs {} = xs" for xs by (rule nth_equalityI) (auto simp: nth_mark)
  then show ?case by simp
next
  case (Cons it its)
  then show ?case by (simp add: field_array_denote_item)
qed

fun items_of :: "FieldType \<Rightarrow> cron_ast \<Rightarrow> cron_item list" where
  "items_of type (AstSeconds n) = []"
| "items_of CRON_MINUTE (AstFields ms hs ds mos ws) = ms"
| "items_of CRON_HOUR (AstFields ms hs ds mos ws) = hs"
| "items_of CRON_DOM (AstFields ms hs ds mos ws) = ds"
| "items_of CRON_M (AstFields ms hs ds mos ws) = mos"
| "items_of CRON_DOW (AstFields ms hs ds mos ws) = ws"

lemma field_array_denote:
  "field_array t (denote ast) =
     mark (field_array t empty_schedule) (\<Union>it \<in> set (items_of t ast). norm_value t ` item_values t it)"
proof (cases ast)
  case (AstSeconds n)
  have "mark xs {} = xs" for xs by (rule nth_equalityI) (auto simp: nth_mark)
  then show ?thesis by (cases t) (simp_all add: AstSeconds)
next
  case (AstFields ms hs ds mos ws)
  then show ?thesis by (cases t) (simp_all add: field_array_fold)
qed

lemma length_field_array_empty: "length (field_array t empty_schedule) \<le> 60"
  by (cases t) (simp_all add: empty_schedule_def)

lemma upper_less_length:
  "0 \<le> norm_value t v \<and> norm_value t v < int (length (field_array t empty_schedule))"
  if "lower t \<le> v" "v \<le> upper t"
  using that by (cases t) (auto simp: lower_def upper_def norm_value_def empty_schedule_def)

lemma progression_in_bounds:
  assumes "prog_ok t a b n" and "v \<in> progression a b n"
  shows "lower t \<le> v \<and> v \<le> upper t"
proof -
  obtain k where v: "v = a + n * k" "a \<le> v" "v \<le> b" "0 < n"
    using assms by (auto simp: progression_def prog_ok_def dvd_def) (metis add.commute diff_add_cancel)
  then have "k \<le> (b - a) div n"
    by (metis add_le_cancel_left add_diff_cancel_left' diff_mono mult.commute nonzero_mult_div_cancel_right
        order_less_irrefl zdiv_mono1 order_refl)
  then have "v \<le> last_of a b n" using v by (simp add: last_of_def)
  with assms v show ?thesis by (simp add: prog_ok_def)
qed

lemma item_values_in_bounds:
  "item_valid t it \<Longrightarrow> v \<in> item_values t it \<Longrightarrow> lower t \<le> v \<and> v \<le> upper t"
  by (cases it) (auto dest: progression_in_bounds progression_in_bounds [OF prog_ok_full])

lemma field_bit_denote:
  assumes "ast_valid ast"
  shows "field_bit t (denote ast) v \<longleftrightarrow> (\<exists>it \<in> set (items_of t ast). v \<in> norm_value t ` item_values t it)"
proof -
  define V where "V = (\<Union>it \<in> set (items_of t ast). norm_value t ` item_values t it)"
  have valid: "item_valid t it" if "it \<in> set (items_of t ast)" for it
    using that assms by (cases ast; cases t) (auto simp: list_all_iff)
  have range: "0 \<le> v \<and> v < int (length (field_array t empty_schedule))" if "v \<in> V"
  proof -
    from that obtain it u where it: "it \<in> set (items_of t ast)" "u \<in> item_values t it"
      and v: "v = norm_value t u" by (auto simp: V_def)
    from item_values_in_bounds [OF valid [OF it(1)] it(2)] show ?thesis
      unfolding v by (simp add: upper_less_length)
  qed
  have unset: "\<not> field_array t empty_schedule ! nat v"
    if "0 \<le> v" "v < int (length (field_array t empty_schedule))"
    using that by (cases t) (auto simp: empty_schedule_def nat_less_iff)
  have "field_bit t (denote ast) v \<longleftrightarrow> v \<in> V"
    using range unset by (auto simp: field_bit_def field_array_denote V_def [symmetric] nth_mark nat_less_iff)
  then show ?thesis by (auto simp: V_def)
qed

lemma flags_fold_denote_item:
  "MIN_STAR (fold (denote_item type) its s) \<longleftrightarrow> MIN_STAR s \<or> type = CRON_MINUTE \<and> ItStar \<in> set its"
  "HOUR_STAR (fold (denote_item type) its s) \<longleftrightarrow> HOUR_STAR s \<or> type = CRON_HOUR \<and> ItStar \<in> set its"
  "DOM_STAR (fold (denote_item type) its s) \<longleftrightarrow> DOM_STAR s \<or> type = CRON_DOM \<and> ItStar \<in> set its"
  "DOW_STAR (fold (denote_item type) its s) \<longleftrightarrow> DOW_STAR s \<or> type = CRON_DOW \<and> ItStar \<in> set its"
  "LAST_DOM (fold (denote_item type) its s) \<longleftrightarrow> LAST_DOM s \<or> ItLast \<in> set its"
  "SECONDS (fold (denote_item type) its s) \<longleftrightarrow> SECONDS s"
proof (induction its arbitrary: s)
  case (Cons it its)
  {
    case 1 with Cons(1) show ?case by (cases it; cases type) auto
  next
    case 2 with Cons(2) show ?case by (cases it; cases type) auto
  next
    case 3 with Cons(3) show ?case by (cases it; cases type) auto
  next
    case 4 with Cons(4) show ?case by (cases it; cases type) auto
  next
    case 5 with Cons(5) show ?case by (cases it; cases type) auto
  next
    case 6 with Cons(6) show ?case by (cases it; cases type) auto
  }
qed simp_all

lemma sched_wf_fold: "sched_wf (fold (denote_item type) its s) = sched_wf s"
  by (induction its arbitrary: s) (simp_all add: sched_wf_denote_item)

lemma denote_wf: "sched_wf (denote ast)"
proof (cases ast)
  case (AstSeconds n)
  then show ?thesis using sched_wf_empty by (simp add: sched_wf_def)
next
  case (AstFields ms hs ds mos ws)
  then show ?thesis by (simp add: sched_wf_fold)
qed

lemma item_no_last: "item_valid t ItLast \<longleftrightarrow> t = CRON_DOM"
  by simp

text \<open>
  C24: what a parsed schedule contains. If parse (src/cron_parser.c) accepts a command, the command
  reads as a valid syntax tree, every array of the result has its declared length, a bit is set
  exactly when some item of its field stands for that value (with week day 7 stored as 0), the
  star flags are set exactly by a bare star item, and LAST_DOM exactly by a dollar item of the
  day-of-month field.
\<close>

theorem parse_bits:
  assumes "parse psc (Some cmd) = Some sched"
  shows "\<exists>ast. read_schedule psc cmd = Some ast \<and> ast_valid ast \<and> sched_wf sched
    \<and> (\<forall>t v. field_bit t sched v = (\<exists>it \<in> set (items_of t ast). v \<in> norm_value t ` item_values t it))
    \<and> MIN_STAR sched = (ItStar \<in> set (items_of CRON_MINUTE ast))
    \<and> HOUR_STAR sched = (ItStar \<in> set (items_of CRON_HOUR ast))
    \<and> DOM_STAR sched = (ItStar \<in> set (items_of CRON_DOM ast))
    \<and> DOW_STAR sched = (ItStar \<in> set (items_of CRON_DOW ast))
    \<and> LAST_DOM sched = (ItLast \<in> set (items_of CRON_DOM ast))
    \<and> SECONDS sched = (\<exists>n. ast = AstSeconds n \<and> secondsInterval sched = n \<and> 1 \<le> n \<and> n \<le> 59)"
proof -
  from assms obtain ast where ast: "read_schedule psc cmd = Some ast" "ast_valid ast" "sched = denote ast"
    by (auto simp: parse_def parse_with_error_spec split: option.splits if_splits)
  have last: "ItLast \<notin> set its" if "list_all (item_valid t) its" "t \<noteq> CRON_DOM" for its t
    using that by (auto simp: list_all_iff)
  have flags: "MIN_STAR sched = (ItStar \<in> set (items_of CRON_MINUTE ast))"
    "HOUR_STAR sched = (ItStar \<in> set (items_of CRON_HOUR ast))"
    "DOM_STAR sched = (ItStar \<in> set (items_of CRON_DOM ast))"
    "DOW_STAR sched = (ItStar \<in> set (items_of CRON_DOW ast))"
    "LAST_DOM sched = (ItLast \<in> set (items_of CRON_DOM ast))"
    "SECONDS sched = (\<exists>n. ast = AstSeconds n \<and> secondsInterval sched = n \<and> 1 \<le> n \<and> n \<le> 59)"
    using ast last by (cases ast; force simp: flags_fold_denote_item empty_schedule_def)+
  have "\<forall>t v. field_bit t sched v = (\<exists>it \<in> set (items_of t ast). v \<in> norm_value t ` item_values t it)"
    using ast field_bit_denote by simp
  with ast flags denote_wf show ?thesis by blast
qed

text \<open>A concrete comparison, for instances: equality up to ASCII case.\<close>

definition ascii_strcasecmp :: strcasecmp where
  "ascii_strcasecmp a b = (if map to_lower a = map to_lower b then 0 else 1)"

lemma ascii_strcasecmp_ok: "pg_strcasecmp_ok ascii_strcasecmp"
  by (simp add: pg_strcasecmp_ok_def ascii_strcasecmp_def)

lemmas read_eval = read_schedule_def read_field_def read_item_def read_bounds_def
  parse_field_value_def parse_integer_digits cdefs month_names_def dow_names_def
  ascii_strcasecmp_def char_eval lower_def upper_def prog_ok_def last_of_def

lemma parse_example:
  "parse ascii_strcasecmp (Some ''*/15 1-3,5 15-$ jan 7'')
     = Some (denote (AstFields [ItEvery 15] [ItRange 1 3, ItSingle 5] [ItRange 15 31] [ItSingle 1] [ItSingle 7]))"
proof -
  have "read_schedule ascii_strcasecmp ''*/15 1-3,5 15-$ jan 7''
     = Some (AstFields [ItEvery 15] [ItRange 1 3, ItSingle 5] [ItRange 15 31] [ItSingle 1] [ItSingle 7])"
    by (simp add: read_eval)
  moreover have "ast_valid (AstFields [ItEvery 15] [ItRange 1 3, ItSingle 5] [ItRange 15 31] [ItSingle 1] [ItSingle 7])"
    by (simp add: lower_def upper_def prog_ok_def last_of_def cdefs)
  ultimately show ?thesis by (simp add: parse_def parse_with_error_spec)
qed

theorem parse_bits_witness:
  "\<exists>sched. parse ascii_strcasecmp (Some ''*/15 1-3,5 15-$ jan 7'') = Some sched
     \<and> sched_wf sched \<and> \<not> SECONDS sched \<and> \<not> LAST_DOM sched"
  using parse_bits [OF parse_example] parse_example
  by (auto simp: flags_fold_denote_item empty_schedule_def)

section \<open>Printing and reading back\<close>

fun print_item :: "cron_item \<Rightarrow> string" where
  "print_item ItStar = ''*''"
| "print_item ItLast = ''$''"
| "print_item (ItEvery n) = ''*/'' @ show_int n"
| "print_item (ItRange a b) = show_int a @ ''-'' @ show_int b"
| "print_item (ItRangeEvery a b n) = show_int a @ ''-'' @ show_int b @ ''/'' @ show_int n"
| "print_item (ItSingle v) = show_int v"

definition print_field :: "cron_item list \<Rightarrow> string" where
  "print_field its = join CHR '','' (map print_item its)"

fun print_ast :: "cron_ast \<Rightarrow> string" where
  "print_ast (AstSeconds n) = show_int n @ '' seconds''"
| "print_ast (AstFields ms hs ds mos ws) =
     join CHR '' '' [print_field ms, print_field hs, print_field ds, print_field mos, print_field ws]"

fun ast_nonempty :: "cron_ast \<Rightarrow> bool" where
  "ast_nonempty (AstSeconds n) = True"
| "ast_nonempty (AstFields ms hs ds mos ws) = (ms \<noteq> [] \<and> hs \<noteq> [] \<and> ds \<noteq> [] \<and> mos \<noteq> [] \<and> ws \<noteq> [])"

lemma show_int_digit: "0 \<le> n \<Longrightarrow> c \<in> set (show_int n) \<Longrightarrow> isdigit c"
  by (simp add: show_int_def show_nat_set)

lemma show_int_free: "0 \<le> n \<Longrightarrow> \<not> isdigit c \<Longrightarrow> c \<notin> set (show_int n)"
  using show_int_digit by blast

lemma show_int_nonempty [simp]: "show_int n \<noteq> []"
  by (simp add: show_int_def)

lemma parse_integer_show_int: "0 \<le> n \<Longrightarrow> n \<le> INT_MAX \<Longrightarrow> parse_integer (Some (show_int n)) = Some n"
  using parse_integer_show_nat [of "nat n"] by (simp add: show_int_def)

lemma parse_field_value_show_int:
  "0 \<le> n \<Longrightarrow> n \<le> INT_MAX \<Longrightarrow> parse_field_value psc type (show_int n) = Some n"
  by (simp add: parse_field_value_def parse_integer_show_int)

lemma show_int_ne: "0 \<le> n \<Longrightarrow> show_int n \<noteq> ''$''" "0 \<le> n \<Longrightarrow> show_int n \<noteq> ''*''"
  using show_int_free [of n "CHR ''$''"] show_int_free [of n "CHR ''*''"] by (auto simp: isdigit_ne)

lemma prog_ok_ints:
  assumes "prog_ok t a b n"
  shows "0 \<le> a" "a \<le> INT_MAX" "0 \<le> b" "b \<le> INT_MAX" "0 < n" "n \<le> INT_MAX"
proof -
  from assms have n: "0 < n" and ab: "a \<le> b" "lower t \<le> a" and l: "last_of a b n + n \<le> INT_MAX"
    by (simp_all add: prog_ok_def)
  have "b < last_of a b n + n"
  proof -
    have "(b - a) mod n < n" using n by simp
    then have "b - a < n * ((b - a) div n) + n"
      using mult_div_mod_eq [of n "b - a"] by linarith
    then show ?thesis by (simp add: last_of_def)
  qed
  with n ab l lower_nonneg(1) [of t] last_of_ge [OF n ab(1)]
  show "0 \<le> a" "a \<le> INT_MAX" "0 \<le> b" "b \<le> INT_MAX" "0 < n" "n \<le> INT_MAX" by linarith+
qed

lemma split_at_dash:
  "0 \<le> a \<Longrightarrow> 0 \<le> b \<Longrightarrow> split_loop [] (show_int a @ CHR ''-'' # show_int b) CHR ''-'' = [show_int a, show_int b]"
  by (simp add: split_loop_app split_loop_no_delim show_int_free isdigit_ne)

lemma read_bounds_print:
  "0 \<le> a \<Longrightarrow> a \<le> INT_MAX \<Longrightarrow> 0 \<le> b \<Longrightarrow> b \<le> INT_MAX \<Longrightarrow>
     read_bounds psc t (show_int a @ CHR ''-'' # show_int b) = Some (a, b)"
  by (simp add: read_bounds_def split_at_dash parse_field_value_show_int show_int_ne)

lemma read_print_item: "item_valid t it \<Longrightarrow> read_item psc t (print_item it) = Some it"
proof (cases it)
  case (ItEvery n)
  assume "item_valid t it"
  then have n: "0 < n" "n \<le> INT_MAX" using ItEvery prog_ok_ints by auto
  have "split_loop [] (''*/'' @ show_int n) CHR ''/'' = [''*'', show_int n]"
    using split_loop_app [of "CHR ''/''" "''*''" "[]" "show_int n"] n
    by (simp add: split_loop_no_delim show_int_free isdigit_ne)
  then show ?thesis using n by (simp add: ItEvery read_item_def parse_integer_show_int)
next
  case (ItRange a b)
  assume "item_valid t it"
  then have "prog_ok t a b 1" using ItRange by simp
  note i = prog_ok_ints [OF this]
  have "CHR ''/'' \<notin> set (show_int a @ CHR ''-'' # show_int b)"
    using i by (simp add: show_int_free isdigit_ne)
  moreover have "show_int a @ CHR ''-'' # show_int b \<noteq> [c]" for c by (cases "show_int a") auto
  ultimately show ?thesis
    using i by (simp add: ItRange read_item_single read_bounds_print)
next
  case (ItRangeEvery a b n)
  assume "item_valid t it"
  then have "prog_ok t a b n" using ItRangeEvery by simp
  note i = prog_ok_ints [OF this]
  let ?base = "show_int a @ CHR ''-'' # show_int b"
  have "CHR ''/'' \<notin> set ?base" using i by (simp add: show_int_free isdigit_ne)
  then have "split_loop [] (?base @ CHR ''/'' # show_int n) CHR ''/'' = [?base, show_int n]"
    using i by (simp add: split_loop_app split_loop_no_delim show_int_free isdigit_ne del: append_assoc)
  moreover have "?base \<noteq> [c]" "?base @ CHR ''/'' # show_int n \<noteq> [c]" for c by (cases "show_int a"; simp)+
  ultimately show ?thesis
    using i by (simp add: ItRangeEvery read_item_def read_bounds_print parse_integer_show_int)
next
  case (ItSingle v)
  assume "item_valid t it"
  then have v: "0 \<le> v" "v \<le> INT_MAX" using ItSingle lower_nonneg [of t] by (simp_all add: cdefs)
  then show ?thesis
    by (simp add: ItSingle read_item_single show_int_free isdigit_ne show_int_ne parse_field_value_show_int)
qed (simp_all add: read_item_def)

lemma print_item_free:
  assumes "item_valid t it" and "c = CHR '','' \<or> c = CHR '' ''"
  shows "c \<notin> set (print_item it)"
proof (cases it)
  case (ItSingle v)
  with assms lower_nonneg [of t] show ?thesis by (auto simp: show_int_free isdigit_ne)
next
  case (ItEvery n)
  with assms prog_ok_ints [of t "lower t" "upper t" n] show ?thesis by (auto simp: show_int_free isdigit_ne)
next
  case (ItRange a b)
  with assms prog_ok_ints [of t a b 1] show ?thesis by (auto simp: show_int_free isdigit_ne)
next
  case (ItRangeEvery a b n)
  with assms prog_ok_ints [of t a b n] show ?thesis by (auto simp: show_int_free isdigit_ne)
qed (use assms in auto)

lemma those_read_print:
  "list_all (item_valid t) its \<Longrightarrow> those (map (read_item psc t) (map print_item its)) = Some its"
  by (induction its) (simp_all add: read_print_item)

lemma read_print_field:
  assumes "its \<noteq> []" and "list_all (item_valid t) its"
  shows "read_field psc t (print_field its) = Some its"
proof -
  have "list_all (\<lambda>p. CHR '','' \<notin> set p) (map print_item its)"
    using assms(2) print_item_free [of t] by (fastforce simp: list_all_iff)
  then have "split_loop [] (print_field its) CHR '','' = map print_item its"
    using assms(1) by (simp add: print_field_def split_join)
  then show ?thesis using assms(2) by (simp only: read_field_def those_read_print)
qed

lemma set_join: "set (join d xs) \<subseteq> insert d (\<Union>x \<in> set xs. set x)"
  by (induction d xs rule: join.induct) auto

lemma print_field_no_space:
  assumes "list_all (item_valid t) its"
  shows "CHR '' '' \<notin> set (print_field its)"
  using set_join [of "CHR '',''" "map print_item its"] assms print_item_free [of t _ "CHR '' ''"]
  by (fastforce simp: print_field_def list_all_iff)

lemma read_print_ast:
  assumes "ast_valid ast" and "ast_nonempty ast"
  shows "read_schedule psc (print_ast ast) = Some ast"
proof (cases ast)
  case (AstSeconds n)
  then have n: "0 \<le> n" "n \<le> INT_MAX" using assms by (simp_all add: cdefs)
  have "split_loop [] (show_int n @ CHR '' '' # ''seconds'') CHR '' '' = [show_int n, ''seconds'']"
    using split_loop_app [of "CHR '' ''" "show_int n" "[]" "''seconds''"] n
    by (simp add: show_int_free isdigit_ne)
  then show ?thesis
    using n by (simp add: AstSeconds read_schedule_def parse_integer_show_int cdefs)
next
  case (AstFields ms hs ds mos ws)
  let ?fs = "[print_field ms, print_field hs, print_field ds, print_field mos, print_field ws]"
  have "list_all (\<lambda>p. CHR '' '' \<notin> set p) ?fs"
    using assms AstFields print_field_no_space by auto
  then have "split_loop [] (print_ast ast) CHR '' '' = ?fs"
    unfolding AstFields print_ast.simps by (intro split_join) simp_all
  then show ?thesis
    using assms AstFields by (simp add: read_schedule_def read_print_field)
qed

text \<open>
  C23: every schedule the language can express is read back from its printed form. For each valid
  syntax tree with no empty field, printing it (numbers in decimal, items separated by commas,
  fields by single spaces, or the seconds form) gives a string that parse (src/cron_parser.c)
  accepts, with the tree's denotation as the result.
\<close>

theorem parse_print_roundtrip:
  assumes "ast_valid ast" and "ast_nonempty ast"
  shows "parse psc (Some (print_ast ast)) = Some (denote ast)"
  using assms by (simp add: parse_def parse_with_error_spec read_print_ast)

theorem parse_print_roundtrip_witness:
  "parse ascii_strcasecmp (Some (print_ast (AstFields [ItEvery 15] [ItRangeEvery 1 9 4, ItSingle 5] [ItLast]
       [ItStar] [ItRange 1 5])))
     = Some (denote (AstFields [ItEvery 15] [ItRangeEvery 1 9 4, ItSingle 5] [ItLast] [ItStar] [ItRange 1 5]))"
  by (rule parse_print_roundtrip) (simp_all add: lower_def upper_def prog_ok_def last_of_def cdefs)

end
