(* ===== verification/Parser_Errors.thy ===== *)
theory Parser_Errors
  imports Parser_Props
begin

text \<open>
  The failing side of the parser: every failure is reported and names the first wrong field, every
  store into a bit array is in range, names are read in any case, and three places where the code
  departs from what it means to do: the overflow of a large step, a range end that is never
  validated, and the negative start of \<open>fillBooleanArray\<close>.
\<close>

section \<open>Failures are reported\<close>

lemma set_field_value_reported:
  "set_field_value s t v fi ti tok e = (False, s', e') \<Longrightarrow> reported fi e e'"
  by (cases t) (auto simp: set_field_value_def Let_def split: if_splits)

lemma range_loop_reported:
  "range_loop s t v finish step fi ti tok e = (False, s', e') \<Longrightarrow> reported fi e e'"
proof (induction s t v finish step fi ti tok e rule: range_loop.induct)
  case (1 s t v finish step fi ti tok e)
  obtain ok s1 e1 where r: "set_field_value s t v fi ti tok e = (ok, s1, e1)" by (metis prod_cases3)
  show ?case
  proof (cases "v \<le> finish \<and> 0 < step \<and> is_int step")
    case False
    with "1.prems" show ?thesis by (subst (asm) range_loop.simps) auto
  next
    case guard: True
    show ?thesis
    proof (cases ok)
      case False
      with r set_field_value_reported have "reported fi e e1" by simp
      with "1.prems" guard r False show ?thesis by (subst (asm) range_loop.simps) auto
    next
      case True
      with r have "e1 = e" by (auto dest: set_field_value_True)
      with "1.prems" guard r True "1.IH" [OF guard r [symmetric]] show ?thesis
        by (subst (asm) range_loop.simps) auto
    qed
  qed
qed

lemma set_field_range_reported:
  "set_field_range s t a b step fi ti tok e = (False, s', e') \<Longrightarrow> reported fi e e'"
  by (auto simp: set_field_range_def split: if_splits dest: range_loop_reported)

lemma parse_field_item_reported:
  "parse_field_item psc s item t fi ti e = (False, s', e') \<Longrightarrow> reported fi e e'"
  by (auto simp: parse_field_item_def split: prod.splits option.splits if_splits
      dest: set_field_range_reported set_field_value_reported)

lemma items_loop_reported:
  "items_loop psc s items t fi i e = (False, s', e') \<Longrightarrow> reported fi e e'"
proof (induction psc s items t fi i e rule: items_loop.induct)
  case (2 psc s it items t fi i e)
  obtain ok s1 e1 where r: "parse_field_item psc s (Some it) t fi (i + 1) e = (ok, s1, e1)"
    by (metis prod_cases3)
  show ?case
  proof (cases ok)
    case False
    with r parse_field_item_reported have "reported fi e e1" by simp
    with "2.prems" r False show ?thesis
      by (auto simp: reported_def split: option.splits if_splits)
  next
    case True
    with r parse_field_item_spec [of psc s it t e fi "i + 1"] have "e1 = e"
      by (auto simp: item_result_def split: option.splits if_splits)
    with "2.IH" [OF r [symmetric]] "2.prems" r True show ?thesis by simp
  qed
qed simp

lemma parse_cron_field_reported:
  "parse_cron_field psc s f t fi e = (False, s', e') \<Longrightarrow> reported fi e e'"
  by (auto simp: parse_cron_field_def split: option.splits if_splits dest: items_loop_reported)

definition field_ok :: "strcasecmp \<Rightarrow> string \<times> FieldType \<Rightarrow> bool" where
  "field_ok psc ft = (case ft of (f, t) \<Rightarrow>
     \<exists>its. read_field psc t f = Some its \<and> list_all (item_valid t) its)"

lemma fields_chain_reported:
  assumes "fields_chain psc s fs e = (False, s', e')"
  shows "\<exists>pre f t fi post. fs = pre @ (f, t, fi) # post \<and> reported fi e e'
     \<and> list_all (\<lambda>(f, t, fi). field_ok psc (f, t)) pre \<and> \<not> field_ok psc (f, t)"
  using assms
proof (induction fs arbitrary: s)
  case (Cons x fs)
  obtain f t fi where x: "x = (f, t, fi)" by (cases x)
  show ?case
  proof (cases rule: parse_cron_field_cases [of psc t f s fi e])
    case (ok its)
    with Cons.prems x have "fields_chain psc (fold (denote_item t) its s) fs e = (False, s', e')" by simp
    from Cons.IH [OF this] obtain pre f' t' fi' post where
      "fs = pre @ (f', t', fi') # post" "reported fi' e e'"
      "list_all (\<lambda>(f, t, fi). field_ok psc (f, t)) pre" "\<not> field_ok psc (f', t')" by blast
    moreover have "field_ok psc (f, t)" using ok by (simp add: field_ok_def)
    ultimately show ?thesis unfolding x
      by (intro exI [where x = "(f, t, fi) # pre"] exI [where x = f'] exI [where x = t']
          exI [where x = fi'] exI [where x = post]) simp
  next
    case (bad s1 e1)
    with Cons.prems x have "e1 = e'" by simp
    moreover have "reported fi e e1" using bad(2) by (rule parse_cron_field_reported)
    moreover have "\<not> field_ok psc (f, t)" using bad(1) by (auto simp: field_ok_def)
    ultimately show ?thesis unfolding x
      by (intro exI [where x = "[]"] exI [where x = f] exI [where x = t] exI [where x = fi]
          exI [where x = fs]) simp
  qed
qed simp

text \<open>
  C26: a rejected five-field schedule is reported at the first wrong field. If parse_with_error
  (src/cron_parser.c) rejects a command of five space-separated fields other than the seconds form,
  the error record has a non-empty message, its fieldIndex k is between 1 and 5, the fields before
  the k-th are correct and the k-th is not.
\<close>

theorem parse_error_located:
  assumes "str_split (Some cmd) CHR '' '' = Some flds" and "length flds = 5"
    and "parse_with_error psc (Some cmd) (Some err) = (None, err')"
  shows "\<exists>e k. err' = Some e \<and> message e \<noteq> [] \<and> fieldIndex e = int k \<and> 1 \<le> k \<and> k \<le> 5
     \<and> list_all (field_ok psc) (take (k - 1) (zip flds [CRON_MINUTE, CRON_HOUR, CRON_DOM, CRON_M, CRON_DOW]))
     \<and> \<not> field_ok psc (zip flds [CRON_MINUTE, CRON_HOUR, CRON_DOM, CRON_M, CRON_DOW] ! (k - 1))"
proof -
  obtain f1 f2 f3 f4 f5 where flds: "flds = [f1, f2, f3, f4, f5]"
    using assms(2) by (auto simp: length_eq_5)
  with assms(1) have sp: "split_loop [] cmd CHR '' '' = [f1, f2, f3, f4, f5]" "cmd \<noteq> []"
    by (auto simp: str_split_def)
  let ?l = "[(f1, CRON_MINUTE, 1 :: int), (f2, CRON_HOUR, 2), (f3, CRON_DOM, 3), (f4, CRON_M, 4), (f5, CRON_DOW, 5)]"
  obtain ok t e' where c: "fields_chain psc empty_schedule ?l (clear_parse_error (Some err)) = (ok, t, e')"
    by (metis prod_cases3)
  then have "parse_with_error psc (Some cmd) (Some err) = (if ok then Some t else None, e')"
    using sp by (simp add: parse_with_error_def Let_def str_split_Some charArrayLength_Some)
  with assms(3) have "\<not> ok" "e' = err'" by (auto split: if_splits)
  with c have "fields_chain psc empty_schedule ?l (clear_parse_error (Some err)) = (False, t, err')" by simp
  from fields_chain_reported [OF this] obtain pre f ty fi post where
    l: "?l = pre @ (f, ty, fi) # post" and rep: "reported fi (clear_parse_error (Some err)) err'"
    and ok: "list_all (\<lambda>(f, t, fi). field_ok psc (f, t)) pre" and bad: "\<not> field_ok psc (f, ty)" by blast
  from rep obtain e where e: "err' = Some e" "message e \<noteq> []" "fieldIndex e = fi"
    by (auto simp: reported_def clear_parse_error_def)
  show ?thesis
    using l ok bad e unfolding flds
    by (auto simp: Cons_eq_append_conv intro!: exI [where x = e])
qed

lemma read_field_bad_dow: "\<not> field_ok ascii_strcasecmp (''8'', CRON_DOW)"
  by (simp add: field_ok_def read_eval)

theorem parse_error_located_witness:
  "\<exists>e k. snd (parse_with_error ascii_strcasecmp (Some ''* * * * 8'')
              (Some \<lparr> message = [], token = [], fieldIndex = 0, tokenIndex = 0 \<rparr>)) = Some e
     \<and> message e \<noteq> [] \<and> fieldIndex e = int k \<and> 1 \<le> k \<and> k \<le> 5"
proof -
  let ?err = "\<lparr> message = [], token = [], fieldIndex = 0, tokenIndex = 0 \<rparr>"
  have s: "str_split (Some ''* * * * 8'') CHR '' '' = Some [''*'', ''*'', ''*'', ''*'', ''8'']"
    by (simp add: str_split_def)
  have "read_schedule ascii_strcasecmp ''* * * * 8''
     = Some (AstFields [ItStar] [ItStar] [ItStar] [ItStar] [ItSingle 8])"
    by (simp add: read_eval)
  then have n: "fst (parse_with_error ascii_strcasecmp (Some ''* * * * 8'') (Some ?err)) = None"
    by (simp add: parse_with_error_spec lower_def upper_def)
  have p: "parse_with_error ascii_strcasecmp (Some ''* * * * 8'') (Some ?err)
     = (None, snd (parse_with_error ascii_strcasecmp (Some ''* * * * 8'') (Some ?err)))"
    using n by (metis prod.collapse)
  have "\<exists>e k. snd (parse_with_error ascii_strcasecmp (Some ''* * * * 8'') (Some ?err)) = Some e
      \<and> message e \<noteq> [] \<and> fieldIndex e = int k \<and> 1 \<le> k \<and> k \<le> 5"
    using parse_error_located [OF s _ p] by fastforce
  then show ?thesis .
qed

section \<open>Stores are in range\<close>

text \<open>
  C34: the store of set_field_value (src/cron_parser.c) is memory safe and exact. On a well-formed
  schedule it succeeds exactly for a value within the bounds of its field; then the index it
  writes (7 of day-of-week folded to 0) lies inside the field's array, that bit and no other bit of
  any field becomes true, and the error record is untouched; outside the bounds the schedule is
  unchanged and the failure is reported.
\<close>

theorem set_field_value_safe:
  assumes "sched_wf s"
  shows "case set_field_value s type v fi ti tok e of (ok, s', e') \<Rightarrow>
     ok = (fst (get_bounds type) \<le> v \<and> v \<le> snd (get_bounds type))
     \<and> (if ok then 0 \<le> norm_value type v \<and> norm_value type v < int (length (field_array type s))
              \<and> sched_wf s' \<and> e' = e
              \<and> (\<forall>t u. field_bit t s' u = (field_bit t s u \<or> t = type \<and> u = norm_value type v))
        else s' = s \<and> reported fi e e')"
proof (cases "lower type \<le> v \<and> v \<le> upper type")
  case True
  let ?s' = "add_values type {norm_value type v} s"
  have len: "length (field_array t s) = length (field_array t empty_schedule)" for t
    using assms by (cases t) (simp_all add: sched_wf_def empty_schedule_def)
  have range: "0 \<le> norm_value type v \<and> norm_value type v < int (length (field_array type s))"
    using True upper_less_length by (simp add: len)
  have bits: "field_bit t ?s' u = (field_bit t s u \<or> t = type \<and> u = norm_value type v)" for t u
    using range by (cases "t = type")
      (auto simp: field_bit_def field_array_add_values field_array_add_other nth_mark nat_less_iff)
  show ?thesis
    using set_field_value_if [of type v s fi ti tok e] True range bits assms
    by (simp add: get_bounds_lu)
next
  case False
  obtain ok s' e' where r: "set_field_value s type v fi ti tok e = (ok, s', e')" by (metis prod_cases3)
  then have "\<not> ok" "s' = s"
    using False by (cases type; auto simp: set_field_value_def lower_def upper_def Let_def)+
  with r False show ?thesis by (auto simp: get_bounds_lu dest: set_field_value_reported)
qed

theorem set_field_value_safe_witness:
  "sched_wf empty_schedule
   \<and> fst (set_field_value empty_schedule CRON_DOW 7 5 1 (Some ''7'') None)
   \<and> field_bit CRON_DOW (fst (snd (set_field_value empty_schedule CRON_DOW 7 5 1 (Some ''7'') None))) 0"
  using set_field_value_safe [OF sched_wf_empty, where type = CRON_DOW and v = 7 and fi = 5 and ti = 1
      and tok = "Some ''7''" and e = None]
  by (auto simp: norm_value_def split: prod.splits)

section \<open>Names\<close>

lemma is_ascii_names:
  "(n, v) \<in> set month_names \<Longrightarrow> is_ascii n" "(n, v) \<in> set dow_names \<Longrightarrow> is_ascii n"
  by (auto simp: month_names_def dow_names_def is_ascii_def)

lemma search_ci:
  assumes "pg_strcasecmp_ok psc" and "is_ascii tok" and "\<And>n v. (n, v) \<in> set names \<Longrightarrow> is_ascii n"
  shows "search_for_cron_name psc names tok
     = map_of (map (\<lambda>(n, v). (map to_lower n, v)) names) (map to_lower tok)"
  using assms(3)
proof (induction names)
  case (Cons nv names)
  obtain n v where nv: "nv = (n, v)" by (cases nv)
  have "is_ascii n" using Cons.prems [of n v] nv by simp
  then have "psc n tok = 0 \<longleftrightarrow> map to_lower n = map to_lower tok"
    using assms(1,2) by (simp add: pg_strcasecmp_ok_def)
  moreover have "search_for_cron_name psc names tok
     = map_of (map (\<lambda>(n, v). (map to_lower n, v)) names) (map to_lower tok)"
    by (rule Cons.IH) (use Cons.prems in auto)
  ultimately show ?case using nv by auto
qed simp

text \<open>
  how parse_field_value (src/cron_parser.c) reads an ASCII token that is not a number, given a
  pg_strcasecmp that compares ASCII strings up to case: in the month and day-of-week fields it is
  the table's value of the name that equals the token up to case, and there is none otherwise; in
  the other fields no name is accepted.
\<close>

theorem parse_field_value_names:
  assumes "pg_strcasecmp_ok psc" and "is_ascii tok" and "parse_integer (Some tok) = None"
  shows "parse_field_value psc type tok =
     (case type of
        CRON_M \<Rightarrow> map_of [(''jan'', 1), (''feb'', 2), (''mar'', 3), (''apr'', 4), (''may'', 5), (''jun'', 6),
          (''jul'', 7), (''aug'', 8), (''sep'', 9), (''oct'', 10), (''nov'', 11), (''dec'', 12)] (map to_lower tok)
      | CRON_DOW \<Rightarrow> map_of [(''sun'', 0), (''mon'', 1), (''tue'', 2), (''wed'', 3), (''thu'', 4), (''fri'', 5),
          (''sat'', 6)] (map to_lower tok)
      | _ \<Rightarrow> None)"
proof -
  have m: "map (\<lambda>(n, v). (map to_lower n, v)) month_names
     = [(''jan'', 1), (''feb'', 2), (''mar'', 3), (''apr'', 4), (''may'', 5), (''jun'', 6),
          (''jul'', 7), (''aug'', 8), (''sep'', 9), (''oct'', 10), (''nov'', 11), (''dec'', 12)]"
    by (simp add: month_names_def char_eval)
  have d: "map (\<lambda>(n, v). (map to_lower n, v)) dow_names
     = [(''sun'', 0), (''mon'', 1), (''tue'', 2), (''wed'', 3), (''thu'', 4), (''fri'', 5), (''sat'', 6)]"
    by (simp add: dow_names_def char_eval)
  show ?thesis
    using search_ci [OF assms(1,2) is_ascii_names(1)] search_ci [OF assms(1,2) is_ascii_names(2)]
      assms(3) m d
    by (cases type) (simp_all only: parse_field_value_def FieldType.case option.case FieldType.distinct
        simp_thms if_True if_False)
qed

theorem parse_field_value_names_witness:
  "parse_field_value ascii_strcasecmp CRON_DOW ''sAt'' = Some 6
   \<and> parse_field_value ascii_strcasecmp CRON_HOUR ''sAt'' = None"
proof -
  have a: "is_ascii ''sAt''" by (simp add: is_ascii_def)
  have n: "parse_integer (Some ''sAt'') = None" by (simp add: parse_integer_digits char_eval)
  show ?thesis
    using parse_field_value_names [OF ascii_strcasecmp_ok a n, of CRON_DOW]
      parse_field_value_names [OF ascii_strcasecmp_ok a n, of CRON_HOUR]
    by (simp add: char_eval)
qed

section \<open>Steps, range ends and the unused fill loop\<close>

lemma parse_field_item_accepts:
  "fst (parse_field_item psc s (Some x) type fi ti e)
     = (\<exists>it. read_item psc type x = Some it \<and> item_valid type it)"
  using parse_field_item_spec [of psc s x type e fi ti]
  by (auto simp: item_result_def split: option.splits if_splits)

lemma read_large_step: "read_item psc type ''*/2147483647'' = Some (ItEvery 2147483647)"
  by (simp add: read_item_def parse_integer_digits char_eval cdefs)

text \<open>
  C39: the wrap-around of value += step in set_field_range (src/cron_parser.c) is observable. The
  same item, a star with the largest int as its step, is accepted in the fields that count from 0
  and rejected in day-of-month and month, which count from 1, because 1 + INT_MAX wraps to a
  negative value that the bounds check then refuses.
\<close>

theorem large_step_overflows:
  "fst (parse_field_item psc s (Some ''*/2147483647'') type fi ti e)
     = (type = CRON_MINUTE \<or> type = CRON_HOUR \<or> type = CRON_DOW)"
  unfolding parse_field_item_accepts read_large_step
  by (cases type) (simp_all add: prog_ok_def last_of_def lower_def upper_def cdefs)

text \<open>
  C40: set_field_range (src/cron_parser.c) validates only the values it reaches, not the end of the
  range. The minute item 5-100/96 is accepted and sets only minute 5, although 100 is not a minute
  and the items 5-100 and 100 are both rejected.
\<close>

theorem range_end_unchecked:
  "parse_field_item psc s (Some ''5-100/96'') CRON_MINUTE fi ti e = (True, add_values CRON_MINUTE {5} s, e)
   \<and> \<not> fst (parse_field_item psc s (Some ''5-100'') CRON_MINUTE fi ti e)
   \<and> \<not> fst (parse_field_item psc s (Some ''100'') CRON_MINUTE fi ti e)"
proof -
  have r: "read_item psc CRON_MINUTE ''5-100/96'' = Some (ItRangeEvery 5 100 96)"
    "read_item psc CRON_MINUTE ''5-100'' = Some (ItRange 5 100)"
    "read_item psc CRON_MINUTE ''100'' = Some (ItSingle 100)"
    by (simp_all add: read_item_def read_bounds_def parse_field_value_def parse_integer_digits char_eval cdefs)
  have v: "item_valid CRON_MINUTE (ItRangeEvery 5 100 96)"
    by (simp add: prog_ok_def last_of_def lower_def upper_def cdefs)
  have p: "progression 5 100 96 = {5}" by (rule progression_single) simp_all
  show ?thesis
    using parse_field_item_spec [of psc s "''5-100/96''" CRON_MINUTE e fi ti] r v p
    unfolding parse_field_item_accepts
    by (simp add: item_result_def norm_value_def prog_ok_def last_of_def lower_def upper_def cdefs)
qed

lemma length_fill_loop: "fill_loop xs i finish step v = Some ys \<Longrightarrow> length ys = length xs"
proof (induction xs i finish step v rule: fill_loop.induct)
  case (1 xs i finish step v)
  then show ?case by (subst (asm) (2) fill_loop.simps) (auto split: if_splits)
qed

lemma fill_loop_in_range:
  assumes "0 \<le> i" and "finish \<le> int (length xs)" and "0 < step" and "finish + step \<le> INT_MAX"
  shows "fill_loop xs i finish step v =
     Some (map (\<lambda>k. if int k \<in> progression i (finish - 1) step then v else xs ! k) [0..<length xs])"
  using assms
proof (induction xs i finish step v rule: fill_loop.induct)
  case (1 xs i finish step v)
  note prems = "1.prems"
  show ?case
  proof (cases "i < finish")
    case False
    then have "progression i (finish - 1) step = {}" by (auto simp: progression_def)
    with False show ?thesis by (subst fill_loop.simps) (simp add: map_nth)
  next
    case True
    have guard: "i < finish \<and> 0 < step \<and> is_int step \<and> is_int finish" and bound: "\<not> (i < 0 \<or> int (length xs) \<le> i)"
      using True prems by (auto simp: is_int_def cdefs)
    have nx: "int32 (i + step) = i + step" using prems True by (simp add: cdefs)
    have prog: "progression i (finish - 1) step = insert i (progression (i + step) (finish - 1) step)"
      using prems True by (intro progression_step) auto
    have step: "fill_loop xs i finish step v = fill_loop (xs[nat i := v]) (i + step) finish step v"
      using guard bound nx by (subst fill_loop.simps) simp
    have rest: "fill_loop (xs[nat i := v]) (i + step) finish step v
       = Some (map (\<lambda>k. if int k \<in> progression (i + step) (finish - 1) step then v else xs[nat i := v] ! k)
             [0..<length xs])"
      using "1.IH" [OF guard bound] prems nx by simp
    have eq: "(if int k \<in> progression (i + step) (finish - 1) step then v else xs[nat i := v] ! k)
       = (if int k \<in> progression i (finish - 1) step then v else xs ! k)" if "k \<in> set [0..<length xs]" for k
    proof (cases "k = nat i")
      case True
      with that prems(1) show ?thesis by (simp add: prog)
    next
      case False
      with prems(1) have "int k \<noteq> i" by auto
      with False show ?thesis by (simp add: prog)
    qed
    show ?thesis unfolding step rest by (simp only: map_cong [OF refl eq])
  qed
qed

text \<open>
  fillBooleanArray (src/cron_parser.c, called from nowhere). Within the array it stores the
  value at start, start + step, and so on below finish and leaves the rest alone; but for every
  negative start below finish it accesses the array before its beginning: the correction of a
  negative start stores into array[0] and then starts the loop at the negative index all the same.
\<close>

theorem fillBooleanArray_range:
  "(0 \<le> start \<and> finish \<le> int (length a) \<and> 0 < step \<and> finish + step \<le> INT_MAX \<longrightarrow>
      fillBooleanArray (Some a) start finish step v = Some (Some
        (map (\<lambda>k. if int k \<in> progression start (finish - 1) step then v else a ! k) [0..<length a])))
   \<and> (start < 0 \<and> start < finish \<and> 0 < step \<and> is_int step \<and> is_int finish \<longrightarrow>
      fillBooleanArray (Some a) start finish step v = None)"
proof (intro conjI impI)
  assume "0 \<le> start \<and> finish \<le> int (length a) \<and> 0 < step \<and> finish + step \<le> INT_MAX"
  then show "fillBooleanArray (Some a) start finish step v = Some (Some
      (map (\<lambda>k. if int k \<in> progression start (finish - 1) step then v else a ! k) [0..<length a]))"
    by (simp add: fillBooleanArray_def fill_loop_in_range)
next
  assume "start < 0 \<and> start < finish \<and> 0 < step \<and> is_int step \<and> is_int finish"
  then have "fill_loop b start finish step v = None" for b
    by (subst fill_loop.simps) simp
  with \<open>start < 0 \<and> start < finish \<and> 0 < step \<and> is_int step \<and> is_int finish\<close>
  show "fillBooleanArray (Some a) start finish step v = None"
    by (simp add: fillBooleanArray_def Let_def)
qed

theorem fillBooleanArray_range_witness:
  "fillBooleanArray (Some [False, False, False]) 0 3 2 True = Some (Some [True, False, True])
   \<and> fillBooleanArray (Some [False, False, False]) (- 1) 3 2 True = None"
  using fillBooleanArray_range [of 0 3 "[False, False, False]" 2 True]
    fillBooleanArray_range [of "- 1" 3 "[False, False, False]" 2 True]
  by (simp add: cdefs is_int_def progression_def upt_rec)

end
