(* ===== verification/Hash_Table.thy ===== *)
theory Hash_Table
  imports Prelude
begin

text \<open>
  PostgreSQL's dynamic hash tables, the interface through which the worker keeps its jobs and its
  tasks. The tables are not part of the program: their operations are a record that the model's
  definitions take as an argument, and the locale \<open>dynahash\<close> states the documented contract.
\<close>

section \<open>Operations and contract\<close>

text \<open>
  \<open>h_find\<close> and \<open>h_enter\<close> are \<open>hash_search\<close> with \<open>HASH_FIND\<close> and \<open>HASH_ENTER\<close>: the latter returns the
  table, the contents of the entry and whether it existed. A new entry has its key set and is
  otherwise uninitialised. \<open>h_store\<close> is an assignment through the pointer to an entry, \<open>h_remove\<close> is
  \<open>HASH_REMOVE\<close>, and \<open>h_seq\<close> lists the keys in the order of \<open>hash_seq_search\<close>. Entries do not move,
  so a pointer to an entry is represented by its key.
\<close>

record ('h, 'e) dynahash_ops =
  h_create :: "'h"
  h_find :: "'h \<Rightarrow> int \<Rightarrow> 'e option"
  h_enter :: "'h \<Rightarrow> int \<Rightarrow> 'h \<times> 'e \<times> bool"
  h_store :: "'h \<Rightarrow> int \<Rightarrow> 'e \<Rightarrow> 'h"
  h_remove :: "'h \<Rightarrow> int \<Rightarrow> 'h"
  h_seq :: "'h \<Rightarrow> int list"

locale dynahash =
  fixes H :: "('h, 'e) dynahash_ops"
  assumes find_create: "h_find H (h_create H) k = None"
    and enter: "h_enter H h k = (h', e, found) \<Longrightarrow>
      found = (h_find H h k \<noteq> None) \<and> h_find H h' = (h_find H h)(k \<mapsto> e)
      \<and> (found \<longrightarrow> h_find H h k = Some e)"
    and store: "h_find H h k \<noteq> None \<Longrightarrow> h_find H (h_store H h k e) = (h_find H h)(k \<mapsto> e)"
    and remove: "h_find H (h_remove H h k) = (h_find H h)(k := None)"
    and seq: "distinct (h_seq H h)" "set (h_seq H h) = dom (h_find H h)"
begin

lemma enter_store:
  "h_enter H h k = (h', e0, found) \<Longrightarrow> h_find H (h_store H h' k e) = (h_find H h)(k \<mapsto> e)"
  using enter [of h k h' e0 found] by (simp add: store)

text \<open>A loop over a list of entries that rewrites each of them.\<close>

lemma fold_store:
  "\<lbrakk>set ks \<subseteq> dom (h_find H h); distinct ks\<rbrakk> \<Longrightarrow>
     h_find H (fold (\<lambda>k h. case h_find H h k of None \<Rightarrow> h | Some e \<Rightarrow> h_store H h k (f k e)) ks h) =
     (\<lambda>k. if k \<in> set ks then map_option (f k) (h_find H h k) else h_find H h k)"
proof (induction ks arbitrary: h)
  case (Cons k ks)
  then obtain e where e: "h_find H h k = Some e" by auto
  let ?h = "h_store H h k (f k e)"
  have s: "h_find H ?h = (h_find H h)(k \<mapsto> f k e)" using e by (simp add: store)
  have "h_find H (fold (\<lambda>k h. case h_find H h k of None \<Rightarrow> h | Some e \<Rightarrow> h_store H h k (f k e)) ks ?h) =
     (\<lambda>k. if k \<in> set ks then map_option (f k) (h_find H ?h k) else h_find H ?h k)"
    using Cons.prems by (intro Cons.IH) (auto simp: s)
  with e Cons.prems show ?case by (auto simp: s fun_eq_iff)
qed simp

end

section \<open>An instance\<close>

text \<open>
  Association lists implement the contract; \<open>g\<close> is the content of an uninitialised entry. The
  concrete runs of the development use this instance.
\<close>

definition alist_hash :: "'e \<Rightarrow> ((int \<times> 'e) list, 'e) dynahash_ops" where
  "alist_hash g =
     \<lparr> h_create = [],
       h_find = map_of,
       h_enter = (\<lambda>h k. case map_of h k of Some e \<Rightarrow> (h, e, True) | None \<Rightarrow> ((k, g) # h, g, False)),
       h_store = (\<lambda>h k e. map (\<lambda>(k', e'). if k' = k then (k, e) else (k', e')) h),
       h_remove = (\<lambda>h k. filter (\<lambda>(k', e'). k' \<noteq> k) h),
       h_seq = (\<lambda>h. remdups (map fst h)) \<rparr>"

lemma map_of_store:
  "map_of h k \<noteq> None \<Longrightarrow>
     map_of (map (\<lambda>(k', e'). if k' = k then (k, e) else (k', e')) h) = (map_of h)(k \<mapsto> e)"
proof -
  have o: "map_of (map (\<lambda>(k', e'). if k' = k then (k, e) else (k', e')) h) k'
     = (if k' = k then map_option (\<lambda>_. e) (map_of h k) else map_of h k')" for k'
    by (induction h) auto
  show "map_of h k \<noteq> None \<Longrightarrow> ?thesis" by (rule ext) (auto simp: o)
qed

lemma map_of_remove: "map_of (filter (\<lambda>(k', e'). k' \<noteq> k) h) = (map_of h)(k := None)"
  by (induction h) (auto simp: fun_eq_iff)

interpretation alist: dynahash "alist_hash g" for g
  by unfold_locales
    (auto simp: alist_hash_def map_of_store map_of_remove dom_map_of_conv_image_fst
      split: option.splits)

end
