(* ===== verification/Cron_Types.thy ===== *)
theory Cron_Types
  imports Parser_Field Hash_Table
begin

text \<open>
  The data of the scheduler: \<open>CronJob\<close> (\<open>include/cron_job.h\<close>), \<open>CronTask\<close> and its states
  (\<open>include/cron_task.h\<close>), the faults a step can end in, its observable effects, and what SPI
  answers.
\<close>

section \<open>Jobs and tasks\<close>

record CronJob =
  job_jobId :: int
  scheduleText :: string
  schedule :: CronSchedule
  command :: string
  nodeName :: string
  nodePort :: int
  database :: string
  userName :: string

datatype CronTaskState =
  CRON_TASK_WAITING | CRON_TASK_START | CRON_TASK_CONNECTING | CRON_TASK_SENDING
| CRON_TASK_RUNNING | CRON_TASK_RECEIVING | CRON_TASK_DONE | CRON_TASK_ERROR

text \<open>libpq's \<open>PostgresPollingStatusType\<close>; its first constant has the value 0.\<close>

datatype PollingStatus =
  PGRES_POLLING_FAILED | PGRES_POLLING_READING | PGRES_POLLING_WRITING | PGRES_POLLING_OK

text \<open>
  A connection is named by a number; \<open>conn = None\<close> is the NULL pointer, and so is
  \<open>errorMessage = None\<close>.
\<close>

record CronTask =
  jobId :: int
  runId :: int
  state :: CronTaskState
  polling_status :: PollingStatus
  pendingRunCount :: int
  startDeadline :: int
  nextRunTime :: int
  runDeadline :: int
  conn :: "nat option"
  errorMessage :: "string option"
  isActive :: bool
  isSocketReady :: bool
  timedOut :: bool
  cancelRequested :: bool

section \<open>The state of the worker\<close>

text \<open>
  The global and static variables of \<open>src/nedo_cron.c\<close> and \<open>src/cron_job.c\<close>, and the local
  \<open>lastJobReloadTime\<close> of the main loop. An \<open>Oid\<close> is an integer, \<open>InvalidOid\<close> is 0.
\<close>

record ('jh, 'th) globals =
  CronJobHashTable :: "'jh"
  CronTaskHashTable :: "'th"
  CronJobCacheValid :: bool
  CachedCronJobRealtionId :: int
  CronJobRelcacheCallbackRegistered :: bool
  CronJobRelcacheOid :: int
  sighupFlag :: bool
  sigtermFlag :: bool
  lastMinute :: int
  lastJobReloadTime :: int
  TaskTimeout :: int
  maxPendingTasks :: int
  StatementTimeoutMs :: int

text \<open>An arbitrary content of uninitialised memory, for concrete runs.\<close>

definition raw_task :: CronTask where
  "raw_task = \<lparr> jobId = 17, runId = 5, state = CRON_TASK_RUNNING, polling_status = PGRES_POLLING_OK,
     pendingRunCount = 3, startDeadline = 11, nextRunTime = 13, runDeadline = 19, conn = Some 3,
     errorMessage = Some ''x'', isActive = False, isSocketReady = True, timedOut = True,
     cancelRequested = True \<rparr>"

section \<open>Faults and effects\<close>

text \<open>
  A step that does not return: an access through a NULL pointer, a format string with an undefined
  expansion, \<open>ereport(ERROR, ...)\<close> with its message, which unwinds out of the program, a loop that
  never ends, or \<open>proc_exit\<close> with its code.
\<close>

datatype fault = NullPointer | UndefinedFormat | PgError string | NoReturn | ProcExit int

text \<open>
  The effects on the database server, in the order they happen: transactions, the statements run
  through SPI with their arguments, warnings, and the calls of libpq that act on a connection.
\<close>

datatype event =
  EvStartTransaction
| EvEndTransaction
| EvInsertRun int string string int \<comment> \<open>jobid, database, username, start_time\<close>
| EvSetRunning int int \<comment> \<open>run_id, pid\<close>
| EvFinishRun int string string int \<comment> \<open>run_id, status, return_message, end_time\<close>
| EvInsertJob string string string int string string \<comment> \<open>a row of the jobs table, without its id\<close>
| EvDeleteJob int
| EvWarning string
| EvConnectStart nat "(string \<times> string) list" \<comment> \<open>new connection, its parameters\<close>
| EvSendQuery nat string
| EvCancel nat
| EvFinishConn nat

type_synonym 'a step = "(event, fault, 'a) io"

section \<open>SPI\<close>

text \<open>
  What the program reads of a statement run through SPI: the return code, the number of rows, and
  the first column of the first row (\<open>None\<close> is SQL's null). The execution may also raise an error
  of its own.
\<close>

datatype spi_code =
  SPI_OK_CONNECT | SPI_OK_INSERT_RETURNING | SPI_OK_DELETE_RETURNING | SPI_OK_UPDATE | SPI_OTHER

record spi_result =
  spi_ret :: spi_code
  SPI_processed :: int
  spi_value :: "int option"

type_synonym spi_answer = "fault + spi_result"

definition SPI_execute :: "event \<Rightarrow> spi_answer \<Rightarrow> spi_result step" where
  "SPI_execute statement answer = ([statement], answer)"

lemmas step_simps = io_simps SPI_execute_def

end
