(* ===== verification/Cron_Time.thy ===== *)
theory Cron_Time
  imports Prelude
begin

text \<open>
  \<open>src/cron_time.c\<close> and \<open>include/cron_time.h\<close>: rounding a timestamp to its minute, counting the
  minutes between two timestamps, and the clock status. The timestamp functions of PostgreSQL that
  the program calls are parameters, collected in the record \<open>pg_time\<close>; the locale \<open>pg_timestamps\<close>
  states what their documentation promises.
\<close>

section \<open>PostgreSQL's timestamp functions\<close>

text \<open>
  A \<open>TimestampTz\<close> counts microseconds from 2000-01-01 00:00:00 UTC. \<open>ts_diff start stop\<close> is the
  pair of seconds and microseconds that \<open>TimestampDifference\<close> stores; \<open>ts_exceeds start stop ms\<close> is
  \<open>TimestampDifferenceExceeds\<close>; \<open>ts_plus_ms\<close> is \<open>TimestampTzPlusMilliseconds\<close>; \<open>ts_to_time_t\<close> is
  \<open>timestamptz_to_time_t\<close>.
\<close>

record pg_time =
  ts_diff :: "int \<Rightarrow> int \<Rightarrow> int \<times> int"
  ts_exceeds :: "int \<Rightarrow> int \<Rightarrow> int \<Rightarrow> bool"
  ts_plus_ms :: "int \<Rightarrow> int \<Rightarrow> int"
  ts_to_time_t :: "int \<Rightarrow> int"

locale pg_timestamps =
  fixes pt :: pg_time
  assumes diff_clamped: "stop \<le> start \<Longrightarrow> ts_diff pt start stop = (0, 0)"
    and diff_forward: "start < stop \<Longrightarrow>
      ts_diff pt start stop = ((stop - start) div 1000000, (stop - start) mod 1000000)"
    and exceeds: "ts_exceeds pt start stop ms \<longleftrightarrow> ms * 1000 \<le> stop - start"
    and plus_ms: "ts_plus_ms pt t ms = t + ms * 1000"
    and to_time_t: "0 \<le> t \<Longrightarrow> ts_to_time_t pt t = t div 1000000 + 946684800"

text \<open>The documented behaviour itself, as an instance.\<close>

definition pg_time_doc :: pg_time where
  "pg_time_doc =
     \<lparr> ts_diff = (\<lambda>start stop. if stop \<le> start then (0, 0)
         else ((stop - start) div 1000000, (stop - start) mod 1000000)),
       ts_exceeds = (\<lambda>start stop ms. ms * 1000 \<le> stop - start),
       ts_plus_ms = (\<lambda>t ms. t + ms * 1000),
       ts_to_time_t = (\<lambda>t. c_div t 1000000 + 946684800) \<rparr>"

interpretation doc: pg_timestamps pg_time_doc
  by unfold_locales (auto simp: pg_time_doc_def c_div_nonneg)

section \<open>Minutes\<close>

text \<open>
  The preprocessor symbol \<open>HAVE_INT64_TIMESTAMP\<close> is a parameter; it is defined in every PostgreSQL
  version with 64-bit timestamps, which includes the version the makefile builds for.
\<close>

definition StartOfMinute :: "bool \<Rightarrow> int \<Rightarrow> int" where
  "StartOfMinute have_int64 time =
     (if have_int64 then time - c_mod time 60000000 else time - c_mod time 60)"

definition EndOfMinute :: "bool \<Rightarrow> int \<Rightarrow> int" where
  "EndOfMinute have_int64 time =
     (let result = StartOfMinute have_int64 time
      in if have_int64 then result + 60000000 else result + 60)"

text \<open>The cast binds tighter than the division: \<open>(int) secs / 60\<close>.\<close>

definition MinutesPassed :: "pg_time \<Rightarrow> int \<Rightarrow> int \<Rightarrow> int" where
  "MinutesPassed pt start end_time =
     (case ts_diff pt start end_time of (secs, microsecs) \<Rightarrow> c_div (int32 secs) 60)"

datatype ClockStatus = CLOCK_JUMP_BACKWARD | CLOCK_PROGRESSED | CLOCK_JUMP_FORWARD | CLOCK_CHANGE

lemma StartOfMinute_nonneg: "0 \<le> t \<Longrightarrow> StartOfMinute True t = t - t mod 60000000"
  by (simp add: StartOfMinute_def c_mod_nonneg)

lemma StartOfMinute_div: "0 \<le> t \<Longrightarrow> StartOfMinute True t = 60000000 * (t div 60000000)"
  by (simp add: StartOfMinute_nonneg minus_mod_eq_mult_div)

text \<open>
  for timestamps from 2000 on, StartOfMinute and EndOfMinute (src/cron_time.c) bracket the time
  by whole minutes: the start is the greatest multiple of a minute not after it and the end the
  least one after it. Before 2000 the C remainder is negative and StartOfMinute rounds up instead,
  to the least multiple not before the time, against its comment.
\<close>

theorem StartOfMinute_brackets:
  "60000000 dvd StartOfMinute True t \<and> EndOfMinute True t = StartOfMinute True t + 60000000
   \<and> (0 \<le> t \<longrightarrow> StartOfMinute True t \<le> t \<and> t < EndOfMinute True t)
   \<and> (t < 0 \<longrightarrow> t \<le> StartOfMinute True t \<and> StartOfMinute True t < t + 60000000)"
proof -
  have e: "EndOfMinute True t = StartOfMinute True t + 60000000"
    by (simp add: EndOfMinute_def Let_def)
  have m: "0 \<le> x mod 60000000" "x mod 60000000 < 60000000" for x :: int by simp_all
  show ?thesis
  proof (cases "0 \<le> t")
    case True
    then have "60000000 dvd StartOfMinute True t" by (simp add: StartOfMinute_div)
    with True e m [of t] show ?thesis by (simp add: StartOfMinute_nonneg)
  next
    case False
    then have s: "StartOfMinute True t = t + (- t) mod 60000000"
      by (simp add: StartOfMinute_def c_mod_neg)
    also have "\<dots> = 60000000 * - ((- t) div 60000000)"
      using mult_div_mod_eq [of 60000000 "- t"] by linarith
    finally have "60000000 dvd StartOfMinute True t" by (simp only: dvd_triv_left)
    with False e s m [of "- t"] show ?thesis by simp
  qed
qed

theorem StartOfMinute_brackets_witness:
  "StartOfMinute True 125000000 \<le> 125000000 \<and> 125000000 < EndOfMinute True 125000000
   \<and> (- 1) \<le> StartOfMinute True (- 1) \<and> StartOfMinute True (- 1) < - 1 + 60000000"
  using StartOfMinute_brackets [of 125000000] StartOfMinute_brackets [of "- 1"] by simp

context pg_timestamps
begin

lemma minutes_nonneg: "stop - start < 2147483648000000 \<Longrightarrow> 0 \<le> MinutesPassed pt start stop"
proof (cases "stop \<le> start")
  case False
  assume "stop - start < 2147483648000000"
  then have "(stop - start) div 1000000 < 2147483648" by simp
  moreover have "0 \<le> (stop - start) div 1000000" using False by (simp add: pos_imp_zdiv_nonneg_iff)
  ultimately show ?thesis
    using False by (simp add: MinutesPassed_def diff_forward c_div_nonneg pos_imp_zdiv_nonneg_iff)
qed (simp add: MinutesPassed_def diff_clamped c_div_def)

lemma minutes_value:
  assumes "start < stop" and "stop - start < 2147483648000000"
  shows "MinutesPassed pt start stop = (stop - start) div 60000000"
proof -
  have s: "0 \<le> (stop - start) div 1000000" "(stop - start) div 1000000 < 2147483648"
    using assms by (simp_all add: pos_imp_zdiv_nonneg_iff)
  then have "MinutesPassed pt start stop = (stop - start) div 1000000 div 60"
    using assms by (simp add: MinutesPassed_def diff_forward c_div_nonneg)
  also have "\<dots> = (stop - start) div 60000000" by (simp flip: zdiv_zmult2_eq)
  finally show ?thesis .
qed

lemma minutes_backward: "stop \<le> start \<Longrightarrow> MinutesPassed pt start stop = 0"
  by (simp add: MinutesPassed_def diff_clamped c_div_def)

lemma minutes_overflow: "MinutesPassed pt 0 2147483648000000 = - 35791394"
proof -
  have "int32 2147483648 = - 2147483648" by (simp add: int32_def)
  then show ?thesis by (simp add: MinutesPassed_def diff_forward c_div_def)
qed

end

text \<open>
  C36: what MinutesPassed (src/cron_time.c) returns, given the documented TimestampDifference: the
  whole minutes from start to end for spans of less than 2^31 seconds, and never less than 0: if
  the clock has gone back the result is 0, because TimestampDifference clamps. Beyond the bound the
  cast to int wraps, and 68 years and a bit give a negative number of minutes.
\<close>

theorem MinutesPassed_correct:
  assumes "pg_timestamps pt"
  shows "(start < stop \<and> stop - start < 2147483648000000 \<longrightarrow>
      MinutesPassed pt start stop = (stop - start) div 60000000)
    \<and> (stop \<le> start \<longrightarrow> MinutesPassed pt start stop = 0)
    \<and> MinutesPassed pt 0 2147483648000000 = - 35791394"
  using pg_timestamps.minutes_value [OF assms] pg_timestamps.minutes_backward [OF assms]
    pg_timestamps.minutes_overflow [OF assms] by simp

theorem MinutesPassed_correct_witness:
  "MinutesPassed pg_time_doc 0 150000000 = 2 \<and> MinutesPassed pg_time_doc 150000000 0 = 0"
  using MinutesPassed_correct [OF doc.pg_timestamps_axioms, of 0 150000000]
    MinutesPassed_correct [OF doc.pg_timestamps_axioms, of 150000000 0] by simp

end
