(* ===== verification/Cron_Task.thy ===== *)
theory Cron_Task
  imports Cron_Types Cron_Time
begin

text \<open>
  \<open>src/cron_task.c\<close>: the life cycle of a task entry and the planning of seconds schedules.
\<close>

section \<open>The code\<close>

text \<open>\<open>polling_status\<close> and \<open>startDeadline\<close> keep what the new entry's memory happened to hold.\<close>

definition InitCronTask :: "CronTask \<Rightarrow> int \<Rightarrow> CronTask" where
  "InitCronTask task jid = task\<lparr> runId := 0, jobId := jid, state := CRON_TASK_WAITING, pendingRunCount := 0,
     conn := None, isActive := True, errorMessage := None, isSocketReady := False, nextRunTime := 0,
     runDeadline := 0, cancelRequested := False, timedOut := False \<rparr>"

definition ResetCronTaskAfterRun :: "CronTask \<Rightarrow> CronTask" where
  "ResetCronTaskAfterRun task = task\<lparr> runId := 0, state := CRON_TASK_WAITING,
     polling_status := PGRES_POLLING_FAILED, startDeadline := 0, conn := None, errorMessage := None,
     isSocketReady := False, runDeadline := 0, cancelRequested := False, timedOut := False \<rparr>"

text \<open>\<open>job\<close> is the result of \<open>getCronJob(task->jobId)\<close>, used without a NULL check.\<close>

definition StartSecondIntervalTask :: "pg_time \<Rightarrow> CronJob option \<Rightarrow> CronTask \<Rightarrow> int \<Rightarrow> fault + CronTask" where
  "StartSecondIntervalTask pt job task currentTime =
     (case job of None \<Rightarrow> Inl NullPointer
      | Some j \<Rightarrow>
        let intervalMs = int32 (1000 * secondsInterval (schedule j));
            task1 = (if nextRunTime task = 0
                     then task\<lparr> nextRunTime := ts_plus_ms pt currentTime intervalMs \<rparr> else task)
        in Inr (if ts_exceeds pt (nextRunTime task1) currentTime 0
                then (let task2 = (if pendingRunCount task1 = 0
                                   then task1\<lparr> pendingRunCount := int32 (pendingRunCount task1 + 1) \<rparr>
                                   else task1)
                      in task2\<lparr> nextRunTime := ts_plus_ms pt currentTime intervalMs \<rparr>)
                else task1))"

definition getCronTask ::
  "('th, CronTask) dynahash_ops \<Rightarrow> 'th \<Rightarrow> int \<Rightarrow> 'th \<times> CronTask" where
  "getCronTask HT tbl jid =
     (case h_enter HT tbl jid of (tbl', task, found) \<Rightarrow>
        if \<not> found then (let task' = InitCronTask task jid in (h_store HT tbl' jid task', task'))
        else (tbl', task))"

definition CreateCronTaskHashTable :: "('th, CronTask) dynahash_ops \<Rightarrow> 'th" where
  "CreateCronTaskHashTable HT = h_create HT"

section \<open>Properties\<close>

text \<open>A freshly initialised entry, whatever its memory held.\<close>

definition fresh_task :: "CronTask \<Rightarrow> int \<Rightarrow> bool" where
  "fresh_task t jid = (jobId t = jid \<and> runId t = 0 \<and> state t = CRON_TASK_WAITING \<and> pendingRunCount t = 0
     \<and> conn t = None \<and> errorMessage t = None \<and> isActive t \<and> \<not> isSocketReady t \<and> nextRunTime t = 0
     \<and> runDeadline t = 0 \<and> \<not> timedOut t \<and> \<not> cancelRequested t)"

lemma fresh_InitCronTask [simp]: "fresh_task (InitCronTask g jid) jid"
  by (simp add: fresh_task_def InitCronTask_def)

text \<open>A hash table whose entries are tasks.\<close>

locale task_table = dynahash HT for HT :: "('th, CronTask) dynahash_ops"
begin

lemma find_getCronTask:
  assumes "getCronTask HT tbl jid = (tbl', t)"
  shows "h_find HT tbl' = (h_find HT tbl)(jid \<mapsto> t)
    \<and> (case h_find HT tbl jid of None \<Rightarrow> fresh_task t jid | Some t0 \<Rightarrow> t = t0)"
proof -
  obtain h e f where h: "h_enter HT tbl jid = (h, e, f)" by (metis prod_cases3)
  from enter [OF h] show ?thesis
    using assms h by (auto simp: getCronTask_def Let_def enter_store [OF h] split: if_splits option.splits)
qed

end

interpretation alist_tasks: task_table "alist_hash g" for g :: CronTask
  by unfold_locales

text \<open>
  getCronTask (src/cron_task.c), over any hash table that meets its contract: an existing entry
  is returned unchanged, an unknown job gets a new waiting, active, unscheduled task without run,
  connection or error, and every other entry of the table is untouched.
\<close>

theorem getCronTask_correct:
  assumes "task_table HT" and "getCronTask HT tbl jid = (tbl', t)"
  shows "h_find HT tbl' = (h_find HT tbl)(jid \<mapsto> t)
    \<and> (case h_find HT tbl jid of None \<Rightarrow> fresh_task t jid | Some t0 \<Rightarrow> t = t0)"
  using assms by (rule task_table.find_getCronTask)

theorem getCronTask_correct_witness:
  "fresh_task (snd (getCronTask (alist_hash raw_task) [] 7)) 7"
proof -
  obtain tbl t where g: "getCronTask (alist_hash raw_task) [] 7 = (tbl, t)"
    by (cases "getCronTask (alist_hash raw_task) [] 7")
  have "h_find (alist_hash raw_task) [] 7 = None" by (simp add: alist_hash_def)
  with getCronTask_correct [OF alist_tasks.task_table_axioms g] g show ?thesis by simp
qed

section \<open>Seconds schedules\<close>

text \<open>A job with a seconds schedule, as the parser builds it.\<close>

definition seconds_job :: "CronJob \<Rightarrow> int \<Rightarrow> bool" where
  "seconds_job j n = (SECONDS (schedule j) \<and> secondsInterval (schedule j) = n \<and> 1 \<le> n \<and> n \<le> 59)"

context pg_timestamps
begin

lemma seconds_interval_ms: "seconds_job j n \<Longrightarrow> int32 (1000 * secondsInterval (schedule j)) = 1000 * n"
  by (simp add: seconds_job_def)

lemma StartSecondIntervalTask_cases:
  assumes "seconds_job j n"
  shows "StartSecondIntervalTask pt (Some j) task now = Inr
     (if nextRunTime task = 0 then
        (if now + n * 1000000 \<le> now then task else task\<lparr> nextRunTime := now + n * 1000000 \<rparr>)
      else if nextRunTime task \<le> now then
        task\<lparr> nextRunTime := now + n * 1000000,
          pendingRunCount := (if pendingRunCount task = 0 then 1 else pendingRunCount task) \<rparr>
      else task)"
  using assms unfolding seconds_job_def
  by (auto simp: StartSecondIntervalTask_def Let_def exceeds plus_ms)

end

text \<open>
  C33: StartSecondIntervalTask (src/cron_task.c) for a job with an interval of n seconds. The first
  call only plans the next run, n seconds from now. A later call before the planned time changes
  nothing; at or after it, it makes one run pending unless one already is, and plans the next run n
  seconds from now. No other field changes, no call ever queues a second run, and after each call
  the planned time lies in the future.
\<close>

theorem StartSecondIntervalTask_correct:
  assumes "pg_timestamps pt" and "seconds_job j n" and "0 < now"
  shows "\<exists>task'. StartSecondIntervalTask pt (Some j) task now = Inr task'
    \<and> now < nextRunTime task'
    \<and> (nextRunTime task = 0 \<longrightarrow> task' = task\<lparr> nextRunTime := now + n * 1000000 \<rparr>)
    \<and> (nextRunTime task \<noteq> 0 \<and> now < nextRunTime task \<longrightarrow> task' = task)
    \<and> (nextRunTime task \<noteq> 0 \<and> nextRunTime task \<le> now \<longrightarrow>
        task' = task\<lparr> nextRunTime := now + n * 1000000,
          pendingRunCount := (if pendingRunCount task = 0 then 1 else pendingRunCount task) \<rparr>)"
  using pg_timestamps.StartSecondIntervalTask_cases [OF assms(1,2), of task now] assms(2,3)
  by (auto simp: seconds_job_def)

definition example_seconds_job :: CronJob where
  "example_seconds_job = \<lparr> job_jobId = 7, scheduleText = ''5 seconds'',
     schedule = empty_schedule\<lparr> SECONDS := True, secondsInterval := 5 \<rparr>, command = ''SELECT 1'',
     nodeName = ''localhost'', nodePort = 5432, database = ''postgres'', userName = ''postgres'' \<rparr>"

lemma example_seconds_job: "seconds_job example_seconds_job 5"
  by (simp add: seconds_job_def example_seconds_job_def)

theorem StartSecondIntervalTask_correct_witness:
  "\<exists>task'. StartSecondIntervalTask pg_time_doc (Some example_seconds_job) (InitCronTask raw_task 7) 1000 = Inr task'
     \<and> nextRunTime task' = 5001000 \<and> pendingRunCount task' = 0"
  using StartSecondIntervalTask_correct [OF doc.pg_timestamps_axioms example_seconds_job, of 1000 "InitCronTask raw_task 7"]
  by (auto simp: InitCronTask_def)

end
