(* ===== verification/Cron_SQL.thy ===== *)
theory Cron_SQL
  imports Cron_Types
begin

text \<open>
  \<open>src/cron_sql.c\<close>, the history of runs, and the transaction brackets of \<open>src/cron_job.c\<close>. What
  the server answers to a statement is an argument.
\<close>

section \<open>The code\<close>

definition StartTransaction :: "unit step" where
  "StartTransaction = emitIO EvStartTransaction"

definition EndTransaction :: "unit step" where
  "EndTransaction = emitIO EvEndTransaction"

definition InsertRunDetailsStart ::
  "spi_answer \<Rightarrow> CronTask \<Rightarrow> CronJob \<Rightarrow> int \<Rightarrow> (CronTask \<times> int) step" where
  "InsertRunDetailsStart answer task job startTime =
     bindIO StartTransaction (\<lambda>_.
     bindIO (SPI_execute (EvInsertRun (job_jobId job) (database job) (userName job) startTime) answer) (\<lambda>r.
       if spi_ret r \<noteq> SPI_OK_INSERT_RETURNING \<or> SPI_processed r \<noteq> 1 then
         bindIO EndTransaction (\<lambda>_.
         raiseIO (PgError ''could not insert row into nedo_cron.job_run_details''))
       else (case spi_value r of
           None \<Rightarrow>
             bindIO EndTransaction (\<lambda>_.
             raiseIO (PgError ''inserted nedo_cron.job_run_details row returned null run_id''))
         | Some rid \<Rightarrow>
             bindIO EndTransaction (\<lambda>_. returnIO (task\<lparr> runId := rid \<rparr>, rid)))))"

definition UpdatePID :: "spi_answer \<Rightarrow> int \<Rightarrow> int \<Rightarrow> unit step" where
  "UpdatePID answer rid pid =
     (if pid = 0 then returnIO ()
      else
        bindIO StartTransaction (\<lambda>_.
        bindIO (SPI_execute (EvSetRunning rid pid) answer) (\<lambda>r.
          if spi_ret r \<noteq> SPI_OK_UPDATE then
            raiseIO (PgError (''could not update pid in job_run_details row with runId='' @ show_int rid))
          else if SPI_processed r = 0 then
            bindIO (emitIO (EvWarning (''job_run_details row with runId='' @ show_int rid
              @ '' disappeared before pid update''))) (\<lambda>_.
            bindIO EndTransaction (\<lambda>_. returnIO ()))
          else if SPI_processed r \<noteq> 1 then
            raiseIO (PgError (''updated '' @ show_int (SPI_processed r) @ '' job_run_details rows for runId=''
              @ show_int rid))
          else bindIO EndTransaction (\<lambda>_. returnIO ()))))"

text \<open>
  The initialiser of \<open>argValues\<close> converts \<open>message\<close> before the test for NULL below it is reached.
\<close>

definition UpdateRunDetailsFinish ::
  "spi_answer \<Rightarrow> int \<Rightarrow> string \<Rightarrow> string option \<Rightarrow> int \<Rightarrow> unit step" where
  "UpdateRunDetailsFinish answer rid status msg endTime =
     (case msg of
        None \<Rightarrow> raiseIO NullPointer
      | Some m \<Rightarrow>
        bindIO StartTransaction (\<lambda>_.
        bindIO (SPI_execute (EvFinishRun rid status m endTime) answer) (\<lambda>r.
          if spi_ret r \<noteq> SPI_OK_UPDATE then
            raiseIO (PgError (''could not update job_run_details row with runId='' @ show_int rid))
          else if SPI_processed r = 0 then
            bindIO (emitIO (EvWarning (''job_run_details row with runId='' @ show_int rid
              @ '' disappeared before finish update''))) (\<lambda>_.
            bindIO EndTransaction (\<lambda>_. returnIO ()))
          else if SPI_processed r \<noteq> 1 then
            raiseIO (PgError (''updated '' @ show_int (SPI_processed r) @ '' job_run_details rows for runId=''
              @ show_int rid))
          else bindIO EndTransaction (\<lambda>_. returnIO ()))))"

lemmas sql_defs = StartTransaction_def EndTransaction_def InsertRunDetailsStart_def UpdatePID_def
  UpdateRunDetailsFinish_def

section \<open>Transactions\<close>

text \<open>Transactions opened and not closed by a list of effects.\<close>

fun open_transactions :: "event list \<Rightarrow> int" where
  "open_transactions [] = 0"
| "open_transactions (EvStartTransaction # es) = open_transactions es + 1"
| "open_transactions (EvEndTransaction # es) = open_transactions es - 1"
| "open_transactions (_ # es) = open_transactions es"

lemma open_transactions_append [simp]:
  "open_transactions (es @ fs) = open_transactions es + open_transactions fs"
  by (induction es rule: open_transactions.induct) simp_all

section \<open>Properties\<close>

text \<open>
  InsertRunDetailsStart (src/cron_sql.c) inserts exactly one history row, for the job, its
  database, its user and the start time. It returns, with the transaction closed, only when the
  server reports one inserted row with a run id, and then it stores that id in the task and changes
  nothing else of it; in every other case it raises an error.
\<close>

theorem InsertRunDetailsStart_correct:
  "(\<forall>task' rid. snd (InsertRunDetailsStart answer task job startTime) = Inr (task', rid) \<longleftrightarrow>
      (\<exists>r. answer = Inr r \<and> spi_ret r = SPI_OK_INSERT_RETURNING \<and> SPI_processed r = 1 \<and> spi_value r = Some rid)
      \<and> task' = task\<lparr> runId := rid \<rparr>)
   \<and> (\<forall>r. answer = Inr r \<longrightarrow> fst (InsertRunDetailsStart answer task job startTime) =
      [EvStartTransaction, EvInsertRun (job_jobId job) (database job) (userName job) startTime, EvEndTransaction])"
  by (cases answer) (auto simp: sql_defs step_simps split: option.split)

definition inserted :: "int \<Rightarrow> spi_answer" where
  "inserted rid = Inr \<lparr> spi_ret = SPI_OK_INSERT_RETURNING, SPI_processed = 1, spi_value = Some rid \<rparr>"

definition updated :: "int \<Rightarrow> spi_answer" where
  "updated n = Inr \<lparr> spi_ret = SPI_OK_UPDATE, SPI_processed = n, spi_value = None \<rparr>"

definition example_job :: CronJob where
  "example_job = \<lparr> job_jobId = 7, scheduleText = ''* * * * *'', schedule = empty_schedule, command = ''SELECT 1'',
     nodeName = ''localhost'', nodePort = 5432, database = ''postgres'', userName = ''alice'' \<rparr>"

theorem InsertRunDetailsStart_correct_witness:
  "snd (InsertRunDetailsStart (inserted 42) raw_task example_job 5) = Inr (raw_task\<lparr> runId := 42 \<rparr>, 42)
   \<and> fst (InsertRunDetailsStart (inserted 42) raw_task example_job 5) =
      [EvStartTransaction, EvInsertRun 7 ''postgres'' ''alice'' 5, EvEndTransaction]"
  using InsertRunDetailsStart_correct [of "inserted 42" raw_task example_job 5]
  by (simp add: inserted_def example_job_def)

text \<open>
  C37: UpdatePID and UpdateRunDetailsFinish (src/cron_sql.c) return only with their transaction
  closed, and do so both when the row was updated and when it has vanished (its job was unscheduled
  and the history row cascaded away), which only logs a warning. UpdatePID without a process id does
  nothing at all. UpdateRunDetailsFinish without a message dereferences NULL, although it has code to
  store a null message.
\<close>

theorem run_updates_correct:
  "(snd (UpdatePID answer rid pid) = Inr () \<longleftrightarrow>
      pid = 0 \<or> (\<exists>r. answer = Inr r \<and> spi_ret r = SPI_OK_UPDATE \<and> SPI_processed r \<in> {0, 1}))
   \<and> (snd (UpdatePID answer rid pid) = Inr () \<longrightarrow> open_transactions (fst (UpdatePID answer rid pid)) = 0)
   \<and> (snd (UpdateRunDetailsFinish answer rid status (Some m) t) = Inr () \<longleftrightarrow>
      (\<exists>r. answer = Inr r \<and> spi_ret r = SPI_OK_UPDATE \<and> SPI_processed r \<in> {0, 1}))
   \<and> (snd (UpdateRunDetailsFinish answer rid status (Some m) t) = Inr () \<longrightarrow>
      open_transactions (fst (UpdateRunDetailsFinish answer rid status (Some m) t)) = 0)
   \<and> UpdatePID answer rid 0 = ([], Inr ())
   \<and> UpdateRunDetailsFinish answer rid status None t = ([], Inl NullPointer)"
  by (cases answer) (auto simp: sql_defs step_simps)

theorem run_updates_correct_witness:
  "open_transactions (fst (UpdatePID (updated 0) 42 99)) = 0 \<and> snd (UpdatePID (updated 0) 42 99) = Inr ()"
  using run_updates_correct [of "updated 0" 42 99] by (simp add: updated_def)

end
