(* ===== verification/Cron_Job.thy ===== *)
theory Cron_Job
  imports Parser_Errors Cron_Task Cron_SQL
begin

text \<open>
  \<open>src/cron_job.c\<close>: loading the jobs table into the worker's hash tables, and the SQL functions
  \<open>check_schedule\<close>, \<open>schedule\<close>, \<open>unschedule\<close> and the cache invalidation trigger. Catalog look-ups
  and statement results are arguments.
\<close>

section \<open>Rows and catalog\<close>

text \<open>A row of \<open>nedo_cron.jobs\<close>; every column is declared \<open>not null\<close>.\<close>

record JobRow =
  row_jobid :: int
  row_schedule :: string
  row_command :: string
  row_nodename :: string
  row_nodeport :: int
  row_database :: string
  row_username :: string

text \<open>
  What the server's catalog says while the jobs are loaded: \<open>cat_extension\<close>, \<open>cat_namespace\<close> and
  \<open>cat_relid\<close> are 0 for a missing object, \<open>cat_rows relid\<close> are the rows of an open table in scan
  order, or \<open>None\<close> if \<open>table_open\<close> raises.
\<close>

record pg_catalog =
  cat_recovery :: bool
  cat_extension :: int
  cat_creating :: bool
  cat_current_extension :: int
  cat_namespace :: int
  cat_relid :: "int \<Rightarrow> int"
  cat_rows :: "int \<Rightarrow> JobRow list option"

section \<open>Loading the jobs\<close>

text \<open>The local \<open>CronParseError\<close> variables are uninitialised; this is some content.\<close>

definition raw_parse_error :: CronParseError where
  "raw_parse_error = \<lparr> message = ''m'', token = ''t'', fieldIndex = 3, tokenIndex = 9 \<rparr>"

definition parse_error_text :: "string \<Rightarrow> CronParseError \<Rightarrow> string" where
  "parse_error_text prefix e = prefix @ '' at field '' @ show_int (fieldIndex e) @ '' near \"'' @ token e
     @ ''\": '' @ message e"

definition TupleToJob ::
  "strcasecmp \<Rightarrow> ('jh, CronJob) dynahash_ops \<Rightarrow> 'jh \<Rightarrow> JobRow \<Rightarrow> ('jh \<times> CronJob option) step" where
  "TupleToJob psc HJ tbl row =
     (case parse_with_error psc (Some (row_schedule row)) (Some raw_parse_error) of
        (None, parse_error) \<Rightarrow>
          (case parse_error of None \<Rightarrow> raiseIO NullPointer
           | Some e \<Rightarrow>
             bindIO (emitIO (EvWarning
               (parse_error_text (''my_nedo_cron: invalid schedule for job '' @ show_int (row_jobid row)) e)))
             (\<lambda>_. returnIO (tbl, None)))
      | (Some sched, parse_error) \<Rightarrow>
          (case h_enter HJ tbl (row_jobid row) of (tbl', job, found) \<Rightarrow>
             let job' = job\<lparr> job_jobId := row_jobid row, command := row_command row,
                   scheduleText := row_schedule row, schedule := sched, nodeName := row_nodename row,
                   nodePort := row_nodeport row, database := row_database row,
                   userName := row_username row \<rparr>
             in returnIO (h_store HJ tbl' (row_jobid row) job', Some job')))"

definition getCronJob :: "('jh, CronJob) dynahash_ops \<Rightarrow> 'jh \<Rightarrow> int \<Rightarrow> CronJob option" where
  "getCronJob HJ tbl jid = h_find HJ tbl jid"

definition CreateCronJobHashTable :: "('jh, CronJob) dynahash_ops \<Rightarrow> 'jh" where
  "CreateCronJobHashTable HJ = h_create HJ"

definition CronLoaded :: "pg_catalog \<Rightarrow> bool" where
  "CronLoaded cat =
     (if cat_extension cat \<noteq> 0 then
        (if cat_creating cat \<and> cat_current_extension cat = cat_extension cat then False else True)
      else False)"

definition CronJobRelationId :: "pg_catalog \<Rightarrow> ('jh, 'th) globals \<Rightarrow> fault + (('jh, 'th) globals \<times> int)" where
  "CronJobRelationId cat g =
     (if CachedCronJobRealtionId g = 0 then
        (if cat_namespace cat = 0 then Inl (PgError ''schema \"nedo_cron\" does not exist'')
         else (let g' = g\<lparr> CachedCronJobRealtionId := cat_relid cat (cat_namespace cat) \<rparr>
               in Inr (g', CachedCronJobRealtionId g')))
      else Inr (g, CachedCronJobRealtionId g))"

fun scan_rows ::
  "strcasecmp \<Rightarrow> ('jh, CronJob) dynahash_ops \<Rightarrow> 'jh \<Rightarrow> JobRow list \<Rightarrow> CronJob list \<Rightarrow> ('jh \<times> CronJob list) step"
where
  "scan_rows psc HJ tbl [] jobs = returnIO (tbl, jobs)"
| "scan_rows psc HJ tbl (row # rows) jobs =
     bindIO (TupleToJob psc HJ tbl row) (\<lambda>(tbl', job).
       scan_rows psc HJ tbl' rows (case job of None \<Rightarrow> jobs | Some j \<Rightarrow> jobs @ [j]))"

definition LoadJobsList ::
  "strcasecmp \<Rightarrow> ('jh, CronJob) dynahash_ops \<Rightarrow> pg_catalog \<Rightarrow> ('jh, 'th) globals \<Rightarrow>
     (('jh, 'th) globals \<times> CronJob list) step" where
  "LoadJobsList psc HJ cat g =
     bindIO (emitIO EvStartTransaction) (\<lambda>_.
       if cat_recovery cat \<or> \<not> CronLoaded cat then
         bindIO (emitIO EvEndTransaction) (\<lambda>_. returnIO (g, []))
       else (case CronJobRelationId cat g of
           Inl f \<Rightarrow> raiseIO f
         | Inr (g', relid) \<Rightarrow>
           (case cat_rows cat relid of
              None \<Rightarrow> raiseIO (PgError (''could not open relation with OID '' @ show_int relid))
            | Some rows \<Rightarrow>
              bindIO (scan_rows psc HJ (CronJobHashTable g') rows []) (\<lambda>(tbl, jobs).
              bindIO (emitIO EvEndTransaction) (\<lambda>_. returnIO (g'\<lparr> CronJobHashTable := tbl \<rparr>, jobs))))))"

definition deactivate_tasks :: "('th, CronTask) dynahash_ops \<Rightarrow> 'th \<Rightarrow> 'th" where
  "deactivate_tasks HT tbl =
     fold (\<lambda>k tbl. case h_find HT tbl k of None \<Rightarrow> tbl
                   | Some task \<Rightarrow> h_store HT tbl k (task\<lparr> isActive := False \<rparr>)) (h_seq HT tbl) tbl"

definition activate_tasks :: "('th, CronTask) dynahash_ops \<Rightarrow> CronJob list \<Rightarrow> 'th \<Rightarrow> 'th" where
  "activate_tasks HT jobs tbl =
     fold (\<lambda>job tbl. case getCronTask HT tbl (job_jobId job) of (tbl', task) \<Rightarrow>
             h_store HT tbl' (job_jobId job) (task\<lparr> isActive := True \<rparr>)) jobs tbl"

definition ReloadCronJobs ::
  "strcasecmp \<Rightarrow> ('jh, CronJob) dynahash_ops \<Rightarrow> ('th, CronTask) dynahash_ops \<Rightarrow> pg_catalog \<Rightarrow>
     ('jh, 'th) globals \<Rightarrow> ('jh, 'th) globals step" where
  "ReloadCronJobs psc HJ HT cat g =
     (let g1 = g\<lparr> CronJobHashTable := CreateCronJobHashTable HJ,
                 CronTaskHashTable := deactivate_tasks HT (CronTaskHashTable g) \<rparr>
      in bindIO (LoadJobsList psc HJ cat g1) (\<lambda>(g2, jobs).
           returnIO (g2\<lparr> CronTaskHashTable := activate_tasks HT jobs (CronTaskHashTable g2),
             CronJobCacheValid := True \<rparr>)))"

section \<open>The SQL functions\<close>

text \<open>The session a SQL function runs in.\<close>

record session =
  ses_user :: string
  ses_database :: string
  PostPortNumber :: int

definition check_schedule :: "strcasecmp \<Rightarrow> string \<Rightarrow> bool" where
  "check_schedule psc scheduleChar =
     (case parse psc (Some scheduleChar) of None \<Rightarrow> False | Some _ \<Rightarrow> True)"

definition schedule_job ::
  "strcasecmp \<Rightarrow> session \<Rightarrow> spi_code \<Rightarrow> spi_answer \<Rightarrow> string \<Rightarrow> string \<Rightarrow> int step" where
  "schedule_job psc ses connect answer scheduleChar query =
     (case parse_with_error psc (Some scheduleChar) (Some raw_parse_error) of
        (None, parseError) \<Rightarrow>
          (case parseError of None \<Rightarrow> raiseIO NullPointer
           | Some e \<Rightarrow>
             if 0 < fieldIndex e \<and> token e \<noteq> [] then raiseIO (PgError (parse_error_text ''invalid schedule'' e))
             else raiseIO (PgError (''invalid schedule: '' @ message e)))
      | (Some _, parseError) \<Rightarrow>
          if connect \<noteq> SPI_OK_CONNECT then raiseIO (PgError ''could not connect to SPI'')
          else bindIO (SPI_execute (EvInsertJob scheduleChar query ''localhost'' (PostPortNumber ses)
                   (ses_database ses) (ses_user ses)) answer) (\<lambda>r.
            if spi_ret r \<noteq> SPI_OK_INSERT_RETURNING \<or> SPI_processed r \<noteq> 1 then
              raiseIO (PgError ''could not insert row into nedo_cron.jobs'')
            else (case spi_value r of
                None \<Rightarrow> raiseIO (PgError ''inserted nedo_cron.jobs row returned null jobid'')
              | Some jid \<Rightarrow> returnIO jid)))"

text \<open>\<open>UINT64_FORMAT\<close> prints the signed \<open>jobId\<close> as the unsigned number of the same bits.\<close>

definition unschedule_job :: "spi_code \<Rightarrow> spi_answer \<Rightarrow> int \<Rightarrow> bool step" where
  "unschedule_job connect answer jid =
     (if connect \<noteq> SPI_OK_CONNECT then raiseIO (PgError ''could not connect to SPI'')
      else bindIO (SPI_execute (EvDeleteJob jid) answer) (\<lambda>r.
        if spi_ret r \<noteq> SPI_OK_DELETE_RETURNING then
          raiseIO (PgError ''could not delete row from nedo_cron.jobs'')
        else if SPI_processed r \<noteq> 1 then
          raiseIO (PgError (''Cannot find current job '' @ show_int (jid mod 2 ^ 64)))
        else returnIO True))"

text \<open>
  The trigger asks the server to send a relcache invalidation for the jobs table, if the catalog
  still has its tuple; the result is the relation to invalidate.
\<close>

definition invalidate_job_cache_internal ::
  "pg_catalog \<Rightarrow> (int \<Rightarrow> bool) \<Rightarrow> ('jh, 'th) globals \<Rightarrow> fault + (('jh, 'th) globals \<times> int option)" where
  "invalidate_job_cache_internal cat in_syscache g =
     bindE (CronJobRelationId cat g) (\<lambda>(g', relid).
       Inr (g', if in_syscache relid then Some relid else None))"

definition invalidate_job_cache ::
  "bool \<Rightarrow> pg_catalog \<Rightarrow> (int \<Rightarrow> bool) \<Rightarrow> ('jh, 'th) globals \<Rightarrow> fault + (('jh, 'th) globals \<times> int option)" where
  "invalidate_job_cache called_as_trigger cat in_syscache g =
     (if \<not> called_as_trigger then Inl (PgError ''invalidate_job_cache must be called as a trigger'')
      else invalidate_job_cache_internal cat in_syscache g)"

section \<open>What a row loads as\<close>

definition row_job :: "strcasecmp \<Rightarrow> JobRow \<Rightarrow> CronJob option" where
  "row_job psc row = map_option (\<lambda>s. \<lparr> job_jobId = row_jobid row, scheduleText = row_schedule row, schedule = s,
       command = row_command row, nodeName = row_nodename row, nodePort = row_nodeport row,
       database = row_database row, userName = row_username row \<rparr>) (parse psc (Some (row_schedule row)))"

definition parsed_rows :: "strcasecmp \<Rightarrow> JobRow list \<Rightarrow> CronJob list" where
  "parsed_rows psc rows = List.map_filter (row_job psc) rows"

text \<open>The jobs by id; \<open>jobid\<close> is the primary key, and if it were not, the last row would win.\<close>

definition jobs_by_id :: "CronJob list \<Rightarrow> int \<Rightarrow> CronJob option" where
  "jobs_by_id jobs = map_of (rev (map (\<lambda>j. (job_jobId j, j)) jobs))"

lemma fst_parse_with_error: "fst (parse_with_error psc (Some cmd) e) = parse psc (Some cmd)"
  by (simp add: parse_def parse_with_error_spec)

lemma set_parse_error_cleared:
  "msg \<noteq> [] \<Longrightarrow> \<exists>er. set_parse_error (clear_parse_error (Some e)) fi ti tok msg = Some er \<and> message er \<noteq> []"
  by (simp add: set_parse_error_def clear_parse_error_def cdefs)

lemma fields_chain_cleared:
  assumes "fields_chain psc s fs (clear_parse_error (Some e)) = (False, s', e')"
  shows "\<exists>er. e' = Some er \<and> message er \<noteq> []"
  using fields_chain_reported [OF assms] by (auto simp: reported_def clear_parse_error_def)

lemma parse_with_error_fails:
  "parse_with_error psc (Some cmd) (Some e) = (None, e') \<Longrightarrow> \<exists>er. e' = Some er \<and> message er \<noteq> []"
  unfolding parse_with_error_def Let_def
  by (auto simp del: fields_chain.simps split: option.splits if_splits prod.splits
      dest: fields_chain_cleared intro: set_parse_error_cleared)

section \<open>The tables of the worker\<close>

text \<open>The two hash tables, one of jobs and one of tasks.\<close>

locale cron_tables = jobs: dynahash HJ + tasks: task_table HT
  for HJ :: "('jh, CronJob) dynahash_ops" and HT :: "('th, CronTask) dynahash_ops"
begin

lemma TupleToJob_spec:
  "\<exists>tbl'. snd (TupleToJob psc HJ tbl row) = Inr (tbl', row_job psc row)
     \<and> h_find HJ tbl' = (case row_job psc row of None \<Rightarrow> h_find HJ tbl | Some j \<Rightarrow> (h_find HJ tbl)(row_jobid row \<mapsto> j))"
proof -
  let ?r = "parse_with_error psc (Some (row_schedule row)) (Some raw_parse_error)"
  have f: "fst ?r = parse psc (Some (row_schedule row))" by (rule fst_parse_with_error)
  show ?thesis
  proof (cases "parse psc (Some (row_schedule row))")
    case None
    with f obtain e' where r: "?r = (None, e')" by (cases ?r) auto
    from parse_with_error_fails [OF r] None r show ?thesis
      by (auto simp: TupleToJob_def row_job_def io_simps)
  next
    case (Some s)
    with f obtain e' where r: "?r = (Some s, e')" by (cases ?r) auto
    obtain h e found where h: "h_enter HJ tbl (row_jobid row) = (h, e, found)" by (metis prod_cases3)
    show ?thesis
      using Some r h jobs.enter_store [OF h]
      by (cases e) (simp add: TupleToJob_def row_job_def io_simps Let_def)
  qed
qed

text \<open>The same with the effects: a row is loaded in silence or skipped with a warning.\<close>

lemma TupleToJob_loaded:
  assumes "row_job psc row = Some j"
  shows "\<exists>tbl'. TupleToJob psc HJ tbl row = ([], Inr (tbl', Some j)) \<and> h_find HJ tbl' = (h_find HJ tbl)(row_jobid row \<mapsto> j)"
proof -
  from assms obtain s where "parse psc (Some (row_schedule row)) = Some s" by (auto simp: row_job_def)
  then obtain e' where "parse_with_error psc (Some (row_schedule row)) (Some raw_parse_error) = (Some s, e')"
    by (metis fst_parse_with_error prod.collapse)
  then have "fst (TupleToJob psc HJ tbl row) = []"
    by (simp add: TupleToJob_def io_simps Let_def split: prod.split)
  with TupleToJob_spec [of psc tbl row] assms show ?thesis by (cases "TupleToJob psc HJ tbl row") auto
qed

lemma TupleToJob_skipped:
  assumes "row_job psc row = None"
  shows "\<exists>w. TupleToJob psc HJ tbl row = ([EvWarning w], Inr (tbl, None))"
proof -
  from assms have "parse psc (Some (row_schedule row)) = None" by (auto simp: row_job_def)
  then obtain e' where r: "parse_with_error psc (Some (row_schedule row)) (Some raw_parse_error) = (None, e')"
    by (metis fst_parse_with_error prod.collapse)
  from parse_with_error_fails [OF r] r show ?thesis by (auto simp: TupleToJob_def io_simps)
qed

lemma scan_rows_spec:
  "\<exists>tbl'. snd (scan_rows psc HJ tbl rows js) = Inr (tbl', js @ parsed_rows psc rows)
     \<and> h_find HJ tbl' = h_find HJ tbl ++ jobs_by_id (parsed_rows psc rows)"
proof (induction rows arbitrary: tbl js)
  case Nil
  show ?case by (simp add: io_simps parsed_rows_def jobs_by_id_def List.map_filter_def)
next
  case (Cons row rows)
  obtain tbl1 where t: "snd (TupleToJob psc HJ tbl row) = Inr (tbl1, row_job psc row)"
    and s: "h_find HJ tbl1 = (case row_job psc row of None \<Rightarrow> h_find HJ tbl | Some j \<Rightarrow> (h_find HJ tbl)(row_jobid row \<mapsto> j))"
    using TupleToJob_spec [of psc tbl row] by blast
  show ?case
    using Cons.IH [of tbl1 "case row_job psc row of None \<Rightarrow> js | Some j \<Rightarrow> js @ [j]"] t s
    by (cases "row_job psc row")
      (auto simp: bindIO_def parsed_rows_def jobs_by_id_def map_filter_simps row_job_def fun_eq_iff map_add_def
        split: option.split)
qed

lemma deactivate_find:
  "h_find HT (deactivate_tasks HT tbl) = (\<lambda>k. map_option (isActive_update (\<lambda>_. False)) (h_find HT tbl k))"
  unfolding deactivate_tasks_def
  using tasks.fold_store [of "h_seq HT tbl" tbl "\<lambda>k t. t\<lparr> isActive := False \<rparr>"] tasks.seq [of tbl]
  by (auto simp: fun_eq_iff domIff)

lemma activate_find:
  "case h_find HT tbl k of
     Some t \<Rightarrow> h_find HT (activate_tasks HT js tbl) k = Some (if k \<in> job_jobId ` set js then t\<lparr> isActive := True \<rparr> else t)
   | None \<Rightarrow> if k \<in> job_jobId ` set js then \<exists>t. h_find HT (activate_tasks HT js tbl) k = Some t \<and> fresh_task t k
            else h_find HT (activate_tasks HT js tbl) k = None"
proof (induction js arbitrary: tbl)
  case Nil
  show ?case by (simp add: activate_tasks_def split: option.split)
next
  case (Cons j js)
  obtain tbl1 t where g: "getCronTask HT tbl (job_jobId j) = (tbl1, t)"
    by (cases "getCronTask HT tbl (job_jobId j)")
  note f = tasks.find_getCronTask [OF g]
  let ?tbl = "h_store HT tbl1 (job_jobId j) (t\<lparr> isActive := True \<rparr>)"
  have s: "h_find HT ?tbl = (h_find HT tbl)(job_jobId j \<mapsto> t\<lparr> isActive := True \<rparr>)"
    using f by (subst tasks.store) auto
  have a: "activate_tasks HT (j # js) tbl = activate_tasks HT js ?tbl"
    using g by (simp add: activate_tasks_def)
  have fr: "fresh_task t k \<Longrightarrow> fresh_task (t\<lparr> isActive := True \<rparr>) k" for k
    by (simp add: fresh_task_def)
  show ?case
    using Cons.IH [of ?tbl] f fr unfolding a s
    by (cases "k = job_jobId j") (auto split: option.splits if_splits)
qed

end

interpretation alist_tables: cron_tables "alist_hash gj" "alist_hash gt" for gj :: CronJob and gt :: CronTask
  by unfold_locales

section \<open>Properties of loading\<close>

text \<open>The rows that a reload sees: none unless the extension is there and the server is not in recovery.\<close>

definition visible_rows :: "pg_catalog \<Rightarrow> ('jh, 'th) globals \<Rightarrow> (int \<times> JobRow list) option" where
  "visible_rows cat g =
     (if cat_recovery cat \<or> \<not> CronLoaded cat then Some (CachedCronJobRealtionId g, [])
      else (case CronJobRelationId cat g of Inl f \<Rightarrow> None
            | Inr (g', relid) \<Rightarrow> map_option (Pair relid) (cat_rows cat relid)))"

definition job_of :: "('jh, CronJob) dynahash_ops \<Rightarrow> ('jh, 'th) globals \<Rightarrow> int \<Rightarrow> CronJob option" where
  "job_of HJ g jid = getCronJob HJ (CronJobHashTable g) jid"

definition task_of :: "('th, CronTask) dynahash_ops \<Rightarrow> ('jh, 'th) globals \<Rightarrow> int \<Rightarrow> CronTask option" where
  "task_of HT g jid = h_find HT (CronTaskHashTable g) jid"

text \<open>What a reload makes of one task slot, \<open>present\<close> saying whether the job was loaded.\<close>

definition reloaded_task :: "bool \<Rightarrow> int \<Rightarrow> CronTask option \<Rightarrow> CronTask option \<Rightarrow> bool" where
  "reloaded_task present jid before after =
     (case before of
        Some t \<Rightarrow> after = Some (t\<lparr> isActive := present \<rparr>)
      | None \<Rightarrow> (if present then \<exists>t. after = Some t \<and> fresh_task t jid else after = None))"

context cron_tables
begin

lemma ReloadCronJobs_spec:
  assumes "visible_rows cat g = Some (relid, rows)"
  shows "\<exists>g'. snd (ReloadCronJobs psc HJ HT cat g) = Inr g'
     \<and> job_of HJ g' = jobs_by_id (parsed_rows psc rows)
     \<and> (\<forall>jid. reloaded_task (jid \<in> job_jobId ` set (parsed_rows psc rows)) jid (task_of HT g jid) (task_of HT g' jid))
     \<and> CronJobCacheValid g'
     \<and> (\<exists>jt tt. g' = g\<lparr> CronJobHashTable := jt, CronTaskHashTable := tt, CronJobCacheValid := True,
          CachedCronJobRealtionId := relid \<rparr>)"
proof -
  let ?tt = "deactivate_tasks HT (CronTaskHashTable g)"
  let ?g1 = "g\<lparr> CronJobHashTable := CreateCronJobHashTable HJ, CronTaskHashTable := ?tt \<rparr>"
  let ?js = "parsed_rows psc rows"
  have "\<exists>jt. snd (LoadJobsList psc HJ cat ?g1)
      = Inr (?g1\<lparr> CronJobHashTable := jt, CachedCronJobRealtionId := relid \<rparr>, ?js) \<and> h_find HJ jt = jobs_by_id ?js"
  proof (cases "cat_recovery cat \<or> \<not> CronLoaded cat")
    case True
    then have "relid = CachedCronJobRealtionId g" "rows = []" using assms by (auto simp: visible_rows_def)
    then show ?thesis
      using True by (intro exI [where x = "h_create HJ"])
        (auto simp: LoadJobsList_def io_simps bindIO_def parsed_rows_def jobs_by_id_def
          List.map_filter_def CreateCronJobHashTable_def jobs.find_create fun_eq_iff)
  next
    case False
    then obtain g0 where r: "CronJobRelationId cat g = Inr (g0, relid)" and rows: "cat_rows cat relid = Some rows"
      using assms by (auto simp: visible_rows_def split: sum.splits)
    from r have r1: "CronJobRelationId cat ?g1 = Inr (?g1\<lparr> CachedCronJobRealtionId := relid \<rparr>, relid)"
      by (auto simp: CronJobRelationId_def Let_def split: if_splits)
    obtain jt where sc: "snd (scan_rows psc HJ (CreateCronJobHashTable HJ) rows []) = Inr (jt, ?js)"
      and f: "h_find HJ jt = h_find HJ (CreateCronJobHashTable HJ) ++ jobs_by_id ?js"
      using scan_rows_spec [of psc "CreateCronJobHashTable HJ" rows "[]"] by auto
    have "h_find HJ jt = jobs_by_id ?js"
      unfolding f by (simp add: CreateCronJobHashTable_def jobs.find_create fun_eq_iff map_add_def split: option.split)
    with False r1 rows sc show ?thesis
      by (intro exI [where x = jt]) (simp add: LoadJobsList_def io_simps bindIO_def)
  qed
  then obtain jt where l: "snd (LoadJobsList psc HJ cat ?g1)
      = Inr (?g1\<lparr> CronJobHashTable := jt, CachedCronJobRealtionId := relid \<rparr>, ?js)"
    and jt: "h_find HJ jt = jobs_by_id ?js" by blast
  let ?g' = "g\<lparr> CronJobHashTable := jt, CronTaskHashTable := activate_tasks HT ?js ?tt, CronJobCacheValid := True,
      CachedCronJobRealtionId := relid \<rparr>"
  have s: "snd (ReloadCronJobs psc HJ HT cat g) = Inr ?g'"
    using l by (simp add: ReloadCronJobs_def Let_def bindIO_def io_simps)
  have "reloaded_task (jid \<in> job_jobId ` set ?js) jid (task_of HT g jid) (task_of HT ?g' jid)" for jid
    using activate_find [of jid ?js ?tt]
    by (auto simp: reloaded_task_def task_of_def deactivate_find split: option.splits)
  moreover have "job_of HJ ?g' = jobs_by_id ?js" by (simp add: job_of_def getCronJob_def jt fun_eq_iff)
  ultimately show ?thesis using s by auto
qed

end

text \<open>
  C11: ReloadCronJobs (src/cron_job.c), over any hash tables that meet their contract. If the jobs
  table can be read, it returns with the cache valid; the job table holds exactly the rows whose
  schedule parses, each with its parsed schedule (rows that do not parse are left out, with a
  warning); each existing task keeps its whole run state and only has its active flag set to whether
  its job was loaded; each loaded job without a task gets a fresh one; no other task appears; and
  besides the cached relation id no other variable changes. Without the extension or in recovery the
  same holds for no rows at all.
\<close>

theorem ReloadCronJobs_correct:
  assumes "cron_tables HJ HT" and "visible_rows cat g = Some (relid, rows)"
  shows "\<exists>g'. snd (ReloadCronJobs psc HJ HT cat g) = Inr g'
     \<and> job_of HJ g' = jobs_by_id (parsed_rows psc rows)
     \<and> (\<forall>jid. reloaded_task (jid \<in> job_jobId ` set (parsed_rows psc rows)) jid (task_of HT g jid) (task_of HT g' jid))
     \<and> CronJobCacheValid g'
     \<and> (\<exists>jt tt. g' = g\<lparr> CronJobHashTable := jt, CronTaskHashTable := tt, CronJobCacheValid := True,
          CachedCronJobRealtionId := relid \<rparr>)"
  using assms by (rule cron_tables.ReloadCronJobs_spec)

definition raw_job :: CronJob where
  "raw_job = \<lparr> job_jobId = 99, scheduleText = ''junk'', schedule = empty_schedule, command = ''junk'',
     nodeName = ''junk'', nodePort = 1, database = ''junk'', userName = ''junk'' \<rparr>"

definition example_globals :: "((int \<times> CronJob) list, (int \<times> CronTask) list) globals" where
  "example_globals = \<lparr> CronJobHashTable = [], CronTaskHashTable = [(3, InitCronTask raw_task 3)],
     CronJobCacheValid = False, CachedCronJobRealtionId = 0, CronJobRelcacheCallbackRegistered = False,
     CronJobRelcacheOid = 0, sighupFlag = False, sigtermFlag = False, lastMinute = 0,
     lastJobReloadTime = 0, TaskTimeout = 10000, maxPendingTasks = 20, StatementTimeoutMs = 10000 \<rparr>"

definition example_row :: "int \<Rightarrow> string \<Rightarrow> JobRow" where
  "example_row jid sched = \<lparr> row_jobid = jid, row_schedule = sched, row_command = ''SELECT 1'',
     row_nodename = ''localhost'', row_nodeport = 5432, row_database = ''postgres'', row_username = ''alice'' \<rparr>"

definition example_catalog :: "JobRow list option \<Rightarrow> pg_catalog" where
  "example_catalog rows = \<lparr> cat_recovery = False, cat_extension = 16384, cat_creating = False,
     cat_current_extension = 0, cat_namespace = 16385, cat_relid = (\<lambda>n. 16390), cat_rows = (\<lambda>r. rows) \<rparr>"

lemma parse_5_seconds:
  "parse psc (Some ''5 seconds'') = Some (empty_schedule\<lparr> SECONDS := True, secondsInterval := 5 \<rparr>)"
  by (simp add: parse_def parse_with_error_def clear_parse_error_def str_split_def charArrayLength_def
      parse_integer_digits char_eval cdefs)

lemma parse_bad_dow: "parse ascii_strcasecmp (Some ''* * * * 8'') = None"
proof -
  have "read_schedule ascii_strcasecmp ''* * * * 8''
     = Some (AstFields [ItStar] [ItStar] [ItStar] [ItStar] [ItSingle 8])"
    by (simp add: read_eval)
  then show ?thesis by (simp add: parse_def parse_with_error_spec lower_def upper_def)
qed

lemma example_rows:
  "job_jobId ` set (parsed_rows ascii_strcasecmp [example_row 1 ''5 seconds'', example_row 2 ''* * * * 8'']) = {1}"
  by (simp add: parsed_rows_def map_filter_simps row_job_def example_row_def parse_5_seconds parse_bad_dow)

lemma example_visible: "visible_rows (example_catalog (Some rows)) example_globals = Some (16390, rows)"
  by (simp add: visible_rows_def example_catalog_def example_globals_def CronLoaded_def CronJobRelationId_def Let_def)

theorem ReloadCronJobs_correct_witness:
  "\<exists>g'. snd (ReloadCronJobs ascii_strcasecmp (alist_hash raw_job) (alist_hash raw_task)
        (example_catalog (Some [example_row 1 ''5 seconds'', example_row 2 ''* * * * 8''])) example_globals) = Inr g'
     \<and> task_of (alist_hash raw_task) g' 3 = Some (InitCronTask raw_task 3\<lparr> isActive := False \<rparr>)
     \<and> task_of (alist_hash raw_task) g' 2 = None"
proof -
  have t: "task_of (alist_hash raw_task) example_globals 3 = Some (InitCronTask raw_task 3)"
    "task_of (alist_hash raw_task) example_globals 2 = None"
    by (simp_all add: task_of_def example_globals_def alist_hash_def)
  obtain g' where "snd (ReloadCronJobs ascii_strcasecmp (alist_hash raw_job) (alist_hash raw_task)
        (example_catalog (Some [example_row 1 ''5 seconds'', example_row 2 ''* * * * 8''])) example_globals) = Inr g'"
    and "\<forall>jid. reloaded_task (jid \<in> {1}) jid (task_of (alist_hash raw_task) example_globals jid) (task_of (alist_hash raw_task) g' jid)"
    using ReloadCronJobs_correct [OF alist_tables.cron_tables_axioms example_visible] unfolding example_rows [symmetric]
    by blast
  moreover from this(2) [rule_format, of 3] this(2) [rule_format, of 2]
  have "task_of (alist_hash raw_task) g' 3 = Some (InitCronTask raw_task 3\<lparr> isActive := False \<rparr>)"
    "task_of (alist_hash raw_task) g' 2 = None"
    by (simp_all add: reloaded_task_def t)
  ultimately show ?thesis by blast
qed

text \<open>
  The tables agree: keys are ids, a task is active exactly if its job is loaded, and every loaded
  job has a task.
\<close>

definition tables_agree ::
  "('jh, CronJob) dynahash_ops \<Rightarrow> ('th, CronTask) dynahash_ops \<Rightarrow> ('jh, 'th) globals \<Rightarrow> bool" where
  "tables_agree HJ HT g =
     ((\<forall>jid j. job_of HJ g jid = Some j \<longrightarrow> job_jobId j = jid \<and> task_of HT g jid \<noteq> None)
      \<and> (\<forall>jid t. task_of HT g jid = Some t \<longrightarrow> jobId t = jid \<and> (isActive t \<longleftrightarrow> job_of HJ g jid \<noteq> None)))"

lemma jobs_by_id_Some: "jobs_by_id js jid = Some j \<Longrightarrow> j \<in> set js \<and> job_jobId j = jid"
  by (auto simp: jobs_by_id_def dest: map_of_SomeD)

lemma jobs_by_id_None: "jobs_by_id js jid = None \<longleftrightarrow> jid \<notin> job_jobId ` set js"
  by (auto simp: jobs_by_id_def map_of_eq_None_iff image_image)

context cron_tables
begin

lemma reload_tables_agree:
  assumes "snd (ReloadCronJobs psc HJ HT cat g) = Inr g'" and "visible_rows cat g = Some (relid, rows)"
    and "\<And>jid t. task_of HT g jid = Some t \<Longrightarrow> jobId t = jid"
  shows "tables_agree HJ HT g'"
proof -
  let ?ids = "job_jobId ` set (parsed_rows psc rows)"
  from ReloadCronJobs_spec [OF assms(2), of psc] assms(1) have
    jobs: "job_of HJ g' = jobs_by_id (parsed_rows psc rows)" and
    tasks: "reloaded_task (jid \<in> ?ids) jid (task_of HT g jid) (task_of HT g' jid)" for jid
    by auto
  have j: "job_of HJ g' jid \<noteq> None \<longleftrightarrow> jid \<in> ?ids" for jid
    using jobs_by_id_None [of "parsed_rows psc rows" jid] by (auto simp: jobs)
  have t: "jid \<in> ?ids \<Longrightarrow> task_of HT g' jid \<noteq> None" for jid
    using tasks [of jid] by (auto simp: reloaded_task_def split: option.splits)
  have a: "jobId t = jid \<and> (isActive t \<longleftrightarrow> jid \<in> ?ids)" if "task_of HT g' jid = Some t" for jid t
    using tasks [of jid] that assms(3) [of jid]
    by (auto simp: reloaded_task_def fresh_task_def split: option.splits if_splits)
  show ?thesis
    unfolding tables_agree_def
    using j t a jobs_by_id_Some [of "parsed_rows psc rows"] by (auto simp: jobs)
qed

end

text \<open>
  after ReloadCronJobs (src/cron_job.c) the two tables agree, whatever the job table and the
  active flags were before: a task is active exactly if its job is loaded, and every loaded job has
  a task under its id.
\<close>

theorem ReloadCronJobs_agree:
  assumes "cron_tables HJ HT" and "snd (ReloadCronJobs psc HJ HT cat g) = Inr g'"
    and "visible_rows cat g = Some (relid, rows)"
    and "\<And>jid t. task_of HT g jid = Some t \<Longrightarrow> jobId t = jid"
  shows "tables_agree HJ HT g'"
  using assms by (rule cron_tables.reload_tables_agree)

lemma example_reload:
  "\<exists>g'. snd (ReloadCronJobs ascii_strcasecmp (alist_hash raw_job) (alist_hash raw_task)
        (example_catalog (Some rows)) example_globals) = Inr g'"
  using alist_tables.ReloadCronJobs_spec [OF example_visible] by blast

lemma example_task_ids: "task_of (alist_hash raw_task) example_globals jid = Some t \<Longrightarrow> jobId t = jid"
  by (auto simp: task_of_def example_globals_def alist_hash_def InitCronTask_def split: if_splits)

theorem ReloadCronJobs_agree_witness:
  "\<exists>g'. snd (ReloadCronJobs ascii_strcasecmp (alist_hash raw_job) (alist_hash raw_task)
        (example_catalog (Some [example_row 1 ''5 seconds''])) example_globals) = Inr g'
     \<and> tables_agree (alist_hash raw_job) (alist_hash raw_task) g'"
  using example_reload [of "[example_row 1 ''5 seconds'']"]
    ReloadCronJobs_agree [OF alist_tables.cron_tables_axioms _ example_visible example_task_ids] by blast

text \<open>
  C29: the relation id that CronJobRelationId (src/cron_job.c) caches is never looked up again. Once
  it is set, a reload that finds the extension loaded and out of recovery opens that very relation:
  if the extension was dropped and created anew, so that the cached relation does not exist any
  more, ReloadCronJobs raises an error, which ends the worker, although the catalog knows the new
  jobs table.
\<close>

theorem stale_relation_id:
  assumes "CachedCronJobRealtionId g = old" and "old \<noteq> 0" and "cat_rows cat old = None"
    and "CronLoaded cat" and "\<not> cat_recovery cat"
  shows "snd (ReloadCronJobs psc HJ HT cat g) = Inl (PgError (''could not open relation with OID '' @ show_int old))
     \<and> CronJobRelationId cat g = Inr (g, old)"
  using assms by (simp add: ReloadCronJobs_def LoadJobsList_def CronJobRelationId_def Let_def io_simps bindIO_def)

theorem stale_relation_id_witness:
  "snd (ReloadCronJobs ascii_strcasecmp (alist_hash raw_job) (alist_hash raw_task)
      (example_catalog None\<lparr> cat_rows := (\<lambda>r. if r = 16390 then Some [] else None) \<rparr>)
      (example_globals\<lparr> CachedCronJobRealtionId := 16000 \<rparr>))
    = Inl (PgError (''could not open relation with OID '' @ show_int 16000))"
  using stale_relation_id [of "example_globals\<lparr> CachedCronJobRealtionId := 16000 \<rparr>" 16000
      "example_catalog None\<lparr> cat_rows := (\<lambda>r. if r = 16390 then Some [] else None) \<rparr>" ascii_strcasecmp
      "alist_hash raw_job" "alist_hash raw_task"]
  by (simp add: example_catalog_def CronLoaded_def)

section \<open>Properties of the SQL functions\<close>

definition valid_schedule :: "strcasecmp \<Rightarrow> string \<Rightarrow> bool" where
  "valid_schedule psc s = (case read_schedule psc s of Some ast \<Rightarrow> ast_valid ast | None \<Rightarrow> False)"

lemma valid_schedule_parse: "valid_schedule psc s \<longleftrightarrow> parse psc (Some s) \<noteq> None"
  by (auto simp: valid_schedule_def parse_def parse_with_error_spec split: option.splits)

lemma schedule_job_accepts:
  assumes "parse psc (Some sched) = Some s"
  shows "schedule_job psc ses connect answer sched query =
     (if connect \<noteq> SPI_OK_CONNECT then ([], Inl (PgError ''could not connect to SPI''))
      else bindIO (SPI_execute (EvInsertJob sched query ''localhost'' (PostPortNumber ses) (ses_database ses) (ses_user ses)) answer)
        (\<lambda>r. if spi_ret r \<noteq> SPI_OK_INSERT_RETURNING \<or> SPI_processed r \<noteq> 1 then
               raiseIO (PgError ''could not insert row into nedo_cron.jobs'')
             else (case spi_value r of
                None \<Rightarrow> raiseIO (PgError ''inserted nedo_cron.jobs row returned null jobid'')
              | Some jid \<Rightarrow> returnIO jid)))"
proof (cases "parse_with_error psc (Some sched) (Some raw_parse_error)")
  case (Pair r e)
  then have "r = Some s" using assms by (metis fst_conv fst_parse_with_error)
  with Pair show ?thesis by (simp add: schedule_job_def io_simps)
qed

lemma schedule_job_refuses:
  assumes "parse psc (Some sched) = None"
  shows "\<exists>text. schedule_job psc ses connect answer sched query = ([], Inl (PgError (''invalid schedule'' @ text)))"
proof -
  from assms obtain e' where r: "parse_with_error psc (Some sched) (Some raw_parse_error) = (None, e')"
    by (metis fst_parse_with_error prod.collapse)
  from parse_with_error_fails [OF r] obtain er where "e' = Some er" by blast
  with r show ?thesis by (auto simp: schedule_job_def io_simps parse_error_text_def)
qed

text \<open>
  C21: nedo_cron.schedule, schedule_job in src/cron_job.c, with a working SPI whose insert returns
  one row. It returns the new id exactly when the schedule reads as a valid schedule, having run one
  insert with the two arguments, localhost, the server's port, the current database and the current
  user. Any other schedule raises an error whose text begins with the words invalid schedule, and
  nothing is executed.
\<close>

theorem schedule_job_correct:
  "if valid_schedule psc sched
   then schedule_job psc ses SPI_OK_CONNECT (inserted jid) sched query =
        ([EvInsertJob sched query ''localhost'' (PostPortNumber ses) (ses_database ses) (ses_user ses)], Inr jid)
   else \<exists>text. schedule_job psc ses SPI_OK_CONNECT (inserted jid) sched query
          = ([], Inl (PgError (''invalid schedule'' @ text)))"
proof (cases "parse psc (Some sched)")
  case None
  with schedule_job_refuses [OF None] show ?thesis by (simp add: valid_schedule_parse)
next
  case (Some s)
  then show ?thesis
    by (simp add: valid_schedule_parse schedule_job_accepts inserted_def step_simps)
qed

text \<open>Rejecting 8 as a day of the week, whatever the schedule so far, and accepting a star.\<close>

lemma show_digits: "show_int 0 = ''0''" "show_int 5 = ''5''" "show_int 7 = ''7''"
  by (simp_all add: show_int_def show_nat.simps digit_char_def char_of_def bit_0)

lemma parse_dow_8:
  "parse_cron_field psc s (Some ''8'') CRON_DOW 5 (Some e) =
     (False, s, Some (e\<lparr> fieldIndex := 5, tokenIndex := 1, token := ''8'', message := ''day-of-week must be 0-7'' \<rparr>))"
  by (simp add: parse_cron_field_def parser_simps parse_field_item_def parse_field_value_def set_field_value_def
      set_parse_error_def parse_integer_digits char_eval show_digits cdefs)

lemma parse_star_field: "\<exists>s'. parse_cron_field psc s (Some ''*'') t fi e = (True, s', e)"
proof (cases rule: parse_cron_field_cases [of psc t "''*''" s fi e])
  case (bad s' e')
  have "read_field psc t ''*'' = Some [ItStar]" by (simp add: read_field_def read_item_def)
  with bad(1) show ?thesis by simp
qed blast

lemma parse_readme_error:
  "parse_with_error psc (Some ''* * * * 8'') (Some raw_parse_error) =
    (None, Some \<lparr> message = ''day-of-week must be 0-7'', token = ''8'', fieldIndex = 5, tokenIndex = 1 \<rparr>)"
proof -
  let ?e = "Some \<lparr> message = [], token = [], fieldIndex = 0, tokenIndex = 0 \<rparr>"
  obtain s1 s2 s3 s4 where s:
    "parse_cron_field psc empty_schedule (Some ''*'') CRON_MINUTE 1 ?e = (True, s1, ?e)"
    "parse_cron_field psc s1 (Some ''*'') CRON_HOUR 2 ?e = (True, s2, ?e)"
    "parse_cron_field psc s2 (Some ''*'') CRON_DOM 3 ?e = (True, s3, ?e)"
    "parse_cron_field psc s3 (Some ''*'') CRON_M 4 ?e = (True, s4, ?e)"
    using parse_star_field by metis
  show ?thesis
    by (simp add: parse_with_error_def clear_parse_error_def raw_parse_error_def str_split_def charArrayLength_def
        Let_def s parse_dow_8 eval_nat_numeral)
qed

text \<open>
  C22: the three users of the parser agree, both ways. nedo_cron.check_schedule is true of exactly the
  valid schedules. If it is true of the schedule of a row, then nedo_cron.schedule with that text and
  a working SPI returns the id of the inserted row, and TupleToJob (src/cron_job.c) loads the row,
  without a warning, as a job with the parsed schedule and the columns of the row, under its id, and
  leaves the other jobs alone. If it is false, then nedo_cron.schedule raises an error whatever SPI
  answers, and TupleToJob skips the row with one warning and leaves the table of jobs as it is.
\<close>

theorem accepted_schedule_loads:
  assumes "cron_tables HJ (HT :: ('th, CronTask) dynahash_ops)"
  shows "(check_schedule psc (row_schedule row) \<longleftrightarrow> valid_schedule psc (row_schedule row))
     \<and> (if check_schedule psc (row_schedule row)
        then snd (schedule_job psc ses SPI_OK_CONNECT (inserted jid) (row_schedule row) query) = Inr jid
          \<and> (\<exists>tbl' j. TupleToJob psc HJ tbl row = ([], Inr (tbl', Some j))
               \<and> h_find HJ tbl' = (h_find HJ tbl)(row_jobid row \<mapsto> j)
               \<and> parse psc (Some (row_schedule row)) = Some (schedule j)
               \<and> job_jobId j = row_jobid row \<and> scheduleText j = row_schedule row \<and> command j = row_command row
               \<and> nodeName j = row_nodename row \<and> nodePort j = row_nodeport row
               \<and> database j = row_database row \<and> userName j = row_username row)
        else (\<forall>connect answer. \<exists>m. schedule_job psc ses connect answer (row_schedule row) query = ([], Inl (PgError m)))
          \<and> (\<exists>w. TupleToJob psc HJ tbl row = ([EvWarning w], Inr (tbl, None))))"
proof (cases "parse psc (Some (row_schedule row))")
  case None
  then have "row_job psc row = None" by (simp add: row_job_def)
  from cron_tables.TupleToJob_skipped [OF assms this, of tbl] schedule_job_refuses [OF None] None show ?thesis
    by (simp add: check_schedule_def valid_schedule_parse) blast
next
  case (Some s)
  then obtain j where j: "row_job psc row = Some j" by (simp add: row_job_def)
  with Some have s: "s = schedule j" by (auto simp: row_job_def)
  have c: "job_jobId j = row_jobid row" "scheduleText j = row_schedule row" "command j = row_command row"
      "nodeName j = row_nodename row" "nodePort j = row_nodeport row" "database j = row_database row"
      "userName j = row_username row"
    using j by (auto simp: row_job_def)
  obtain tbl' where "TupleToJob psc HJ tbl row = ([], Inr (tbl', Some j))" "h_find HJ tbl' = (h_find HJ tbl)(row_jobid row \<mapsto> j)"
    using cron_tables.TupleToJob_loaded [OF assms j, of tbl] by blast
  with Some s c show ?thesis
    by (simp add: check_schedule_def valid_schedule_parse schedule_job_accepts [OF Some] inserted_def step_simps)
qed

theorem accepted_schedule_loads_witness:
  "check_schedule ascii_strcasecmp ''5 seconds''
   \<and> (\<exists>tbl' j. TupleToJob ascii_strcasecmp (alist_hash raw_job) [] (example_row 1 ''5 seconds'') = ([], Inr (tbl', Some j))
        \<and> SECONDS (schedule j) \<and> secondsInterval (schedule j) = 5)
   \<and> \<not> check_schedule ascii_strcasecmp ''* * * * 8''
   \<and> (\<exists>w. TupleToJob ascii_strcasecmp (alist_hash raw_job) [] (example_row 2 ''* * * * 8'') = ([EvWarning w], Inr ([], None)))"
proof -
  let ?row = "example_row 1 ''5 seconds''" and ?bad = "example_row 2 ''* * * * 8''"
  have good: "row_schedule ?row = ''5 seconds''" "row_schedule ?bad = ''* * * * 8''" by (simp_all add: example_row_def)
  have y: "check_schedule ascii_strcasecmp ''5 seconds''" by (simp add: check_schedule_def parse_5_seconds)
  have n: "\<not> check_schedule ascii_strcasecmp ''* * * * 8''"
    by (simp add: check_schedule_def parse_readme_error flip: fst_parse_with_error [of _ _ "Some raw_parse_error"])
  from accepted_schedule_loads [OF alist_tables.cron_tables_axioms, of ascii_strcasecmp ?row _ _ _ raw_job "[]"] y
  obtain tbl' j where t: "TupleToJob ascii_strcasecmp (alist_hash raw_job) [] ?row = ([], Inr (tbl', Some j))"
    and p: "parse ascii_strcasecmp (Some ''5 seconds'') = Some (schedule j)"
    by (simp only: good if_True) blast
  from p have e: "schedule j = empty_schedule\<lparr> SECONDS := True, secondsInterval := 5 \<rparr>" by (simp add: parse_5_seconds)
  have "\<exists>tbl' j. TupleToJob ascii_strcasecmp (alist_hash raw_job) [] ?row = ([], Inr (tbl', Some j))
        \<and> SECONDS (schedule j) \<and> secondsInterval (schedule j) = 5"
    by (intro exI conjI, rule t) (simp_all add: e)
  moreover from accepted_schedule_loads [OF alist_tables.cron_tables_axioms, of ascii_strcasecmp ?bad _ _ _ raw_job "[]"] n
  have "\<exists>w. TupleToJob ascii_strcasecmp (alist_hash raw_job) [] ?bad = ([EvWarning w], Inr ([], None))"
    by (simp add: good)
  ultimately show ?thesis using y n by blast
qed

text \<open>
  C32: the error example of README.md: nedo_cron.schedule on five fields with 8 as the day of the week
  raises exactly the documented text, with the field number, the token and the reason, and executes
  nothing.
\<close>

theorem schedule_readme_error:
  "schedule_job psc ses connect answer ''* * * * 8'' query
     = ([], Inl (PgError ''invalid schedule at field 5 near \"8\": day-of-week must be 0-7''))"
  by (simp add: schedule_job_def parse_readme_error parse_error_text_def io_simps show_digits)

text \<open>
  nedo_cron.unschedule, unschedule_job in src/cron_job.c, deletes by the id it was given and is
  true exactly when the server deleted one row; deleting nothing, or a failing statement, raises an
  error, and it never returns false.
\<close>

theorem unschedule_job_correct:
  "(snd (unschedule_job SPI_OK_CONNECT answer jid) = Inr b) \<longleftrightarrow>
     (b \<and> (\<exists>r. answer = Inr r \<and> spi_ret r = SPI_OK_DELETE_RETURNING \<and> SPI_processed r = 1))"
  by (cases answer) (auto simp: unschedule_job_def step_simps)

end
