(* ===== verification/Calendar.thy ===== *)
theory Calendar
  imports Prelude
begin

text \<open>
  The broken-down UTC time of the C library: \<open>struct tm\<close> and \<open>gmtime\<close>, in the proleptic Gregorian
  calendar. The date is found by walking over whole years from 1970 and then over the months of
  the year; \<open>year_start\<close> is the closed form that the correctness lemmas compare it with.
\<close>

section \<open>gmtime\<close>

record tm =
  tm_sec :: int
  tm_min :: int
  tm_hour :: int
  tm_mday :: int
  tm_mon :: int
  tm_year :: int
  tm_wday :: int
  tm_yday :: int

definition leap :: "int \<Rightarrow> bool" where
  "leap y = (4 dvd y \<and> (\<not> 100 dvd y \<or> 400 dvd y))"

definition year_days :: "int \<Rightarrow> int" where
  "year_days y = (if leap y then 366 else 365)"

definition month_lengths :: "int \<Rightarrow> int list" where
  "month_lengths y = [31, if leap y then 29 else 28, 31, 30, 31, 30, 31, 31, 30, 31, 30, 31]"

text \<open>From a year and a day number counted from its first day to the year that holds the day.\<close>

function civil_year :: "int \<Rightarrow> int \<Rightarrow> int \<times> int" where
  "civil_year y d =
     (if d < 0 then civil_year (y - 1) (d + year_days (y - 1))
      else if year_days y \<le> d then civil_year (y + 1) (d - year_days y)
      else (y, d))"
  by pat_completeness auto
termination
  by (relation "measure (\<lambda>(y, d). if d < 0 then nat (400 - d) else nat d)")
    (auto simp: year_days_def split: if_splits)

declare civil_year.simps [simp del]

fun civil_month :: "int list \<Rightarrow> int \<Rightarrow> int \<Rightarrow> int \<times> int" where
  "civil_month [] m d = (m, d + 1)"
| "civil_month [l] m d = (m, d + 1)"
| "civil_month (l # ls) m d = (if d < l then (m, d + 1) else civil_month ls (m + 1) (d - l))"

definition gmtime :: "int \<Rightarrow> tm" where
  "gmtime t =
     (let days = t div 86400; s = t mod 86400;
          (y, yd) = civil_year 1970 days;
          (m, d) = civil_month (month_lengths y) 0 yd
      in \<lparr> tm_sec = s mod 60, tm_min = s div 60 mod 60, tm_hour = s div 3600, tm_mday = d, tm_mon = m,
           tm_year = y - 1900, tm_wday = (days + 4) mod 7, tm_yday = yd \<rparr>)"

section \<open>The years\<close>

definition year_start :: "int \<Rightarrow> int" where
  "year_start y = 365 * (y - 1970) + ((y - 1) div 4 - (y - 1) div 100 + (y - 1) div 400) - 477"

lemma year_start_1970 [simp]: "year_start 1970 = 0"
  by (simp add: year_start_def)

lemma div_pred: "0 < k \<Longrightarrow> y div k = (y - 1) div k + (if k dvd y then 1 else 0)" for y k :: int
proof -
  assume k: "0 < k"
  show ?thesis
  proof (cases "k dvd y")
    case True
    then obtain q where y: "y = k * q" by blast
    have "(k * q - 1) div k = q - 1"
      by (rule int_div_pos_eq [where r = "k - 1"]) (use k in \<open>auto simp: algebra_simps\<close>)
    with True y k show ?thesis by simp
  next
    case False
    have "y mod k \<noteq> 0" using False by (simp add: dvd_eq_mod_eq_0)
    with pos_mod_sign [OF k, of y] pos_mod_bound [OF k, of y]
    have m: "0 < y mod k" "y mod k < k" by linarith+
    have "(y - 1) div k = y div k"
    proof (rule int_div_pos_eq [where r = "y mod k - 1"])
      show "y - 1 = k * (y div k) + (y mod k - 1)" using mult_div_mod_eq [of k y] by linarith
    qed (use m in auto)
    with False show ?thesis by simp
  qed
qed

lemma year_start_Suc: "year_start (y + 1) = year_start y + year_days y"
proof -
  let ?e = "\<lambda>k :: int. if k dvd y then 1 else 0 :: int"
  have d: "400 dvd y \<Longrightarrow> 100 dvd y" "100 dvd y \<Longrightarrow> 4 dvd y" by presburger+
  then consider "400 dvd y" "100 dvd y" "4 dvd y" | "\<not> 400 dvd y" "100 dvd y" "4 dvd y"
    | "\<not> 400 dvd y" "\<not> 100 dvd y" "4 dvd y" | "\<not> 400 dvd y" "\<not> 100 dvd y" "\<not> 4 dvd y" by blast
  then have "year_days y = 365 + ?e 4 - ?e 100 + ?e 400"
    by cases (simp_all add: year_days_def leap_def)
  moreover have "year_start (y + 1) = 365 * (y - 1970) + 365 + (y div 4 - y div 100 + y div 400) - 477"
    by (simp add: year_start_def)
  moreover have "y div 4 = (y - 1) div 4 + ?e 4" "y div 100 = (y - 1) div 100 + ?e 100"
    "y div 400 = (y - 1) div 400 + ?e 400"
    by (rule div_pred, simp)+
  ultimately show ?thesis unfolding year_start_def by linarith
qed

lemma year_days_pos [simp]: "0 < year_days y"
  by (simp add: year_days_def)

lemma civil_year_correct:
  "civil_year y d = (y', d') \<Longrightarrow> year_start y + d = year_start y' + d' \<and> 0 \<le> d' \<and> d' < year_days y'"
proof (induction y d rule: civil_year.induct)
  case (1 y d)
  consider "d < 0" | "\<not> d < 0" "year_days y \<le> d" | "0 \<le> d" "d < year_days y" by linarith
  then show ?case
  proof cases
    case 1
    then have "civil_year (y - 1) (d + year_days (y - 1)) = (y', d')"
      using "1.prems" by (subst (asm) civil_year.simps) simp
    from "1.IH"(1) [OF 1 this] show ?thesis using year_start_Suc [of "y - 1"] by simp
  next
    case 2
    then have "civil_year (y + 1) (d - year_days y) = (y', d')"
      using "1.prems" by (subst (asm) civil_year.simps) simp
    from "1.IH"(2) [OF 2 this] show ?thesis using year_start_Suc [of y] by simp
  next
    case 3
    then have "(y', d') = (y, d)" using "1.prems" by (subst (asm) civil_year.simps) simp
    with 3 show ?thesis by simp
  qed
qed

lemma year_start_less: "y < z \<Longrightarrow> year_start y + year_days y \<le> year_start z"
proof (induction "nat (z - y)" arbitrary: z)
  case (Suc n)
  show ?case
  proof (cases "z = y + 1")
    case False
    then have "year_start y + year_days y \<le> year_start (z - 1)"
      using Suc.prems Suc.hyps(2) by (intro Suc.hyps(1)) auto
    with year_start_Suc [of "z - 1"] year_days_pos [of "z - 1"] show ?thesis by (simp add: less_imp_le add_increasing2)
  qed (simp add: year_start_Suc)
qed simp

lemma civil_year_unique:
  assumes "year_start y + d = year_start z + e" and "0 \<le> d" "d < year_days y" "0 \<le> e" "e < year_days z"
  shows "y = z \<and> d = e"
proof -
  have "\<not> y < z" "\<not> z < y" using year_start_less [of y z] year_start_less [of z y] assms by auto
  with assms show ?thesis by simp
qed

text \<open>The date of a day: the year and the day of the year.\<close>

lemma civil_year_1970:
  "civil_year 1970 days = (y, yd) \<longleftrightarrow> year_start y + yd = days \<and> 0 \<le> yd \<and> yd < year_days y"
proof
  assume "civil_year 1970 days = (y, yd)"
  from civil_year_correct [OF this] show "year_start y + yd = days \<and> 0 \<le> yd \<and> yd < year_days y" by simp
next
  assume r: "year_start y + yd = days \<and> 0 \<le> yd \<and> yd < year_days y"
  obtain y' d' where c: "civil_year 1970 days = (y', d')" by (cases "civil_year 1970 days")
  from civil_year_correct [OF c] r civil_year_unique [of y yd y' d'] c
  show "civil_year 1970 days = (y, yd)" by auto
qed

lemma civil_year_next:
  assumes "civil_year 1970 days = (y, yd)"
  shows "civil_year 1970 (days + 1) = (if yd + 1 < year_days y then (y, yd + 1) else (y + 1, 0))"
proof -
  have r: "year_start y + yd = days" "0 \<le> yd" "yd < year_days y"
    using assms by (simp_all add: civil_year_1970)
  show ?thesis
  proof (cases "yd + 1 < year_days y")
    case True
    with r show ?thesis by (simp add: civil_year_1970)
  next
    case False
    with r have "yd + 1 = year_days y" by simp
    with r have "year_start (y + 1) = days + 1" by (simp add: year_start_Suc)
    with False show ?thesis by (simp add: civil_year_1970)
  qed
qed

section \<open>The months\<close>

lemma civil_month_first: "\<forall>l \<in> set ls. 0 < l \<Longrightarrow> ls \<noteq> [] \<Longrightarrow> civil_month ls m 0 = (m, 1)"
  by (cases "(ls, m, 0 :: int)" rule: civil_month.cases) auto

lemma civil_month_range:
  "0 \<le> d \<Longrightarrow> d < sum_list ls \<Longrightarrow> civil_month ls m d = (m', d') \<Longrightarrow>
     m \<le> m' \<and> m' < m + int (length ls) \<and> 1 \<le> d' \<and> d' \<le> ls ! nat (m' - m)"
proof (induction ls m d arbitrary: m' d' rule: civil_month.induct)
  case (3 l k ls m d)
  show ?case
  proof (cases "d < l")
    case True
    with 3 show ?thesis by auto
  next
    case False
    with "3.prems" have "civil_month (k # ls) (m + 1) (d - l) = (m', d')" "0 \<le> d - l" "d - l < sum_list (k # ls)"
      by auto
    from "3.IH" [OF False this(2,3) this(1)]
    have r: "m + 1 \<le> m'" "m' < m + 1 + int (length (k # ls))" "1 \<le> d'" "d' \<le> (k # ls) ! nat (m' - (m + 1))"
      by auto
    have "(l # k # ls) ! nat (m' - m) = (k # ls) ! nat (m' - (m + 1))"
    proof -
      have "nat (m' - m) = Suc (nat (m' - (m + 1)))" using r by simp
      then show ?thesis by simp
    qed
    with r show ?thesis by simp
  qed
qed auto

text \<open>The day after: the next day of the month, or the first of the next month.\<close>

lemma civil_month_next:
  assumes "\<forall>l \<in> set ls. 0 < l"
  shows "0 \<le> d \<Longrightarrow> d + 1 < sum_list ls \<Longrightarrow> civil_month ls m d = (m', d') \<Longrightarrow>
     civil_month ls m (d + 1) = (if d' < ls ! nat (m' - m) then (m', d' + 1) else (m' + 1, 1))"
  using assms
proof (induction ls m d arbitrary: m' d' rule: civil_month.induct)
  case (3 l k ls m d)
  show ?case
  proof (cases "d < l")
    case True
    then have "m' = m" "d' = d + 1" using "3.prems" by auto
    moreover have "civil_month (k # ls) (m + 1) 0 = (m + 1, 1)"
      using "3.prems" by (intro civil_month_first) auto
    moreover have "l = d + 1" if "\<not> d + 1 < l" using that True by simp
    ultimately show ?thesis by (cases "d + 1 < l") simp_all
  next
    case False
    with "3.prems" have c: "civil_month (k # ls) (m + 1) (d - l) = (m', d')" "0 \<le> d - l"
      "d - l + 1 < sum_list (k # ls)" "\<forall>l \<in> set (k # ls). 0 < l" by auto
    have "m + 1 \<le> m'" using civil_month_range [OF c(2) _ c(1)] c(3) by simp
    then have "nat (m' - m) = Suc (nat (m' - (m + 1)))" by simp
    with "3.IH" [OF False c(2,3,1,4)] False show ?thesis by (simp add: algebra_simps)
  qed
qed auto

section \<open>What gmtime returns\<close>

lemma month_lengths_pos: "\<forall>l \<in> set (month_lengths y). 0 < l"
  by (simp add: month_lengths_def)

lemma sum_month_lengths: "sum_list (month_lengths y) = year_days y"
  by (simp add: month_lengths_def year_days_def)

lemma length_month_lengths [simp]: "length (month_lengths y) = 12"
  by (simp add: month_lengths_def)

lemma month_lengths_le: "l \<in> set (month_lengths y) \<Longrightarrow> l \<le> 31"
  by (auto simp: month_lengths_def split: if_splits)

lemma gmtime_date:
  obtains y yd where "civil_year 1970 (t div 86400) = (y, yd)" "0 \<le> yd" "yd < year_days y"
    "tm_year (gmtime t) = y - 1900" "tm_yday (gmtime t) = yd"
    "civil_month (month_lengths y) 0 yd = (tm_mon (gmtime t), tm_mday (gmtime t))"
proof -
  obtain y yd where c: "civil_year 1970 (t div 86400) = (y, yd)" by (cases "civil_year 1970 (t div 86400)")
  obtain m d where m: "civil_month (month_lengths y) 0 yd = (m, d)"
    by (cases "civil_month (month_lengths y) 0 yd")
  have g: "tm_year (gmtime t) = y - 1900" "tm_yday (gmtime t) = yd" "tm_mon (gmtime t) = m"
    "tm_mday (gmtime t) = d" using c m by (simp_all add: gmtime_def Let_def)
  show thesis by (rule that [OF c]) (use g m civil_year_correct [OF c] in simp_all)
qed

lemma gmtime_ranges:
  "0 \<le> tm_min (gmtime t) \<and> tm_min (gmtime t) < 60 \<and> 0 \<le> tm_hour (gmtime t) \<and> tm_hour (gmtime t) < 24
   \<and> 0 \<le> tm_mon (gmtime t) \<and> tm_mon (gmtime t) < 12
   \<and> 1 \<le> tm_mday (gmtime t) \<and> tm_mday (gmtime t) \<le> month_lengths (tm_year (gmtime t) + 1900) ! nat (tm_mon (gmtime t))
   \<and> 0 \<le> tm_wday (gmtime t) \<and> tm_wday (gmtime t) < 7"
proof -
  obtain y yd where r: "0 \<le> yd" "yd < year_days y" "tm_year (gmtime t) = y - 1900"
    "civil_month (month_lengths y) 0 yd = (tm_mon (gmtime t), tm_mday (gmtime t))"
    using gmtime_date [of t] by metis
  have m: "0 \<le> t mod 86400" "t mod 86400 < 86400" by simp_all
  have "0 \<le> t mod 86400 div 60 mod 60" "t mod 86400 div 60 mod 60 < 60"
    "0 \<le> t mod 86400 div 3600" "t mod 86400 div 3600 < 24"
    using m by (simp_all add: pos_imp_zdiv_nonneg_iff)
  then have "0 \<le> tm_min (gmtime t) \<and> tm_min (gmtime t) < 60 \<and> 0 \<le> tm_hour (gmtime t) \<and> tm_hour (gmtime t) < 24
     \<and> 0 \<le> tm_wday (gmtime t) \<and> tm_wday (gmtime t) < 7"
    by (simp add: gmtime_def Let_def split: prod.split)
  with civil_month_range [OF r(1) _ r(4)] r(2,3) show ?thesis by (simp add: sum_month_lengths)
qed

lemma tm_mday_31: "tm_mday (gmtime t) \<le> 31"
proof -
  have "month_lengths (tm_year (gmtime t) + 1900) ! nat (tm_mon (gmtime t))
      \<in> set (month_lengths (tm_year (gmtime t) + 1900))"
    using gmtime_ranges [of t] by (intro nth_mem) (simp add: nat_less_iff)
  with gmtime_ranges [of t] month_lengths_le show ?thesis by fastforce
qed

text \<open>The date a day later.\<close>

lemma gmtime_next_day:
  "tm_mday (gmtime (t + 86400)) = 1
     \<longleftrightarrow> tm_mday (gmtime t) = month_lengths (tm_year (gmtime t) + 1900) ! nat (tm_mon (gmtime t))"
proof -
  obtain y yd where c: "civil_year 1970 (t div 86400) = (y, yd)" and r: "0 \<le> yd" "yd < year_days y"
    and ty: "tm_year (gmtime t) = y - 1900"
    and cm: "civil_month (month_lengths y) 0 yd = (tm_mon (gmtime t), tm_mday (gmtime t))"
    using gmtime_date [of t] by metis
  have d: "(t + 86400) div 86400 = t div 86400 + 1" by simp
  show ?thesis
  proof (cases "yd + 1 < year_days y")
    case True
    have "civil_year 1970 ((t + 86400) div 86400) = (y, yd + 1)"
      using civil_year_next [OF c] True by (simp add: d)
    then have "tm_mday (gmtime (t + 86400)) = snd (civil_month (month_lengths y) 0 (yd + 1))"
      by (simp add: gmtime_def Let_def split: prod.split)
    also have "civil_month (month_lengths y) 0 (yd + 1) =
       (if tm_mday (gmtime t) < month_lengths y ! nat (tm_mon (gmtime t) - 0)
        then (tm_mon (gmtime t), tm_mday (gmtime t) + 1) else (tm_mon (gmtime t) + 1, 1))"
      using True by (intro civil_month_next [OF month_lengths_pos r(1) _ cm]) (simp add: sum_month_lengths)
    finally show ?thesis using gmtime_ranges [of t] ty by simp
  next
    case False
    then have yd: "yd = year_days y - 1" using r by simp
    have "civil_year 1970 ((t + 86400) div 86400) = (y + 1, 0)"
      using civil_year_next [OF c] False by (simp add: d)
    moreover have "civil_month (month_lengths (y + 1)) 0 0 = (0, 1)"
      using month_lengths_pos by (intro civil_month_first) (auto simp: month_lengths_def)
    ultimately have "tm_mday (gmtime (t + 86400)) = 1" by (simp add: gmtime_def Let_def)
    moreover have "civil_month (month_lengths y) 0 yd = (11, 31)"
      by (simp add: yd month_lengths_def year_days_def)
    ultimately show ?thesis using cm ty by (simp add: month_lengths_def)
  qed
qed

lemma gmtime_next_day_rest:
  "tm_min (gmtime (t + 86400)) = tm_min (gmtime t)" "tm_hour (gmtime (t + 86400)) = tm_hour (gmtime t)"
  "tm_wday (gmtime (t + 86400)) = (tm_wday (gmtime t) + 1) mod 7"
proof -
  have d: "(t + 86400) div 86400 = t div 86400 + 1" by simp
  show "tm_min (gmtime (t + 86400)) = tm_min (gmtime t)" "tm_hour (gmtime (t + 86400)) = tm_hour (gmtime t)"
    "tm_wday (gmtime (t + 86400)) = (tm_wday (gmtime t) + 1) mod 7"
    by (simp_all add: gmtime_def Let_def d mod_simps add.commute split: prod.split)
qed

end
