(* ===== verification/Cron_Match.thy ===== *)
theory Cron_Match
  imports Parser_Props Calendar Cron_Time
begin

text \<open>
  When a schedule is due: the calendar helpers of \<open>src/cron_parser.c\<close> (\<open>is_leap_year\<close>,
  \<open>days_in_month\<close>, \<open>isLastDayOfMonth\<close>) and \<open>ShouldRunTask\<close> of \<open>src/nedo_cron.c\<close>, with their
  specification on the calendar of \<open>gmtime\<close> and on the parsed schedule syntax.
\<close>

section \<open>The code\<close>

definition is_leap_year :: "int \<Rightarrow> bool" where
  "is_leap_year year =
     (if c_mod year 400 = 0 then True else if c_mod year 100 = 0 then False else c_mod year 4 = 0)"

definition days_in_month :: "int \<Rightarrow> int \<Rightarrow> int" where
  "days_in_month year mon =
     (if mon < 1 \<or> 12 < mon then 0
      else if mon = 2 \<and> is_leap_year year then 29
      else [0, 31, 28, 31, 30, 31, 30, 31, 31, 30, 31, 30, 31] ! nat mon)"

definition isLastDayOfMonth :: "int \<Rightarrow> int \<Rightarrow> int \<Rightarrow> bool" where
  "isLastDayOfMonth current_dom current_month current_year =
     (days_in_month current_year current_month = current_dom)"

definition ShouldRunTask :: "pg_time \<Rightarrow> CronSchedule \<Rightarrow> int \<Rightarrow> bool \<Rightarrow> bool \<Rightarrow> bool" where
  "ShouldRunTask pt schedule currentTime floatingHourOrMinute fixedHourOrMinute =
     (let currentTime_t = ts_to_time_t pt currentTime;
          tm = gmtime currentTime_t
      in if SECONDS schedule then False
      else let
          min = tm_min tm; hr = tm_hour tm; dom = tm_mday tm; mon = tm_mon tm + 1;
          dow = tm_wday tm; year = tm_year tm + 1900;
          isLastDOM = isLastDayOfMonth dom mon year;
          dayOfMonthMatches = (dayOfMonth schedule ! nat dom \<or> (LAST_DOM schedule \<and> isLastDOM));
          dayOfWeekMatches = dayOfWeek schedule ! nat dow;
          dayOfMonthAndDayOfWeek =
            (if DOM_STAR schedule \<or> DOW_STAR schedule then dayOfMonthMatches \<and> dayOfWeekMatches
             else dayOfMonthMatches \<or> dayOfWeekMatches)
        in if minute schedule ! nat min \<and> hour schedule ! nat hr \<and> month schedule ! nat mon
              \<and> dayOfMonthAndDayOfWeek
           then (let isFloating = (MIN_STAR schedule \<or> HOUR_STAR schedule)
                 in if (fixedHourOrMinute \<and> \<not> isFloating) \<or> (floatingHourOrMinute \<and> isFloating)
                    then True else False)
           else False)"

section \<open>The last day of the month\<close>

lemma is_leap_year_leap: "is_leap_year y = leap y"
proof -
  have "400 dvd y \<Longrightarrow> 100 dvd y" "100 dvd y \<Longrightarrow> 4 dvd y" by presburger+
  then show ?thesis
    by (auto simp: is_leap_year_def leap_def c_mod_eq_0_iff)
qed

lemma days_in_month_lengths:
  assumes "0 \<le> m" and "m < 12"
  shows "days_in_month y (m + 1) = month_lengths y ! nat m"
proof -
  have "m \<in> {0, 1, 2, 3, 4, 5, 6, 7, 8, 9, 10, 11}" using assms by (simp, arith)
  then show ?thesis
    by (auto simp: days_in_month_def month_lengths_def is_leap_year_leap)
qed

lemma isLastDayOfMonth_gmtime:
  "isLastDayOfMonth (tm_mday (gmtime t)) (tm_mon (gmtime t) + 1) (tm_year (gmtime t) + 1900)
     = (tm_mday (gmtime (t + 86400)) = 1)"
proof -
  have "days_in_month (tm_year (gmtime t) + 1900) (tm_mon (gmtime t) + 1)
      = month_lengths (tm_year (gmtime t) + 1900) ! nat (tm_mon (gmtime t))"
    using gmtime_ranges [of t] by (intro days_in_month_lengths) auto
  then show ?thesis unfolding isLastDayOfMonth_def gmtime_next_day by auto
qed

text \<open>
  C35: isLastDayOfMonth (src/cron_parser.c), with its own table of month lengths and leap-year
  rule, agrees with the calendar: on the date that gmtime gives for any time, it is true exactly
  when the date one day later is the first of a month.
\<close>

theorem isLastDayOfMonth_correct:
  "isLastDayOfMonth (tm_mday (gmtime t)) (tm_mon (gmtime t) + 1) (tm_year (gmtime t) + 1900)
     = (tm_mday (gmtime (t + 86400)) = 1)"
  by (rule isLastDayOfMonth_gmtime)

section \<open>What being due means\<close>

text \<open>The specification, on the syntax of the schedule and the broken-down time.\<close>

definition field_matches :: "FieldType \<Rightarrow> cron_item list \<Rightarrow> int \<Rightarrow> bool" where
  "field_matches type its v = (\<exists>it \<in> set its. v \<in> norm_value type ` item_values type it)"

definition day_matches :: "cron_item list \<Rightarrow> cron_item list \<Rightarrow> int \<Rightarrow> bool" where
  "day_matches ds ws t =
     (let dom = field_matches CRON_DOM ds (tm_mday (gmtime t))
              \<or> (ItLast \<in> set ds \<and> tm_mday (gmtime (t + 86400)) = 1);
          dow = field_matches CRON_DOW ws (tm_wday (gmtime t))
      in if ItStar \<in> set ds \<or> ItStar \<in> set ws then dom \<and> dow else dom \<or> dow)"

fun due_at :: "cron_ast \<Rightarrow> int \<Rightarrow> bool \<Rightarrow> bool \<Rightarrow> bool" where
  "due_at (AstSeconds n) t floating fixed = False"
| "due_at (AstFields ms hs ds mos ws) t floating fixed =
     (field_matches CRON_MINUTE ms (tm_min (gmtime t)) \<and> field_matches CRON_HOUR hs (tm_hour (gmtime t))
      \<and> field_matches CRON_M mos (tm_mon (gmtime t) + 1) \<and> day_matches ds ws t
      \<and> (if ItStar \<in> set ms \<or> ItStar \<in> set hs then floating else fixed))"

lemma gmtime_in_arrays:
  assumes "sched_wf s"
  shows "nat (tm_min (gmtime t)) < length (minute s)" "nat (tm_hour (gmtime t)) < length (hour s)"
    "nat (tm_mday (gmtime t)) < length (dayOfMonth s)" "nat (tm_mon (gmtime t) + 1) < length (month s)"
    "nat (tm_wday (gmtime t)) < length (dayOfWeek s)"
  using assms gmtime_ranges [of t] tm_mday_31 [of t] by (simp_all add: sched_wf_def nat_less_iff)

lemma gmtime_bits:
  assumes "sched_wf s"
  shows "minute s ! nat (tm_min (gmtime t)) = field_bit CRON_MINUTE s (tm_min (gmtime t))"
    "hour s ! nat (tm_hour (gmtime t)) = field_bit CRON_HOUR s (tm_hour (gmtime t))"
    "dayOfMonth s ! nat (tm_mday (gmtime t)) = field_bit CRON_DOM s (tm_mday (gmtime t))"
    "month s ! nat (tm_mon (gmtime t) + 1) = field_bit CRON_M s (tm_mon (gmtime t) + 1)"
    "dayOfWeek s ! nat (tm_wday (gmtime t)) = field_bit CRON_DOW s (tm_wday (gmtime t))"
  using gmtime_in_arrays [OF assms, of t] gmtime_ranges [of t]
  by (simp_all add: field_bit_def zless_nat_eq_int_zless nat_less_iff)

lemma ShouldRunTask_bits:
  assumes "sched_wf s"
  shows "ShouldRunTask pt s time floating fixed =
     (let t = ts_to_time_t pt time;
          dom = field_bit CRON_DOM s (tm_mday (gmtime t)) \<or> (LAST_DOM s \<and> tm_mday (gmtime (t + 86400)) = 1);
          dow = field_bit CRON_DOW s (tm_wday (gmtime t))
      in \<not> SECONDS s \<and> field_bit CRON_MINUTE s (tm_min (gmtime t)) \<and> field_bit CRON_HOUR s (tm_hour (gmtime t))
        \<and> field_bit CRON_M s (tm_mon (gmtime t) + 1)
        \<and> (if DOM_STAR s \<or> DOW_STAR s then dom \<and> dow else dom \<or> dow)
        \<and> (if MIN_STAR s \<or> HOUR_STAR s then floating else fixed))"
  by (auto simp: ShouldRunTask_def Let_def gmtime_bits [OF assms] isLastDayOfMonth_gmtime)

lemma ShouldRunTask_reads:
  assumes "parse psc (Some cmd) = Some sched"
  shows "\<exists>ast. read_schedule psc cmd = Some ast
     \<and> ShouldRunTask pt sched time floating fixed = due_at ast (ts_to_time_t pt time) floating fixed"
proof -
  from assms obtain ast where ast: "read_schedule psc cmd = Some ast" "ast_valid ast" "sched = denote ast"
    by (auto simp: parse_def parse_with_error_spec split: option.splits if_splits)
  have "ShouldRunTask pt sched time floating fixed = due_at ast (ts_to_time_t pt time) floating fixed"
  proof (cases ast)
    case (AstSeconds n)
    then show ?thesis using ast by (simp add: ShouldRunTask_def Let_def)
  next
    case (AstFields ms hs ds mos ws)
    have no_last: "ItLast \<notin> set ms" "ItLast \<notin> set hs" "ItLast \<notin> set mos" "ItLast \<notin> set ws"
      using ast AstFields by (auto simp: list_all_iff)
    show ?thesis
      unfolding ShouldRunTask_bits [OF denote_wf [of ast, folded ast(3)]]
      using no_last field_bit_denote [OF ast(2)]
      by (simp add: ast(3) AstFields flags_fold_denote_item empty_schedule_def field_matches_def
          day_matches_def Let_def)
  qed
  with ast show ?thesis by blast
qed

text \<open>
  C8: from the schedule text to the decision to run. If parse (src/cron_parser.c) accepts a
  command, which then reads as some syntax tree, ShouldRunTask (src/nedo_cron.c) on the parsed
  schedule and any timestamp is true exactly when the tree is due at that time in UTC: minute, hour
  and month each match an item; day-of-month (a dollar item matching the last day of the month) and
  day-of-week both match if either has a bare star and at least one matches otherwise; and the
  matching flag is set, floating if minute or hour has a bare star and fixed if not. A seconds
  schedule is never due here.
\<close>

theorem ShouldRunTask_correct:
  assumes "parse psc (Some cmd) = Some sched"
  shows "\<exists>ast. read_schedule psc cmd = Some ast
     \<and> ShouldRunTask pt sched time floating fixed = due_at ast (ts_to_time_t pt time) floating fixed"
  using assms by (rule ShouldRunTask_reads)

text \<open>29 February 2024, 12:00 UTC.\<close>

lemma gmtime_example:
  "gmtime 1709208000 = \<lparr> tm_sec = 0, tm_min = 0, tm_hour = 12, tm_mday = 29, tm_mon = 1, tm_year = 124,
     tm_wday = 4, tm_yday = 59 \<rparr>"
  "tm_mday (gmtime (1709208000 + 86400)) = 1"
proof -
  have "civil_year 1970 19782 = (2024, 59)"
    by (simp add: civil_year_1970 year_start_def year_days_def leap_def)
  then show "gmtime 1709208000 = \<lparr> tm_sec = 0, tm_min = 0, tm_hour = 12, tm_mday = 29, tm_mon = 1,
     tm_year = 124, tm_wday = 4, tm_yday = 59 \<rparr>"
    by (simp add: gmtime_def Let_def month_lengths_def leap_def)
  then show "tm_mday (gmtime (1709208000 + 86400)) = 1"
    unfolding gmtime_next_day by (simp add: month_lengths_def leap_def)
qed

lemma read_noon_last:
  "read_schedule ascii_strcasecmp ''0 12 $ * *'' = Some (AstFields [ItSingle 0] [ItSingle 12] [ItLast] [ItStar] [ItStar])"
  by (simp add: read_eval)

lemma parse_noon_last:
  "parse ascii_strcasecmp (Some ''0 12 $ * *'')
     = Some (denote (AstFields [ItSingle 0] [ItSingle 12] [ItLast] [ItStar] [ItStar]))"
  by (simp add: parse_def parse_with_error_spec read_noon_last lower_def upper_def)

theorem ShouldRunTask_correct_witness:
  "\<exists>sched. parse ascii_strcasecmp (Some ''0 12 $ * *'') = Some sched
     \<and> ShouldRunTask pg_time_doc sched 762523200000000 False True"
proof -
  have t: "ts_to_time_t pg_time_doc 762523200000000 = 1709208000" by (simp add: doc.to_time_t)
  have "due_at (AstFields [ItSingle 0] [ItSingle 12] [ItLast] [ItStar] [ItStar]) 1709208000 False True"
    using gmtime_example(2)
    by (simp add: gmtime_example(1) field_matches_def day_matches_def Let_def norm_value_def progression_def
        lower_def upper_def image_iff)
  then show ?thesis
    using ShouldRunTask_correct [OF parse_noon_last, of pg_time_doc 762523200000000 False True]
    by (simp add: parse_noon_last read_noon_last t)
qed

end
