(* ===== verification/Scheduler.thy ===== *)
theory Scheduler
  imports Cron_Job Cron_Match
begin

text \<open>
  The scheduling half of \<open>src/nedo_cron.c\<close>: \<open>LoadTasksList\<close>, \<open>StartPendingTask\<close> and
  \<open>StartPendingTasks\<close>, which turn the passing of minutes into pending runs.
\<close>

section \<open>Loops over the task list\<close>

text \<open>
  The list holds pointers to the entries of the task table, here their keys. A loop body gets the
  entry and gives its new content, or \<open>None\<close> if it removed it from the table. A pointer to an entry
  that is gone is an invalid access.
\<close>

definition LoadTasksList :: "('th, CronTask) dynahash_ops \<Rightarrow> ('jh, 'th) globals \<Rightarrow> int list" where
  "LoadTasksList HT g = h_seq HT (CronTaskHashTable g)"

fun foreach_task ::
  "('th, CronTask) dynahash_ops \<Rightarrow> (CronTask \<Rightarrow> CronTask option step) \<Rightarrow> int list \<Rightarrow> 'th \<Rightarrow> 'th step" where
  "foreach_task HT body [] tbl = returnIO tbl"
| "foreach_task HT body (k # ks) tbl =
     (case h_find HT tbl k of
        None \<Rightarrow> raiseIO NullPointer
      | Some task \<Rightarrow>
        bindIO (body task) (\<lambda>r.
          foreach_task HT body ks
            (case r of None \<Rightarrow> h_remove HT tbl k | Some task' \<Rightarrow> h_store HT tbl k task')))"

section \<open>Minutes\<close>

text \<open>
  The \<open>while\<close> loop of \<open>StartPendingTask\<close>. It ends if the milliseconds it adds move the time forward,
  which is up to PostgreSQL's function; \<open>None\<close> is a loop that does not end.
\<close>

partial_function (option) minutes_loop ::
  "pg_time \<Rightarrow> CronSchedule \<Rightarrow> bool \<Rightarrow> bool \<Rightarrow> int \<Rightarrow> int \<Rightarrow> CronTask \<Rightarrow> CronTask option" where
  "minutes_loop pt sched floating fixed currentMinute virtTime task =
     (if virtTime < currentMinute then
        let virtTime' = ts_plus_ms pt virtTime (60 * 1000);
            task' = (if ShouldRunTask pt sched virtTime' floating fixed
                     then task\<lparr> pendingRunCount := int32 (pendingRunCount task + 1) \<rparr> else task)
        in minutes_loop pt sched floating fixed currentMinute virtTime' task'
      else Some task)"

definition add_pending_if :: "bool \<Rightarrow> CronTask \<Rightarrow> CronTask" where
  "add_pending_if b task = (if b then task\<lparr> pendingRunCount := int32 (pendingRunCount task + 1) \<rparr> else task)"

definition StartPendingTask ::
  "pg_time \<Rightarrow> CronJob option \<Rightarrow> CronTask \<Rightarrow> ClockStatus \<Rightarrow> int \<Rightarrow> int \<Rightarrow> fault + CronTask" where
  "StartPendingTask pt job task clock_status lastMin currentTime =
     (let currentMinute = StartOfMinute True currentTime in
      case job of
        None \<Rightarrow> Inl NullPointer
      | Some j \<Rightarrow>
        (case clock_status of
           CLOCK_PROGRESSED \<Rightarrow>
             (case minutes_loop pt (schedule j) True True currentMinute lastMin task of
                None \<Rightarrow> Inl NoReturn | Some task' \<Rightarrow> Inr task')
         | CLOCK_JUMP_FORWARD \<Rightarrow>
             (case minutes_loop pt (schedule j) False True currentMinute lastMin task of
                None \<Rightarrow> Inl NoReturn
              | Some task' \<Rightarrow>
                  Inr (add_pending_if (ShouldRunTask pt (schedule j) currentMinute True False) task'))
         | CLOCK_JUMP_BACKWARD \<Rightarrow>
             Inr (add_pending_if (ShouldRunTask pt (schedule j) currentMinute True False) task)
         | CLOCK_CHANGE \<Rightarrow>
             Inr (add_pending_if (ShouldRunTask pt (schedule j) currentMinute True True) task)))"

definition clock_status_of :: "int \<Rightarrow> ClockStatus" where
  "clock_status_of minutesPassed =
     (if 3 * 60 < minutesPassed then CLOCK_CHANGE
      else if 5 < minutesPassed then CLOCK_JUMP_FORWARD
      else if 0 < minutesPassed then CLOCK_PROGRESSED
      else if - 3 * 60 < minutesPassed then CLOCK_JUMP_BACKWARD
      else CLOCK_CHANGE)"

definition start_pending_body ::
  "pg_time \<Rightarrow> (int \<Rightarrow> CronJob option) \<Rightarrow> int \<Rightarrow> int \<Rightarrow> int \<Rightarrow> CronTask \<Rightarrow> fault + CronTask" where
  "start_pending_body pt getJob minutesPassed lastMin currentTime task =
     (case getJob (jobId task) of
        None \<Rightarrow> Inr task
      | Some job \<Rightarrow>
        if SECONDS (schedule job) then StartSecondIntervalTask pt (getJob (jobId task)) task currentTime
        else if minutesPassed \<noteq> 0 then
          StartPendingTask pt (getJob (jobId task)) task (clock_status_of minutesPassed) lastMin currentTime
        else Inr task)"

definition StartPendingTasks ::
  "pg_time \<Rightarrow> ('jh, CronJob) dynahash_ops \<Rightarrow> ('th, CronTask) dynahash_ops \<Rightarrow> int list \<Rightarrow> int \<Rightarrow>
     ('jh, 'th) globals \<Rightarrow> ('jh, 'th) globals step" where
  "StartPendingTasks pt HJ HT taskList currentTime g =
     (let lastMin = (if lastMinute g = 0 then StartOfMinute True currentTime else lastMinute g);
          minutesPassed = MinutesPassed pt lastMin currentTime
      in bindIO (foreach_task HT
           (\<lambda>task. ([], map_sum id Some
               (start_pending_body pt (getCronJob HJ (CronJobHashTable g)) minutesPassed lastMin currentTime task)))
           taskList (CronTaskHashTable g)) (\<lambda>tbl.
         returnIO (g\<lparr> CronTaskHashTable := tbl,
           lastMinute := (if clock_status_of minutesPassed \<noteq> CLOCK_JUMP_BACKWARD
                          then StartOfMinute True currentTime else lastMin) \<rparr>)))"

section \<open>Lemmas\<close>

text \<open>The number of minutes among the \<open>n\<close> after \<open>a\<close> at which a predicate holds.\<close>

definition count_minutes :: "(int \<Rightarrow> bool) \<Rightarrow> int \<Rightarrow> nat \<Rightarrow> int" where
  "count_minutes P a n = int (length (filter (\<lambda>k. P (a + 60000000 * (int k + 1))) [0..<n]))"

lemma count_minutes_0 [simp]: "count_minutes P a 0 = 0"
  by (simp add: count_minutes_def)

lemma count_minutes_Suc:
  "count_minutes P a (Suc n) = (if P (a + 60000000) then 1 else 0) + count_minutes P (a + 60000000) n"
proof -
  have "[0..<Suc n] = 0 # map Suc [0..<n]" by (simp add: upt_conv_Cons map_Suc_upt del: upt_Suc)
  then show ?thesis
    by (simp add: count_minutes_def filter_map comp_def algebra_simps del: upt_Suc)
qed

lemma count_minutes_add:
  "count_minutes P a (m + n) = count_minutes P a m + count_minutes P (a + 60000000 * int m) n"
  by (induction m arbitrary: a) (simp_all add: count_minutes_Suc algebra_simps)

lemma count_minutes_bounds: "0 \<le> count_minutes P a n \<and> count_minutes P a n \<le> int n"
  unfolding count_minutes_def using length_filter_le [of _ "[0..<n]"] by simp

context pg_timestamps
begin

lemma minutes_loop_end: "b \<le> a \<Longrightarrow> minutes_loop pt s fl fx b a task = Some task"
  by (subst minutes_loop.simps) simp

lemma minutes_loop_some: "\<exists>n. minutes_loop pt s fl fx b a task = Some (task\<lparr> pendingRunCount := n \<rparr>)"
proof (induction "nat (b - a)" arbitrary: a task rule: less_induct)
  case less
  show ?case
  proof (cases "a < b")
    case False
    then show ?thesis by (intro exI [where x = "pendingRunCount task"]) (simp add: minutes_loop_end)
  next
    case True
    let ?task = "if ShouldRunTask pt s (a + 60000000) fl fx
       then task\<lparr> pendingRunCount := int32 (pendingRunCount task + 1) \<rparr> else task"
    have "minutes_loop pt s fl fx b a task = minutes_loop pt s fl fx b (a + 60000000) ?task"
      using True by (subst minutes_loop.simps) (simp add: plus_ms Let_def)
    moreover obtain n where "minutes_loop pt s fl fx b (a + 60000000) ?task = Some (?task\<lparr> pendingRunCount := n \<rparr>)"
      using less [of "a + 60000000" ?task] True by auto
    ultimately show ?thesis by (intro exI [where x = n]) simp
  qed
qed

lemma minutes_loop_count:
  assumes "0 \<le> pendingRunCount task" and "pendingRunCount task + int n \<le> INT_MAX"
  shows "minutes_loop pt s fl fx (a + 60000000 * int n) a task
     = Some (task\<lparr> pendingRunCount := pendingRunCount task + count_minutes (\<lambda>m. ShouldRunTask pt s m fl fx) a n \<rparr>)"
  using assms
proof (induction n arbitrary: a task)
  case 0
  show ?case by (simp add: minutes_loop_end)
next
  case (Suc n)
  let ?task = "if ShouldRunTask pt s (a + 60000000) fl fx
     then task\<lparr> pendingRunCount := pendingRunCount task + 1 \<rparr> else task"
  have w: "int32 (pendingRunCount task + 1) = pendingRunCount task + 1"
    using Suc.prems by (simp add: cdefs)
  have "minutes_loop pt s fl fx (a + 60000000 * int (Suc n)) a task
      = minutes_loop pt s fl fx ((a + 60000000) + 60000000 * int n) (a + 60000000) ?task"
    by (subst minutes_loop.simps) (simp add: plus_ms w [unfolded add.commute [of _ 1]] Let_def algebra_simps)
  then show ?case
    using Suc.IH [of ?task "a + 60000000"] Suc.prems by (auto simp: count_minutes_Suc)
qed

end

context task_table
begin

lemma foreach_task_spec:
  assumes "distinct ks" and "set ks \<subseteq> dom (h_find HT tbl)"
    and "\<And>k t. k \<in> set ks \<Longrightarrow> h_find HT tbl k = Some t \<Longrightarrow> snd (body t) = Inr (r t)"
  shows "\<exists>tbl'. foreach_task HT body ks tbl = (concat (map (\<lambda>k. fst (body (the (h_find HT tbl k)))) ks), Inr tbl')
     \<and> h_find HT tbl' = (\<lambda>k. if k \<in> set ks then Option.bind (h_find HT tbl k) r else h_find HT tbl k)"
  using assms
proof (induction ks arbitrary: tbl)
  case Nil
  show ?case by (simp add: io_simps)
next
  case (Cons k ks)
  then obtain t where t: "h_find HT tbl k = Some t" by auto
  with Cons.prems(3) [of k t] have b: "snd (body t) = Inr (r t)" by simp
  let ?tbl = "case r t of None \<Rightarrow> h_remove HT tbl k | Some t' \<Rightarrow> h_store HT tbl k t'"
  have f: "h_find HT ?tbl = (h_find HT tbl)(k := r t)"
    using t by (cases "r t") (simp_all add: remove store)
  have nk: "k \<notin> set ks" using Cons.prems by simp
  have e: "map (\<lambda>k. fst (body (the (h_find HT ?tbl k)))) ks = map (\<lambda>k. fst (body (the (h_find HT tbl k)))) ks"
    using nk by (auto simp: f)
  have "\<exists>tbl'. foreach_task HT body ks ?tbl = (concat (map (\<lambda>k. fst (body (the (h_find HT ?tbl k)))) ks), Inr tbl')
     \<and> h_find HT tbl' = (\<lambda>k. if k \<in> set ks then Option.bind (h_find HT ?tbl k) r else h_find HT ?tbl k)"
  proof (rule Cons.IH)
    show "snd (body t') = Inr (r t')" if "k' \<in> set ks" "h_find HT ?tbl k' = Some t'" for k' t'
      using Cons.prems(3) [of k' t'] that nk by (cases "k' = k") (simp_all add: f)
  qed (use Cons.prems nk in \<open>auto simp: f\<close>)
  then obtain tbl' where r: "foreach_task HT body ks ?tbl
        = (concat (map (\<lambda>k. fst (body (the (h_find HT tbl k)))) ks), Inr tbl')"
    and h: "h_find HT tbl' = (\<lambda>k. if k \<in> set ks then Option.bind (h_find HT ?tbl k) r else h_find HT ?tbl k)"
    unfolding e by blast
  have "body t = (fst (body t), Inr (r t))" using b by (metis prod.collapse)
  then have "foreach_task HT body (k # ks) tbl
      = (concat (map (\<lambda>k. fst (body (the (h_find HT tbl k)))) (k # ks)), Inr tbl')"
    using t r b by (simp add: bindIO_def)
  with t nk h show ?case by (auto simp: f fun_eq_iff)
qed

end

text \<open>Whole minutes between the start of a minute and a later time.\<close>

lemma StartOfMinute_step:
  assumes "60000000 dvd a" and "0 \<le> a" and "a \<le> now"
  shows "StartOfMinute True now = a + 60000000 * int (nat ((now - a) div 60000000))"
proof -
  obtain k where k: "a = 60000000 * k" using assms(1) by (auto elim: dvdE)
  have "(now - a) div 60000000 = now div 60000000 - k" by (simp add: k)
  moreover have "k \<le> now div 60000000" using assms k zdiv_mono1 [of a now 60000000] by simp
  ultimately show ?thesis using assms k by (simp add: StartOfMinute_div)
qed

text \<open>The runs that a call adds, by the time since the last processed minute.\<close>

definition runs_due :: "(int \<Rightarrow> bool \<Rightarrow> bool \<Rightarrow> bool) \<Rightarrow> int \<Rightarrow> int \<Rightarrow> int" where
  "runs_due P a now =
     (let n = (now - a) div 60000000; m = StartOfMinute True now in
      if n \<le> 0 then 0
      else if n \<le> 5 then count_minutes (\<lambda>m. P m True True) a (nat n)
      else if n \<le> 180 then count_minutes (\<lambda>m. P m False True) a (nat n) + (if P m True False then 1 else 0)
      else if P m True True then 1 else 0)"

lemma runs_due_bounds: "0 \<le> runs_due P a now \<and> runs_due P a now \<le> 181"
  using count_minutes_bounds [of "\<lambda>m. P m True True" a "nat ((now - a) div 60000000)"]
    count_minutes_bounds [of "\<lambda>m. P m False True" a "nat ((now - a) div 60000000)"]
  unfolding runs_due_def Let_def by (cases "(now - a) div 60000000 \<le> 0") auto

context pg_timestamps
begin

lemma StartPendingTask_runs:
  assumes "60000000 dvd a" and "0 \<le> a" and "now - a < 2147483648000000"
    and "0 \<le> pendingRunCount task" and "pendingRunCount task + 181 \<le> INT_MAX"
    and "getJob (jobId task) = Some job" and "\<not> SECONDS (schedule job)"
  shows "start_pending_body pt getJob (MinutesPassed pt a now) a now task
     = Inr (task\<lparr> pendingRunCount := pendingRunCount task + runs_due (ShouldRunTask pt (schedule job)) a now \<rparr>)"
proof (cases "a < now")
  case False
  then have "(now - a) div 60000000 \<le> 0" by linarith
  with False show ?thesis
    using assms(6,7) by (simp add: start_pending_body_def minutes_backward runs_due_def Let_def)
next
  case True
  let ?n = "(now - a) div 60000000"
  have mp: "MinutesPassed pt a now = ?n" using True assms(3) by (rule minutes_value)
  have m: "StartOfMinute True now = a + 60000000 * int (nat ?n)"
    using True assms by (intro StartOfMinute_step) auto
  have loop: "minutes_loop pt (schedule job) fl fx (StartOfMinute True now) a task
     = Some (task\<lparr> pendingRunCount := pendingRunCount task
         + count_minutes (\<lambda>m. ShouldRunTask pt (schedule job) m fl fx) a (nat ?n) \<rparr>)"
    if "?n \<le> 180" for fl fx
    unfolding m using assms that by (intro minutes_loop_count) (auto simp: cdefs)
  have b: "?n \<le> 180 \<Longrightarrow> count_minutes (\<lambda>m. ShouldRunTask pt (schedule job) m fl fx) a (nat ?n) \<le> 180
      \<and> 0 \<le> count_minutes (\<lambda>m. ShouldRunTask pt (schedule job) m fl fx) a (nat ?n)" for fl fx
    using count_minutes_bounds [of "\<lambda>m. ShouldRunTask pt (schedule job) m fl fx" a "nat ?n"] by linarith
  have w: "0 \<le> x \<Longrightarrow> x \<le> 180 \<Longrightarrow> int32 (pendingRunCount task + x + 1) = pendingRunCount task + x + 1" for x
    using assms(4,5) by (simp add: cdefs)
  note w0 = w [of 0, simplified]
  have "0 \<le> ?n" using True by (simp add: pos_imp_zdiv_nonneg_iff)
  then consider "?n = 0" | "0 < ?n" "?n \<le> 5" | "5 < ?n" "?n \<le> 180" | "180 < ?n" by linarith
  then show ?thesis
  proof cases
    case 1
    then show ?thesis using assms(6,7) by (simp add: start_pending_body_def mp runs_due_def)
  next
    case 2
    then show ?thesis
      using assms(6,7) loop
      by (simp add: start_pending_body_def mp runs_due_def clock_status_of_def StartPendingTask_def Let_def)
  next
    case 3
    then show ?thesis
      using assms(6,7) loop b [of False True] w [unfolded add.assoc]
      by (simp add: start_pending_body_def mp runs_due_def clock_status_of_def StartPendingTask_def Let_def
          add_pending_if_def add.assoc)
  next
    case 4
    then show ?thesis
      using assms(6,7) w0
      by (auto simp: start_pending_body_def mp runs_due_def clock_status_of_def StartPendingTask_def Let_def
          add_pending_if_def)
  qed
qed

end

section \<open>What a round of scheduling does\<close>

text \<open>
  The specification, on the syntax of the schedule: the task after a round at time \<open>now\<close>, when the
  minutes up to \<open>a\<close> have been processed.
\<close>

definition due_ts :: "cron_ast \<Rightarrow> int \<Rightarrow> bool \<Rightarrow> bool \<Rightarrow> bool" where
  "due_ts ast m floating fixed = due_at ast (m div 1000000 + 946684800) floating fixed"

fun planned_task :: "cron_ast \<Rightarrow> int \<Rightarrow> int \<Rightarrow> CronTask \<Rightarrow> CronTask" where
  "planned_task (AstSeconds n) a now t =
     (if nextRunTime t = 0 then t\<lparr> nextRunTime := now + n * 1000000 \<rparr>
      else if nextRunTime t \<le> now then
        t\<lparr> nextRunTime := now + n * 1000000,
           pendingRunCount := (if pendingRunCount t = 0 then 1 else pendingRunCount t) \<rparr>
      else t)"
| "planned_task (AstFields ms hs ds mos ws) a now t =
     t\<lparr> pendingRunCount := pendingRunCount t + runs_due (due_ts (AstFields ms hs ds mos ws)) a now \<rparr>"

text \<open>Every loaded job carries the schedule that its text parses to.\<close>

definition jobs_parsed :: "strcasecmp \<Rightarrow> ('jh, CronJob) dynahash_ops \<Rightarrow> ('jh, 'th) globals \<Rightarrow> bool" where
  "jobs_parsed psc HJ g = (\<forall>jid j. job_of HJ g jid = Some j \<longrightarrow> parse psc (Some (scheduleText j)) = Some (schedule j))"

definition counts_below :: "int \<Rightarrow> ('th, CronTask) dynahash_ops \<Rightarrow> ('jh, 'th) globals \<Rightarrow> bool" where
  "counts_below b HT g = (\<forall>jid t. task_of HT g jid = Some t \<longrightarrow> 0 \<le> pendingRunCount t \<and> pendingRunCount t \<le> b)"

definition job_ast :: "strcasecmp \<Rightarrow> CronJob \<Rightarrow> cron_ast" where
  "job_ast psc j = the (read_schedule psc (scheduleText j))"

text \<open>The minute the round starts from, and a clock reading within the range of \<open>int\<close> seconds.\<close>

definition round_start :: "('jh, 'th) globals \<Rightarrow> int \<Rightarrow> int" where
  "round_start g now = (if lastMinute g = 0 then StartOfMinute True now else lastMinute g)"

definition clock_ok :: "('jh, 'th) globals \<Rightarrow> int \<Rightarrow> bool" where
  "clock_ok g now = (60000000 dvd lastMinute g \<and> 0 \<le> lastMinute g \<and> 0 \<le> now
     \<and> now - round_start g now < 2147483648000000)"

lemma round_start_minute: "clock_ok g now \<Longrightarrow> 60000000 dvd round_start g now \<and> 0 \<le> round_start g now"
  by (auto simp: clock_ok_def round_start_def StartOfMinute_div)

lemma count_minutes_cong:
  "(\<And>m. a \<le> m \<Longrightarrow> P m = Q m) \<Longrightarrow> count_minutes P a n = count_minutes Q a n"
  unfolding count_minutes_def by (intro arg_cong [where f = int] arg_cong [where f = length] filter_cong) auto

lemma runs_due_cong:
  assumes "\<And>m. 0 \<le> m \<Longrightarrow> P m = Q m" and "0 \<le> a" and "0 \<le> now"
  shows "runs_due P a now = runs_due Q a now"
proof -
  have c: "count_minutes (\<lambda>m. P m fl fx) a n = count_minutes (\<lambda>m. Q m fl fx) a n" for fl fx n
    using assms by (intro count_minutes_cong) simp
  have "P (StartOfMinute True now) = Q (StartOfMinute True now)"
    using assms by (intro assms(1)) (simp add: StartOfMinute_div)
  then show ?thesis by (simp add: runs_due_def c Let_def)
qed

lemma parsed_job_cases:
  assumes "parse psc (Some (scheduleText j)) = Some (schedule j)"
  shows "read_schedule psc (scheduleText j) = Some (job_ast psc j)"
    and "ast_valid (job_ast psc j)" and "schedule j = denote (job_ast psc j)"
  using assms by (auto simp: parse_def parse_with_error_spec job_ast_def split: option.splits if_splits)

lemma seconds_denote [simp]: "SECONDS (denote (AstFields ms hs ds mos ws)) = False"
  by (simp add: flags_fold_denote_item empty_schedule_def)

context pg_timestamps
begin

lemma start_pending_body_plans:
  assumes "60000000 dvd a" and "0 \<le> a" and "0 \<le> now" and "now - a < 2147483648000000"
    and "0 \<le> pendingRunCount task" and "pendingRunCount task + 181 \<le> INT_MAX"
    and "getJob (jobId task) = Some job" and "parse psc (Some (scheduleText job)) = Some (schedule job)"
  shows "start_pending_body pt getJob (MinutesPassed pt a now) a now task
     = Inr (planned_task (job_ast psc job) a now task)"
proof (cases "job_ast psc job")
  case (AstSeconds n)
  then have "seconds_job job n"
    using parsed_job_cases [OF assms(8)] by (simp add: seconds_job_def)
  moreover have "1 \<le> n" using AstSeconds parsed_job_cases [OF assms(8)] by simp
  ultimately show ?thesis
    using AstSeconds assms(7) StartSecondIntervalTask_cases [of job n task now]
    by (simp add: start_pending_body_def seconds_job_def)
next
  case (AstFields ms hs ds mos ws)
  have "ShouldRunTask pt (schedule job) m = due_ts (job_ast psc job) m" if "0 \<le> m" for m
    using ShouldRunTask_reads [OF assms(8), of pt m] parsed_job_cases(1) [OF assms(8)] that
    by (auto simp: due_ts_def to_time_t fun_eq_iff)
  then have "runs_due (ShouldRunTask pt (schedule job)) a now = runs_due (due_ts (job_ast psc job)) a now"
    using assms by (intro runs_due_cong) auto
  moreover have "\<not> SECONDS (schedule job)"
    using AstFields parsed_job_cases(3) [OF assms(8)] by (simp only: seconds_denote not_False_eq_True)
  ultimately show ?thesis
    using StartPendingTask_runs [of a now task getJob job] assms AstFields by simp
qed

lemma round_end:
  assumes "clock_ok g now"
  shows "(if clock_status_of (MinutesPassed pt (round_start g now) now) \<noteq> CLOCK_JUMP_BACKWARD
          then StartOfMinute True now else round_start g now) = max (round_start g now) (StartOfMinute True now)"
proof -
  let ?a = "round_start g now"
  have a: "60000000 dvd ?a" "0 \<le> ?a" and n: "0 \<le> now" "now - ?a < 2147483648000000"
    using assms round_start_minute [OF assms] by (auto simp: clock_ok_def)
  show ?thesis
  proof (cases "?a < now")
    case False
    have "StartOfMinute True now \<le> now" using n(1) by (simp add: StartOfMinute_nonneg)
    with False show ?thesis by (simp add: minutes_backward clock_status_of_def)
  next
    case True
    then have "StartOfMinute True now = ?a + 60000000 * int (nat ((now - ?a) div 60000000))"
      using a by (intro StartOfMinute_step) auto
    moreover have "0 \<le> (now - ?a) div 60000000" using True by (simp add: pos_imp_zdiv_nonneg_iff)
    ultimately show ?thesis
      using minutes_value [OF True n(2)] by (auto simp: clock_status_of_def)
  qed
qed

end

text \<open>The contracts the scheduler relies on: timestamps and the two tables.\<close>

locale scheduler = pg_timestamps pt + cron_tables HJ HT
  for pt :: pg_time and HJ :: "('jh, CronJob) dynahash_ops" and HT :: "('th, CronTask) dynahash_ops"
begin

lemma StartPendingTasks_spec:
  assumes "tables_agree HJ HT g" and "jobs_parsed psc HJ g" and "counts_below (INT_MAX - 181) HT g"
    and "clock_ok g now"
  shows "\<exists>g'. StartPendingTasks pt HJ HT (LoadTasksList HT g) now g = ([], Inr g')
     \<and> (\<forall>jid. task_of HT g' jid =
          (case job_of HJ g jid of None \<Rightarrow> task_of HT g jid
           | Some j \<Rightarrow> map_option (planned_task (job_ast psc j) (round_start g now) now) (task_of HT g jid)))
     \<and> (\<exists>tt. g' = g\<lparr> CronTaskHashTable := tt, lastMinute := max (round_start g now) (StartOfMinute True now) \<rparr>)"
proof -
  let ?a = "round_start g now" and ?tbl = "CronTaskHashTable g"
  let ?getJob = "getCronJob HJ (CronJobHashTable g)"
  let ?body = "\<lambda>task. ([] :: event list, map_sum id Some (start_pending_body pt ?getJob (MinutesPassed pt ?a now) ?a now task))"
  let ?r = "\<lambda>t. case ?getJob (jobId t) of None \<Rightarrow> Some t | Some j \<Rightarrow> Some (planned_task (job_ast psc j) ?a now t)"
  have a: "60000000 dvd ?a" "0 \<le> ?a" "0 \<le> now" "now - ?a < 2147483648000000"
    using assms(4) round_start_minute [OF assms(4)] by (auto simp: clock_ok_def)
  have body: "snd (?body t) = Inr (?r t)" if "h_find HT ?tbl k = Some t" for k t
  proof (cases "?getJob (jobId t)")
    case None
    then show ?thesis by (simp add: start_pending_body_def)
  next
    case (Some j)
    have "parse psc (Some (scheduleText j)) = Some (schedule j)"
      using assms(2) Some by (auto simp: jobs_parsed_def job_of_def)
    moreover have "0 \<le> pendingRunCount t \<and> pendingRunCount t \<le> INT_MAX - 181"
      using assms(3) that by (auto simp: counts_below_def task_of_def)
    then have "0 \<le> pendingRunCount t" "pendingRunCount t + 181 \<le> INT_MAX" by linarith+
    ultimately show ?thesis
      using Some start_pending_body_plans [OF a, of t ?getJob j psc] by simp
  qed
  obtain tt where f: "foreach_task HT ?body (h_seq HT ?tbl) ?tbl
        = (concat (map (\<lambda>k. fst (?body (the (h_find HT ?tbl k)))) (h_seq HT ?tbl)), Inr tt)"
    and h: "h_find HT tt = (\<lambda>k. if k \<in> set (h_seq HT ?tbl) then Option.bind (h_find HT ?tbl k) ?r else h_find HT ?tbl k)"
    using tasks.foreach_task_spec [of "h_seq HT ?tbl" ?tbl ?body ?r] tasks.seq [of ?tbl] body by auto
  have "concat (map (\<lambda>k. fst (?body (the (h_find HT ?tbl k)))) (h_seq HT ?tbl)) = []" by simp
  with f have f: "foreach_task HT ?body (h_seq HT ?tbl) ?tbl = ([], Inr tt)" by simp
  let ?g' = "g\<lparr> CronTaskHashTable := tt, lastMinute := max ?a (StartOfMinute True now) \<rparr>"
  have "StartPendingTasks pt HJ HT (LoadTasksList HT g) now g = ([], Inr ?g')"
    unfolding StartPendingTasks_def LoadTasksList_def Let_def round_start_def [of g now, symmetric] round_end [OF assms(4)]
    using f by (simp add: io_simps)
  moreover have "task_of HT ?g' jid = (case job_of HJ g jid of None \<Rightarrow> task_of HT g jid
       | Some j \<Rightarrow> map_option (planned_task (job_ast psc j) ?a now) (task_of HT g jid))" for jid
    using assms(1) tasks.seq(2) [of ?tbl]
    by (cases "h_find HT ?tbl jid") (auto simp: task_of_def job_of_def h tables_agree_def domIff split: option.split)
  ultimately show ?thesis by blast
qed

end

interpretation doc_scheduler: scheduler pg_time_doc "alist_hash gj" "alist_hash gt"
  for gj :: CronJob and gt :: CronTask
  by unfold_locales

section \<open>Rounds in sequence\<close>

fun start_pending_rounds ::
  "pg_time \<Rightarrow> ('jh, CronJob) dynahash_ops \<Rightarrow> ('th, CronTask) dynahash_ops \<Rightarrow> int list \<Rightarrow> ('jh, 'th) globals \<Rightarrow>
     ('jh, 'th) globals step" where
  "start_pending_rounds pt HJ HT [] g = returnIO g"
| "start_pending_rounds pt HJ HT (now # nows) g =
     bindIO (StartPendingTasks pt HJ HT (LoadTasksList HT g) now g) (start_pending_rounds pt HJ HT nows)"

text \<open>
  Clock readings that are never six minutes or more ahead of the last processed minute; they may go
  back.
\<close>

fun no_forward_jump :: "int \<Rightarrow> int list \<Rightarrow> bool" where
  "no_forward_jump a [] = True"
| "no_forward_jump a (now # nows) =
     (0 \<le> now \<and> now < a + 360000000 \<and> no_forward_jump (max a (StartOfMinute True now)) nows)"

lemma next_minute:
  assumes "60000000 dvd a" and "0 \<le> a" and "0 \<le> now"
  shows "max a (StartOfMinute True now) = a + 60000000 * int (nat ((now - a) div 60000000))"
proof (cases "a \<le> now")
  case True
  then show ?thesis using StartOfMinute_step [OF assms(1,2) True] by simp
next
  case False
  moreover have "StartOfMinute True now \<le> now" using assms(3) by (simp add: StartOfMinute_nonneg)
  moreover have "(now - a) div 60000000 \<le> 0" using False by linarith
  ultimately show ?thesis by simp
qed

lemma runs_due_small:
  "now < a + 360000000 \<Longrightarrow>
     runs_due P a now = count_minutes (\<lambda>m. P m True True) a (nat ((now - a) div 60000000)) \<and> runs_due P a now \<le> 5"
proof -
  assume "now < a + 360000000"
  then have "(now - a) div 60000000 \<le> 5" by linarith
  then show ?thesis
    using count_minutes_bounds [of "\<lambda>m. P m True True" a "nat ((now - a) div 60000000)"]
    by (auto simp: runs_due_def Let_def)
qed

lemma planned_task_keeps:
  assumes "now < a + 360000000" and "0 \<le> pendingRunCount t" and "pendingRunCount t \<le> b"
  shows "jobId (planned_task ast a now t) = jobId t \<and> isActive (planned_task ast a now t) = isActive t
     \<and> 0 \<le> pendingRunCount (planned_task ast a now t) \<and> pendingRunCount (planned_task ast a now t) \<le> b + 5"
  using assms runs_due_small [OF assms(1), of "due_ts ast"] runs_due_bounds [of "due_ts ast" a now]
  by (cases ast) auto

context scheduler
begin

lemma round_keeps:
  assumes "tables_agree HJ HT g" and "jobs_parsed psc HJ g" and "counts_below b HT g" and "b \<le> INT_MAX - 181"
    and "lastMinute g \<noteq> 0" and "60000000 dvd lastMinute g" and "0 \<le> lastMinute g"
    and "0 \<le> now" and "now < lastMinute g + 360000000"
  obtains g' where "StartPendingTasks pt HJ HT (LoadTasksList HT g) now g = ([], Inr g')"
    and "tables_agree HJ HT g'" and "jobs_parsed psc HJ g'" and "counts_below (b + 5) HT g'"
    and "lastMinute g' = max (lastMinute g) (StartOfMinute True now)" and "job_of HJ g' = job_of HJ g"
    and "\<And>jid j. job_of HJ g jid = Some j \<Longrightarrow>
       task_of HT g' jid = map_option (planned_task (job_ast psc j) (lastMinute g) now) (task_of HT g jid)"
proof -
  have "counts_below (INT_MAX - 181) HT g" using assms(3,4) by (force simp: counts_below_def)
  moreover have rs: "round_start g now = lastMinute g" using assms(5) by (simp add: round_start_def)
  moreover have "clock_ok g now" using assms rs by (simp add: clock_ok_def)
  ultimately obtain g' where r: "StartPendingTasks pt HJ HT (LoadTasksList HT g) now g = ([], Inr g')"
    and t: "\<And>jid. task_of HT g' jid = (case job_of HJ g jid of None \<Rightarrow> task_of HT g jid
           | Some j \<Rightarrow> map_option (planned_task (job_ast psc j) (lastMinute g) now) (task_of HT g jid))"
    and g': "\<exists>tt. g' = g\<lparr> CronTaskHashTable := tt, lastMinute := max (lastMinute g) (StartOfMinute True now) \<rparr>"
    using StartPendingTasks_spec [OF assms(1,2), of now] unfolding rs by blast
  have j: "job_of HJ g' = job_of HJ g" using g' by (auto simp: job_of_def fun_eq_iff)
  have k: "\<exists>t0. task_of HT g jid = Some t0 \<and> jobId t' = jobId t0 \<and> isActive t' = isActive t0
      \<and> 0 \<le> pendingRunCount t' \<and> pendingRunCount t' \<le> b + 5" if "task_of HT g' jid = Some t'" for jid t'
    using that planned_task_keeps [OF assms(9)] assms(3)
    by (fastforce simp: t counts_below_def split: option.splits)
  have s: "task_of HT g' jid = None \<longleftrightarrow> task_of HT g jid = None" for jid
    by (simp add: t split: option.split)
  show ?thesis
  proof (rule that [OF r])
    show "tables_agree HJ HT g'"
      unfolding tables_agree_def
    proof (intro conjI allI impI)
      fix jid t' assume "task_of HT g' jid = Some t'"
      with k [OF this] assms(1) show "jobId t' = jid" "isActive t' = (job_of HJ g' jid \<noteq> None)"
        by (auto simp: tables_agree_def j)
    next
      fix jid j' assume "job_of HJ g' jid = Some j'"
      with assms(1) s show "job_jobId j' = jid" "task_of HT g' jid \<noteq> None"
        by (auto simp: tables_agree_def j)
    qed
    show "jobs_parsed psc HJ g'" using assms(2) by (simp add: jobs_parsed_def j)
    show "counts_below (b + 5) HT g'" using k by (auto simp: counts_below_def)
  qed (use g' j t in auto)
qed

lemma rounds_count:
  assumes "tables_agree HJ HT g" and "jobs_parsed psc HJ g" and "counts_below b HT g"
    and "b + 5 * int (length nows) \<le> INT_MAX - 181"
    and "lastMinute g \<noteq> 0" and "60000000 dvd lastMinute g" and "0 \<le> lastMinute g"
    and "no_forward_jump (lastMinute g) nows"
    and "job_of HJ g jid = Some j" and "job_ast psc j = AstFields ms hs ds mos ws" and "task_of HT g jid = Some t"
  shows "\<exists>g' n. start_pending_rounds pt HJ HT nows g = ([], Inr g')
     \<and> lastMinute g' = lastMinute g + 60000000 * int n
     \<and> lastMinute g' = fold max (map (StartOfMinute True) nows) (lastMinute g)
     \<and> task_of HT g' jid = Some (t\<lparr> pendingRunCount :=
          pendingRunCount t + count_minutes (\<lambda>m. due_ts (job_ast psc j) m True True) (lastMinute g) n \<rparr>)"
  using assms
proof (induction nows arbitrary: g t b)
  case Nil
  show ?case using Nil.prems by (intro exI [where x = g] exI [where x = 0]) (simp add: io_simps)
next
  case (Cons now nows)
  let ?a = "lastMinute g" and ?b = "max (lastMinute g) (StartOfMinute True now)"
  let ?P = "\<lambda>m. due_ts (job_ast psc j) m True True"
  have now: "0 \<le> now" "now < ?a + 360000000" and jump: "no_forward_jump ?b nows" using Cons.prems(8) by simp_all
  have bl: "b \<le> INT_MAX - 181" "(b + 5) + 5 * int (length nows) \<le> INT_MAX - 181" using Cons.prems(4) by simp_all
  obtain g1 where r: "StartPendingTasks pt HJ HT (LoadTasksList HT g) now g = ([], Inr g1)"
    and g1: "tables_agree HJ HT g1" "jobs_parsed psc HJ g1" "counts_below (b + 5) HT g1"
    and lm: "lastMinute g1 = ?b" and jobs: "job_of HJ g1 = job_of HJ g"
    and tk: "task_of HT g1 jid = map_option (planned_task (job_ast psc j) ?a now) (task_of HT g jid)"
    using round_keeps [OF Cons.prems(1-3) bl(1) Cons.prems(5-7) now] Cons.prems(9) by metis
  define n1 where "n1 = nat ((now - ?a) div 60000000)"
  have b: "?b = ?a + 60000000 * int n1" unfolding n1_def by (rule next_minute [OF Cons.prems(6,7) now(1)])
  let ?t1 = "t\<lparr> pendingRunCount := pendingRunCount t + count_minutes ?P ?a n1 \<rparr>"
  have t1: "task_of HT g1 jid = Some ?t1"
    using tk Cons.prems(10,11) runs_due_small [OF now(2), of "due_ts (job_ast psc j)"] by (simp add: n1_def)
  have b0: "?b \<noteq> 0" "60000000 dvd ?b" "0 \<le> ?b" using Cons.prems(5-7) b by (simp_all del: max_def)
  have "\<exists>g' n. start_pending_rounds pt HJ HT nows g1 = ([], Inr g')
     \<and> lastMinute g' = lastMinute g1 + 60000000 * int n
     \<and> lastMinute g' = fold max (map (StartOfMinute True) nows) (lastMinute g1)
     \<and> task_of HT g' jid = Some (?t1\<lparr> pendingRunCount := pendingRunCount ?t1 + count_minutes ?P (lastMinute g1) n \<rparr>)"
    using g1 bl(2) b0 jump Cons.prems(9,10) t1 by (intro Cons.IH [where b = "b + 5"]) (simp_all add: lm jobs)
  then obtain g' n where "start_pending_rounds pt HJ HT nows g1 = ([], Inr g')"
    and "lastMinute g' = ?b + 60000000 * int n"
    and "lastMinute g' = fold max (map (StartOfMinute True) nows) ?b"
    and "task_of HT g' jid = Some (?t1\<lparr> pendingRunCount := pendingRunCount ?t1 + count_minutes ?P ?b n \<rparr>)"
    unfolding lm by blast
  then show ?case
    using r b by (intro exI [where x = g'] exI [where x = "n1 + n"])
      (simp add: count_minutes_add max.commute algebra_simps)
qed

end

section \<open>Properties\<close>

text \<open>An example: one job that is due every minute.\<close>

definition minutely_job :: CronJob where
  "minutely_job = \<lparr> job_jobId = 7, scheduleText = ''* * * * *'',
     schedule = denote (AstFields [ItStar] [ItStar] [ItStar] [ItStar] [ItStar]), command = ''SELECT 1'',
     nodeName = ''localhost'', nodePort = 5432, database = ''postgres'', userName = ''alice'' \<rparr>"

definition minutely_globals :: "((int \<times> CronJob) list, (int \<times> CronTask) list) globals" where
  "minutely_globals = example_globals\<lparr> CronJobHashTable := [(7, minutely_job)],
     CronTaskHashTable := [(7, InitCronTask raw_task 7)], lastMinute := 60000000 \<rparr>"

lemma read_minutely:
  "read_schedule ascii_strcasecmp ''* * * * *'' = Some (AstFields [ItStar] [ItStar] [ItStar] [ItStar] [ItStar])"
  by (simp add: read_eval)

lemma minutely_ok:
  "job_ast ascii_strcasecmp minutely_job = AstFields [ItStar] [ItStar] [ItStar] [ItStar] [ItStar]"
  "job_of (alist_hash raw_job) minutely_globals 7 = Some minutely_job"
  "task_of (alist_hash raw_task) minutely_globals 7 = Some (InitCronTask raw_task 7)"
  "jobs_parsed ascii_strcasecmp (alist_hash raw_job) minutely_globals"
  "tables_agree (alist_hash raw_job) (alist_hash raw_task) minutely_globals"
  "0 \<le> b \<Longrightarrow> counts_below b (alist_hash raw_task) minutely_globals"
  "lastMinute minutely_globals = 60000000"
  by (auto simp: job_ast_def minutely_job_def read_minutely job_of_def getCronJob_def minutely_globals_def
      example_globals_def task_of_def alist_hash_def jobs_parsed_def parse_def parse_with_error_spec
      tables_agree_def counts_below_def InitCronTask_def lower_def upper_def split: if_splits)

lemma minutely_not_seconds: "\<not> SECONDS (schedule minutely_job)"
  by (simp add: minutely_job_def del: denote.simps)

lemma star_matches:
  "field_matches type [ItStar] v \<longleftrightarrow> v \<in> norm_value type ` {lower type..upper type}"
  by (auto simp: field_matches_def progression_def)

lemma minutely_due: "due_ts (AstFields [ItStar] [ItStar] [ItStar] [ItStar] [ItStar]) m True fixed"
proof -
  let ?t = "m div 1000000 + 946684800"
  have "tm_wday (gmtime ?t) \<in> (\<lambda>v. if v = 7 then 0 else v) ` {0..7}"
    using gmtime_ranges [of ?t] by (intro image_eqI [where x = "tm_wday (gmtime ?t)"]) auto
  moreover have "(\<lambda>v. v) ` A = A" for A :: "int set" by simp
  ultimately show ?thesis
    using gmtime_ranges [of ?t] tm_mday_31 [of ?t]
    by (auto simp: due_ts_def day_matches_def star_matches norm_value_def lower_def upper_def image_iff)
qed

text \<open>
  C4: one round of StartPendingTasks (src/nedo_cron.c) over the whole task table. With the
  documented timestamp functions, tables that agree and jobs that carry their parsed schedules, the
  round returns and turns every task with a job into the task its schedule text calls for. A seconds
  schedule is planned or made pending at its time. A five-field schedule gains one pending run for
  each due minute since the last processed one, if at most 5 minutes have passed; after 6 to 180
  minutes only schedules with fixed minute and hour catch up, and the others gain at most one run;
  after more, only the current minute counts; and when no minute has passed, or the clock went back,
  nothing happens. The last processed minute never moves back, and no other variable changes.
\<close>

theorem StartPendingTasks_refines:
  assumes "scheduler pt HJ HT" and "tables_agree HJ HT g" and "jobs_parsed psc HJ g"
    and "counts_below (INT_MAX - 181) HT g" and "clock_ok g now"
  shows "\<exists>g'. StartPendingTasks pt HJ HT (LoadTasksList HT g) now g = ([], Inr g')
     \<and> (\<forall>jid. task_of HT g' jid =
          (case job_of HJ g jid of None \<Rightarrow> task_of HT g jid
           | Some j \<Rightarrow> map_option (planned_task (job_ast psc j) (round_start g now) now) (task_of HT g jid)))
     \<and> (\<exists>tt. g' = g\<lparr> CronTaskHashTable := tt, lastMinute := max (round_start g now) (StartOfMinute True now) \<rparr>)"
  using assms by (rule scheduler.StartPendingTasks_spec)

theorem StartPendingTasks_refines_witness:
  "\<exists>g' t'. StartPendingTasks pg_time_doc (alist_hash raw_job) (alist_hash raw_task)
        (LoadTasksList (alist_hash raw_task) minutely_globals) 150000000 minutely_globals = ([], Inr g')
     \<and> task_of (alist_hash raw_task) g' 7 = Some t' \<and> pendingRunCount t' = 1 \<and> lastMinute g' = 120000000"
proof -
  have c: "clock_ok minutely_globals 150000000" "round_start minutely_globals 150000000 = 60000000"
    by (simp_all add: clock_ok_def round_start_def minutely_ok)
  have s: "StartOfMinute True 150000000 = 120000000" by (simp add: StartOfMinute_nonneg)
  have "runs_due (due_ts (AstFields [ItStar] [ItStar] [ItStar] [ItStar] [ItStar])) 60000000 150000000 = 1"
    by (simp add: runs_due_def count_minutes_def minutely_due)
  then show ?thesis
    using StartPendingTasks_refines [OF doc_scheduler.scheduler_axioms minutely_ok(5,4) minutely_ok(6) c(1)]
    by (fastforce simp: minutely_ok c s cdefs InitCronTask_def)
qed

text \<open>
  C1: every minute counts exactly once. Over any sequence of rounds of StartPendingTasks
  (src/nedo_cron.c) whose clock readings may repeat or go back but never run six minutes or more
  ahead of the last processed minute, a task with a five-field schedule gains exactly as many pending
  runs as there are due minutes after the first processed minute and up to the last, none lost and
  none twice; and the last processed minute ends at the greatest minute read.
\<close>

theorem every_minute_once:
  assumes "scheduler pt HJ HT" and "tables_agree HJ HT g" and "jobs_parsed psc HJ g" and "counts_below b HT g"
    and "b + 5 * int (length nows) \<le> INT_MAX - 181"
    and "lastMinute g \<noteq> 0" and "60000000 dvd lastMinute g" and "0 \<le> lastMinute g"
    and "no_forward_jump (lastMinute g) nows"
    and "job_of HJ g jid = Some j" and "job_ast psc j = AstFields ms hs ds mos ws" and "task_of HT g jid = Some t"
  shows "\<exists>g' n. start_pending_rounds pt HJ HT nows g = ([], Inr g')
     \<and> lastMinute g' = lastMinute g + 60000000 * int n
     \<and> lastMinute g' = fold max (map (StartOfMinute True) nows) (lastMinute g)
     \<and> task_of HT g' jid = Some (t\<lparr> pendingRunCount :=
          pendingRunCount t + count_minutes (\<lambda>m. due_ts (job_ast psc j) m True True) (lastMinute g) n \<rparr>)"
  using assms by (rule scheduler.rounds_count)

theorem every_minute_once_witness:
  "\<exists>g'. start_pending_rounds pg_time_doc (alist_hash raw_job) (alist_hash raw_task)
        [130000000, 90000000, 250000000] minutely_globals = ([], Inr g')
     \<and> task_of (alist_hash raw_task) g' 7 = Some (InitCronTask raw_task 7\<lparr> pendingRunCount := 3 \<rparr>)
     \<and> lastMinute g' = 240000000"
proof -
  have s: "StartOfMinute True 130000000 = 120000000" "StartOfMinute True 90000000 = 60000000"
    "StartOfMinute True 250000000 = 240000000"
    by (simp_all add: StartOfMinute_nonneg)
  have n: "(240000000 :: int) = 60000000 + 60000000 * int n \<longleftrightarrow> n = 3" for n by auto
  have c: "count_minutes (\<lambda>m. due_ts (AstFields [ItStar] [ItStar] [ItStar] [ItStar] [ItStar]) m True True) 60000000 3 = 3"
    by (simp add: count_minutes_def minutely_due)
  have "\<exists>g' n. start_pending_rounds pg_time_doc (alist_hash raw_job) (alist_hash raw_task)
        [130000000, 90000000, 250000000] minutely_globals = ([], Inr g')
     \<and> lastMinute g' = 60000000 + 60000000 * int n
     \<and> lastMinute g' = 240000000
     \<and> task_of (alist_hash raw_task) g' 7 = Some (InitCronTask raw_task 7\<lparr> pendingRunCount := 0
         + count_minutes (\<lambda>m. due_ts (AstFields [ItStar] [ItStar] [ItStar] [ItStar] [ItStar]) m True True) 60000000 n \<rparr>)"
    using every_minute_once [where b = 0 and nows = "[130000000, 90000000, 250000000]",
        OF doc_scheduler.scheduler_axioms minutely_ok(5,4) minutely_ok(6) _ _ _ _ _ minutely_ok(2,1,3)]
    by (simp add: minutely_ok cdefs s InitCronTask_def del: start_pending_rounds.simps)
  then obtain g' n where "start_pending_rounds pg_time_doc (alist_hash raw_job) (alist_hash raw_task)
        [130000000, 90000000, 250000000] minutely_globals = ([], Inr g')"
    and "lastMinute g' = 240000000" and "n = 3"
    and "task_of (alist_hash raw_task) g' 7 = Some (InitCronTask raw_task 7\<lparr> pendingRunCount := 0
         + count_minutes (\<lambda>m. due_ts (AstFields [ItStar] [ItStar] [ItStar] [ItStar] [ItStar]) m True True) 60000000 n \<rparr>)"
    using n by metis
  then show ?thesis by (simp add: c)
qed

text \<open>
  C25: the minute loop of StartPendingTask (src/nedo_cron.c) ends, given that PostgreSQL's function
  adds milliseconds, from any minute to any other, and changes nothing of the task but its count of
  pending runs; the other branches of StartPendingTask have no loop, so a call for a loaded job
  always returns.
\<close>

theorem minutes_loop_returns:
  assumes "pg_timestamps pt"
  shows "(\<exists>n. minutes_loop pt s fl fx b a task = Some (task\<lparr> pendingRunCount := n \<rparr>))
     \<and> (\<exists>n. StartPendingTask pt (Some j) task cs a now = Inr (task\<lparr> pendingRunCount := n \<rparr>))"
proof -
  have m: "\<exists>n. minutes_loop pt s fl fx b a task = Some (task\<lparr> pendingRunCount := n \<rparr>)" for s fl fx b
    by (rule pg_timestamps.minutes_loop_some [OF assms])
  have p: "\<exists>n. add_pending_if c (task\<lparr> pendingRunCount := m \<rparr>) = task\<lparr> pendingRunCount := n \<rparr>" for c m
    by (simp add: add_pending_if_def) blast
  from p [of _ "pendingRunCount task"] have p0: "\<exists>n. add_pending_if c task = task\<lparr> pendingRunCount := n \<rparr>" for c by simp
  obtain n where n: "minutes_loop pt (schedule j) True True (StartOfMinute True now) a task = Some (task\<lparr> pendingRunCount := n \<rparr>)"
    using m by blast
  obtain k where k: "minutes_loop pt (schedule j) False True (StartOfMinute True now) a task = Some (task\<lparr> pendingRunCount := k \<rparr>)"
    using m by blast
  show ?thesis using m n k p p0 by (cases cs) (auto simp: StartPendingTask_def Let_def)
qed

theorem minutes_loop_returns_witness:
  "\<exists>n. minutes_loop pg_time_doc empty_schedule True True 6000000000 0 (InitCronTask raw_task 7)
     = Some (InitCronTask raw_task 7\<lparr> pendingRunCount := n \<rparr>)"
  using minutes_loop_returns [OF doc.pg_timestamps_axioms, of empty_schedule True True 6000000000 0 "InitCronTask raw_task 7"]
  by blast

text \<open>
  C27: a clock that goes back is not seen. Because PostgreSQL's TimestampDifference never gives a
  negative span, StartPendingTasks (src/nedo_cron.c) has the status for a backward jump exactly when
  less than a whole minute has passed since the last processed minute, however far back the clock is,
  and then it does not even call StartPendingTask: a five-field job stays as it is. The branch of
  StartPendingTask that would run floating jobs after a backward jump is never reached.
\<close>

theorem backward_jump_unseen:
  assumes "pg_timestamps pt" and "now - a < 2147483648000000"
  shows "(clock_status_of (MinutesPassed pt a now) = CLOCK_JUMP_BACKWARD \<longleftrightarrow> now < a + 60000000)
     \<and> (now < a + 60000000 \<longrightarrow> MinutesPassed pt a now = 0
          \<and> (getJob (jobId task) = Some job \<and> \<not> SECONDS (schedule job) \<longrightarrow>
              start_pending_body pt getJob (MinutesPassed pt a now) a now task = Inr task))"
proof -
  have n: "MinutesPassed pt a now = (if a < now then (now - a) div 60000000 else 0)"
    using pg_timestamps.minutes_value [OF assms(1) _ assms(2)] pg_timestamps.minutes_backward [OF assms(1)] by simp
  have d: "a < now \<Longrightarrow> 0 \<le> (now - a) div 60000000" by (simp add: pos_imp_zdiv_nonneg_iff)
  have z: "a < now \<Longrightarrow> (now - a) div 60000000 = 0 \<longleftrightarrow> now < a + 60000000"
    using d by (auto simp: zdiv_eq_0_iff)
  have "clock_status_of (MinutesPassed pt a now) = CLOCK_JUMP_BACKWARD \<longleftrightarrow> MinutesPassed pt a now = 0"
    using d by (auto simp: n clock_status_of_def)
  with z n show ?thesis by (auto simp: start_pending_body_def)
qed

theorem backward_jump_unseen_witness:
  "MinutesPassed pg_time_doc 7200000000 0 = 0
   \<and> start_pending_body pg_time_doc (\<lambda>_. Some minutely_job) (MinutesPassed pg_time_doc 7200000000 0) 7200000000 0
       (InitCronTask raw_task 7) = Inr (InitCronTask raw_task 7)"
  using backward_jump_unseen [OF doc.pg_timestamps_axioms, of 0 7200000000 "\<lambda>_. Some minutely_job" "InitCronTask raw_task 7"
      minutely_job]
  by (auto simp: minutely_not_seconds)

end
