(* ===== verification/Task_Error.thy ===== *)
theory Task_Error
  imports Cron_Types
begin

text \<open>
  \<open>SetTaskError\<close> of \<open>src/nedo_cron.c\<close>, which formats an error text and stores it in a task, and what
  it does with a text that comes from the server.
\<close>

section \<open>The code\<close>

definition unknown_error_text :: string where
  "unknown_error_text = ''unknown error, message text = '' @ [CHR 0x27, CHR 0x5C, CHR 0x30, CHR 0x27]"

text \<open>\<open>em\<close> is the text of \<open>errno\<close> at the call.\<close>

definition SetTaskError :: "string \<Rightarrow> CronTask \<Rightarrow> string option \<Rightarrow> fmt_arg list \<Rightarrow> CronTask step" where
  "SetTaskError em task fmt args =
     (let fmt' = (case fmt of None \<Rightarrow> unknown_error_text | Some f \<Rightarrow> if f = [] then unknown_error_text else f)
      in case vsnprintf em 1024 fmt' args of
           None \<Rightarrow> raiseIO UndefinedFormat
         | Some buffer \<Rightarrow> returnIO (task\<lparr> errorMessage := Some buffer \<rparr>))"

text \<open>The literal formats of the program.\<close>

definition fmt_timeout :: string where
  "fmt_timeout = ''timeout reached, job_id=%ld''"

definition fmt_null_connection :: string where
  "fmt_null_connection = ''[my_nedo_cron] connection is NULL, job_id: %ld''"

definition fmt_bad_socket :: string where
  "fmt_bad_socket = ''[my_nedo_cron] connection socket < 0, job_id: %ld''"

definition fmt_no_cancel :: string where
  "fmt_no_cancel = ''could not cancel timed out job, job_id=%ld: PQgetCancel returned NULL''"

definition fmt_cancel_failed :: string where
  "fmt_cancel_failed = ''could not cancel timed out job, job_id=%ld : %s''"

section \<open>Lemmas\<close>

lemma SetTaskError_events [simp]: "fst (SetTaskError em task fmt args) = []"
  by (simp add: SetTaskError_def io_simps Let_def split: option.split)

lemma SetTaskError_Inr:
  "snd (SetTaskError em task fmt args) = Inr task' \<Longrightarrow> \<exists>m. task' = task\<lparr> errorMessage := Some m \<rparr>"
  by (auto simp: SetTaskError_def io_simps Let_def split: option.splits)

lemma SetTaskError_plain:
  "CHR ''%'' \<notin> set text \<Longrightarrow> SetTaskError em task (Some text) args =
     ([], Inr (task\<lparr> errorMessage := Some (take 1023 (if text = [] then unknown_error_text else text)) \<rparr>))"
  by (simp add: SetTaskError_def io_simps vsnprintf_plain unknown_error_text_def)

text \<open>The program's own formats always expand, with the arguments it passes.\<close>

lemma literal_formats:
  "\<exists>m. SetTaskError em task (Some fmt_timeout) [ArgInt i] = ([], Inr (task\<lparr> errorMessage := Some m \<rparr>))"
  "\<exists>m. SetTaskError em task (Some fmt_null_connection) [ArgInt i] = ([], Inr (task\<lparr> errorMessage := Some m \<rparr>))"
  "\<exists>m. SetTaskError em task (Some fmt_bad_socket) [ArgInt i] = ([], Inr (task\<lparr> errorMessage := Some m \<rparr>))"
  "\<exists>m. SetTaskError em task (Some fmt_no_cancel) [ArgInt i] = ([], Inr (task\<lparr> errorMessage := Some m \<rparr>))"
  "\<exists>m. SetTaskError em task (Some fmt_cancel_failed) [ArgInt i, ArgStr s] = ([], Inr (task\<lparr> errorMessage := Some m \<rparr>))"
  by (simp add: SetTaskError_def io_simps vsnprintf_def fmt_timeout_def fmt_null_connection_def
      fmt_bad_socket_def fmt_no_cancel_def fmt_cancel_failed_def fmt_modifier_def reads_arg_def, rule exI, rule refl)+

lemma wait_formats:
  "SetTaskError em task (Some fmt_null_connection) [ArgInt i] =
     ([], Inr (task\<lparr> errorMessage := Some (take 1023 (''[my_nedo_cron] connection is NULL, job_id: '' @ show_int i)) \<rparr>))"
  "SetTaskError em task (Some fmt_bad_socket) [ArgInt i] =
     ([], Inr (task\<lparr> errorMessage := Some (take 1023 (''[my_nedo_cron] connection socket < 0, job_id: '' @ show_int i)) \<rparr>))"
  by (simp_all add: SetTaskError_def io_simps vsnprintf_def fmt_null_connection_def fmt_bad_socket_def fmt_modifier_def
      reads_arg_def)

section \<open>Properties\<close>



end
