(* ===== verification/Wait.thy ===== *)
theory Wait
  imports Scheduler Task_Error
begin

text \<open>
  The waiting half of \<open>src/nedo_cron.c\<close>: \<open>TaskNeedsSocketWait\<close>, \<open>TaskWaitEvents\<close>,
  \<open>CalculateWaitTimeout\<close> and \<open>WaitForEvent\<close>. The wait event set is the list of the sockets registered
  in it; its memory, the reset of the latch and the \<open>CHECK_FOR_INTERRUPTS\<close> that ends \<open>WaitForEvent\<close> are
  left out.
\<close>

section \<open>The code\<close>

definition MaxSleep :: int where
  [cdefs]: "MaxSleep = 1000"

definition WL_SOCKET_READABLE :: int where
  [cdefs]: "WL_SOCKET_READABLE = 2"

definition WL_SOCKET_WRITEABLE :: int where
  [cdefs]: "WL_SOCKET_WRITEABLE = 4"

definition TaskNeedsSocketWait :: "CronTask \<Rightarrow> bool" where
  "TaskNeedsSocketWait task =
     (state task = CRON_TASK_CONNECTING \<or> state task = CRON_TASK_SENDING \<or> state task = CRON_TASK_RUNNING)"

definition TaskWaitEvents :: "CronTask \<Rightarrow> int" where
  "TaskWaitEvents task =
     (if polling_status task = PGRES_POLLING_READING then WL_SOCKET_READABLE
      else if polling_status task = PGRES_POLLING_WRITING then WL_SOCKET_WRITEABLE
      else 0)"

text \<open>
  The loop of \<open>CalculateWaitTimeout\<close> over the tasks; \<open>None\<close> is its early return of 0 for a pending
  run.
\<close>

definition earlier :: "pg_time \<Rightarrow> bool \<Rightarrow> int \<Rightarrow> int \<Rightarrow> int" where
  "earlier pt applies t next_time = (if applies then (if ts_exceeds pt t next_time 0 then t else next_time) else next_time)"

fun next_event_time :: "pg_time \<Rightarrow> (int \<Rightarrow> CronJob option) \<Rightarrow> CronTask list \<Rightarrow> int \<Rightarrow> int option" where
  "next_event_time pt getJob [] nextEventTime = Some nextEventTime"
| "next_event_time pt getJob (task # tasks) nextEventTime =
     (if state task = CRON_TASK_WAITING \<and> 0 < pendingRunCount task then None
      else
        let job = getJob (jobId task);
            t1 = earlier pt (job \<noteq> None \<and> SECONDS (schedule (the job)) \<and> nextRunTime task \<noteq> 0)
                   (nextRunTime task) nextEventTime;
            t2 = earlier pt ((state task = CRON_TASK_CONNECTING \<or> state task = CRON_TASK_SENDING)
                   \<and> startDeadline task \<noteq> 0) (startDeadline task) t1;
            t3 = earlier pt (state task = CRON_TASK_RUNNING \<and> runDeadline task \<noteq> 0 \<and> \<not> cancelRequested task)
                   (runDeadline task) t2
        in next_event_time pt getJob tasks t3)"

definition CalculateWaitTimeout :: "pg_time \<Rightarrow> (int \<Rightarrow> CronJob option) \<Rightarrow> CronTask list \<Rightarrow> int \<Rightarrow> int" where
  "CalculateWaitTimeout pt getJob taskList currentTime =
     (case next_event_time pt getJob taskList (EndOfMinute True currentTime) of
        None \<Rightarrow> 0
      | Some nextEventTime \<Rightarrow>
        (case ts_diff pt currentTime nextEventTime of (waitSecs, waitMs) \<Rightarrow>
          let timeoutMs = int32 (int32 waitSecs * 1000 + c_div waitMs 1000);
              timeoutMs = (if timeoutMs < 0 then 0 else timeoutMs)
          in if MaxSleep < timeoutMs then MaxSleep else timeoutMs))"

section \<open>Waiting for an event\<close>

text \<open>
  What the operating system and libpq answer: the time, the text of \<open>errno\<close>, the socket of a
  connection, and the events that end the wait, given the registered sockets (events, socket, task)
  and the timeout.
\<close>

datatype wait_event = LatchSet | PostmasterDeath | SocketReady int

type_synonym wait_set = "(int \<times> int \<times> int) list"

record wait_answers =
  wa_time :: int
  wa_strerror :: string
  PQsocket :: "nat \<Rightarrow> int"
  WaitEventSetWait :: "wait_set \<Rightarrow> int \<Rightarrow> wait_event list"

text \<open>The body of the registration loop: the task, and the socket to wait on, if any.\<close>

definition register_task ::
  "wait_answers \<Rightarrow> CronTask \<Rightarrow> (CronTask \<times> (int \<times> int) option) step" where
  "register_task wa task =
     (if \<not> TaskNeedsSocketWait task then returnIO (task, None)
      else if TaskWaitEvents task = 0 then returnIO (task, None)
      else (case conn task of
          None \<Rightarrow>
            bindIO (SetTaskError (wa_strerror wa) (task\<lparr> state := CRON_TASK_ERROR, polling_status := PGRES_POLLING_FAILED \<rparr>)
              (Some fmt_null_connection) [ArgInt (jobId task)]) (\<lambda>task'. returnIO (task', None))
        | Some c \<Rightarrow>
            if PQsocket wa c < 0 then
              bindIO (SetTaskError (wa_strerror wa) (task\<lparr> state := CRON_TASK_ERROR, polling_status := PGRES_POLLING_READING \<rparr>)
                (Some fmt_bad_socket) [ArgInt (jobId task)]) (\<lambda>task'. returnIO (task', None))
            else returnIO (task, Some (TaskWaitEvents task, PQsocket wa c))))"

fun register_loop ::
  "('th, CronTask) dynahash_ops \<Rightarrow> wait_answers \<Rightarrow> int list \<Rightarrow> 'th \<Rightarrow> wait_set \<Rightarrow> ('th \<times> wait_set) step" where
  "register_loop HT wa [] tbl ws = returnIO (tbl, ws)"
| "register_loop HT wa (k # ks) tbl ws =
     (case h_find HT tbl k of
        None \<Rightarrow> raiseIO NullPointer
      | Some task \<Rightarrow>
        bindIO (register_task wa task) (\<lambda>(task', reg).
          register_loop HT wa ks (h_store HT tbl k task')
            (case reg of None \<Rightarrow> ws | Some (ev, sock) \<Rightarrow> ws @ [(ev, sock, k)])))"

fun handle_events :: "('th, CronTask) dynahash_ops \<Rightarrow> wait_event list \<Rightarrow> 'th \<Rightarrow> 'th step" where
  "handle_events HT [] tbl = returnIO tbl"
| "handle_events HT (LatchSet # es) tbl = handle_events HT es tbl"
| "handle_events HT (PostmasterDeath # es) tbl = raiseIO (ProcExit 1)"
| "handle_events HT (SocketReady k # es) tbl =
     (case h_find HT tbl k of
        None \<Rightarrow> raiseIO NullPointer
      | Some task \<Rightarrow> handle_events HT es (h_store HT tbl k (task\<lparr> isSocketReady := True \<rparr>)))"

definition WaitForEvent ::
  "pg_time \<Rightarrow> ('jh, CronJob) dynahash_ops \<Rightarrow> ('th, CronTask) dynahash_ops \<Rightarrow> wait_answers \<Rightarrow> int list \<Rightarrow>
     ('jh, 'th) globals \<Rightarrow> ('jh, 'th) globals step" where
  "WaitForEvent pt HJ HT wa taskList g =
     bindIO (foreach_task HT (\<lambda>task. returnIO (Some (task\<lparr> isSocketReady := False \<rparr>))) taskList
         (CronTaskHashTable g)) (\<lambda>tbl.
       let timeoutMs = CalculateWaitTimeout pt (getCronJob HJ (CronJobHashTable g))
             (List.map_filter (h_find HT tbl) taskList) (wa_time wa)
       in if timeoutMs = 0 then returnIO (g\<lparr> CronTaskHashTable := tbl \<rparr>)
          else bindIO (register_loop HT wa taskList tbl []) (\<lambda>(tbl', ws).
            bindIO (handle_events HT (WaitEventSetWait wa ws timeoutMs) tbl') (\<lambda>tbl''.
              returnIO (g\<lparr> CronTaskHashTable := tbl'' \<rparr>))))"

section \<open>The timeout\<close>

text \<open>The times at which a task wants the worker to be awake.\<close>

definition wake_times :: "(int \<Rightarrow> CronJob option) \<Rightarrow> CronTask \<Rightarrow> int list" where
  "wake_times getJob task =
     (if getJob (jobId task) \<noteq> None \<and> SECONDS (schedule (the (getJob (jobId task)))) \<and> nextRunTime task \<noteq> 0
      then [nextRunTime task] else [])
     @ (if (state task = CRON_TASK_CONNECTING \<or> state task = CRON_TASK_SENDING) \<and> startDeadline task \<noteq> 0
        then [startDeadline task] else [])
     @ (if state task = CRON_TASK_RUNNING \<and> runDeadline task \<noteq> 0 \<and> \<not> cancelRequested task
        then [runDeadline task] else [])"

definition has_pending :: "CronTask \<Rightarrow> bool" where
  "has_pending task = (state task = CRON_TASK_WAITING \<and> 0 < pendingRunCount task)"

lemma EndOfMinute_next: "0 \<le> t \<Longrightarrow> t < EndOfMinute True t \<and> EndOfMinute True t \<le> t + 60000000"
  by (simp add: EndOfMinute_def StartOfMinute_nonneg)

lemma div_1000: "(d :: int) div 1000000 * 1000 + d mod 1000000 div 1000 = d div 1000"
proof -
  have "d = d mod 1000000 + 1000 * (d div 1000000 * 1000)" using mult_div_mod_eq [of 1000000 d] by linarith
  then have "d div 1000 = (d mod 1000000 + 1000 * (d div 1000000 * 1000)) div 1000" by (rule arg_cong)
  also have "\<dots> = d div 1000000 * 1000 + d mod 1000000 div 1000" by (rule div_mult_self2) simp
  finally show ?thesis by (rule sym)
qed

context pg_timestamps
begin

lemma earlier_min: "earlier pt b t n = (if b then min n t else n)"
  by (simp add: earlier_def exceeds)

lemma next_event_time_Cons:
  "next_event_time pt getJob (task # ts) t =
     (if has_pending task then None else next_event_time pt getJob ts (fold min (wake_times getJob task) t))"
proof -
  have e: "earlier pt c z (earlier pt b y (earlier pt a x t)) =
      fold min ((if a then [x] else []) @ (if b then [y] else []) @ (if c then [z] else [])) t" for a b c x y z
    by (simp add: earlier_min min.commute)
  show ?thesis unfolding next_event_time.simps Let_def e wake_times_def has_pending_def by (rule refl)
qed

lemma next_event_time_fold:
  "next_event_time pt getJob ts t =
     (if \<exists>task \<in> set ts. has_pending task then None else Some (fold min (concat (map (wake_times getJob) ts)) t))"
  by (induction ts arbitrary: t) (simp_all add: next_event_time_Cons del: next_event_time.simps(2))

lemma wait_timeout:
  assumes "0 \<le> now"
  shows "CalculateWaitTimeout pt getJob ts now =
     (if \<exists>task \<in> set ts. has_pending task then 0
      else max 0 (min 1000
        ((Min (insert (EndOfMinute True now) (\<Union>task \<in> set ts. set (wake_times getJob task))) - now) div 1000)))"
proof (cases "\<exists>task \<in> set ts. has_pending task")
  case True
  then show ?thesis by (simp add: CalculateWaitTimeout_def next_event_time_fold)
next
  case False
  let ?l = "concat (map (wake_times getJob) ts)" and ?e = "EndOfMinute True now"
  let ?m = "fold min ?l ?e"
  have m: "?m = Min (insert ?e (\<Union>task \<in> set ts. set (wake_times getJob task)))"
    using Min.set_eq_fold [of ?e ?l] by simp
  have le: "?m \<le> now + 60000000"
    using EndOfMinute_next [OF assms] unfolding m by (intro order_trans [OF Min_le]) auto
  show ?thesis
  proof (cases "?m \<le> now")
    case True
    then have "(?m - now) div 1000 \<le> 0" by linarith
    with True False show ?thesis
      by (simp add: CalculateWaitTimeout_def next_event_time_fold diff_clamped c_div_def cdefs flip: m)
  next
    case F: False
    let ?d = "?m - now"
    have d: "0 < ?d" "?d \<le> 60000000" using F le by simp_all
    have s: "int32 (?d div 1000000) = ?d div 1000000" and c: "c_div (?d mod 1000000) 1000 = ?d mod 1000000 div 1000"
      using d by (simp_all add: c_div_nonneg pos_imp_zdiv_nonneg_iff)
    have p: "0 \<le> ?d div 1000" "?d div 1000 \<le> 60000" using d by (simp_all add: pos_imp_zdiv_nonneg_iff)
    have "int32 (?d div 1000000 * 1000 + ?d mod 1000000 div 1000) = ?d div 1000"
      unfolding div_1000 using p by simp
    with F False s c p show ?thesis
      by (simp add: CalculateWaitTimeout_def next_event_time_fold diff_forward Let_def MaxSleep_def flip: m)
  qed
qed

end

section \<open>What waiting does to a task\<close>

text \<open>
  The events that a task is waited for on: only a connecting, sending or running task, and only if
  its connection asks to read or to write.
\<close>

definition socket_events :: "CronTask \<Rightarrow> int option" where
  "socket_events t =
     (if state t \<in> {CRON_TASK_CONNECTING, CRON_TASK_SENDING, CRON_TASK_RUNNING}
      then (case polling_status t of
          PGRES_POLLING_READING \<Rightarrow> Some WL_SOCKET_READABLE
        | PGRES_POLLING_WRITING \<Rightarrow> Some WL_SOCKET_WRITEABLE
        | _ \<Rightarrow> None)
      else None)"

text \<open>These events and the socket, if the task has a usable connection.\<close>

definition wait_registration :: "wait_answers \<Rightarrow> CronTask \<Rightarrow> (int \<times> int) option" where
  "wait_registration wa t =
     (case (socket_events t, conn t) of
        (Some ev, Some c) \<Rightarrow> if 0 \<le> PQsocket wa c then Some (ev, PQsocket wa c) else None
      | _ \<Rightarrow> None)"

definition no_connection_text :: "int \<Rightarrow> string" where
  "no_connection_text jid = take 1023 (''[my_nedo_cron] connection is NULL, job_id: '' @ show_int jid)"

definition no_socket_text :: "int \<Rightarrow> string" where
  "no_socket_text jid = take 1023 (''[my_nedo_cron] connection socket < 0, job_id: '' @ show_int jid)"

text \<open>
  The task after a wait: failed if it wanted a socket and has none, otherwise as before but for its
  readiness, which is whether its socket was waited on and reported.
\<close>

definition waited_task :: "wait_answers \<Rightarrow> bool \<Rightarrow> CronTask \<Rightarrow> CronTask" where
  "waited_task wa seen t =
     (if socket_events t \<noteq> None \<and> wait_registration wa t = None
      then t\<lparr> isSocketReady := False, state := CRON_TASK_ERROR,
             polling_status := (if conn t = None then PGRES_POLLING_FAILED else PGRES_POLLING_READING),
             errorMessage := Some (if conn t = None then no_connection_text (jobId t) else no_socket_text (jobId t)) \<rparr>
      else t\<lparr> isSocketReady := (wait_registration wa t \<noteq> None \<and> seen) \<rparr>)"

text \<open>The sockets of a list of tasks, the timeout, and the events that the kernel then reports.\<close>

definition wait_sockets :: "wait_answers \<Rightarrow> (int \<Rightarrow> CronTask option) \<Rightarrow> int list \<Rightarrow> wait_set" where
  "wait_sockets wa look ks =
     List.map_filter (\<lambda>k. Option.bind (look k) (\<lambda>t. map_option (\<lambda>(ev, sock). (ev, sock, k)) (wait_registration wa t))) ks"

definition wait_ms ::
  "pg_time \<Rightarrow> ('jh, CronJob) dynahash_ops \<Rightarrow> ('th, CronTask) dynahash_ops \<Rightarrow> wait_answers \<Rightarrow> int list \<Rightarrow>
     ('jh, 'th) globals \<Rightarrow> int" where
  "wait_ms pt HJ HT wa ks g =
     CalculateWaitTimeout pt (job_of HJ g) (List.map_filter (task_of HT g) ks) (wa_time wa)"

definition wait_events ::
  "pg_time \<Rightarrow> ('jh, CronJob) dynahash_ops \<Rightarrow> ('th, CronTask) dynahash_ops \<Rightarrow> wait_answers \<Rightarrow> int list \<Rightarrow>
     ('jh, 'th) globals \<Rightarrow> wait_event list" where
  "wait_events pt HJ HT wa ks g =
     (if wait_ms pt HJ HT wa ks g = 0 then []
      else WaitEventSetWait wa (wait_sockets wa (task_of HT g) ks) (wait_ms pt HJ HT wa ks g))"

text \<open>The kernel reports only sockets that were registered.\<close>

definition answers_ok :: "wait_answers \<Rightarrow> bool" where
  "answers_ok wa = (\<forall>ws ms k. SocketReady k \<in> set (WaitEventSetWait wa ws ms) \<longrightarrow> k \<in> (\<lambda>(_, _, k). k) ` set ws)"

text \<open>The functions of the code compute these events.\<close>

lemma socket_events_code:
  "socket_events t = (if TaskNeedsSocketWait t \<and> TaskWaitEvents t \<noteq> 0 then Some (TaskWaitEvents t) else None)"
  by (cases "polling_status t") (auto simp: socket_events_def TaskNeedsSocketWait_def TaskWaitEvents_def cdefs)

lemma wait_registration_code:
  "wait_registration wa t =
     (case conn t of
        None \<Rightarrow> None
      | Some c \<Rightarrow> if TaskNeedsSocketWait t \<and> TaskWaitEvents t \<noteq> 0 \<and> 0 \<le> PQsocket wa c
                  then Some (TaskWaitEvents t, PQsocket wa c) else None)"
  by (simp add: wait_registration_def socket_events_code split: option.split)

lemma waited_task_code:
  "waited_task wa seen t =
     (if TaskNeedsSocketWait t \<and> TaskWaitEvents t \<noteq> 0 \<and> wait_registration wa t = None
      then t\<lparr> isSocketReady := False, state := CRON_TASK_ERROR,
             polling_status := (if conn t = None then PGRES_POLLING_FAILED else PGRES_POLLING_READING),
             errorMessage := Some (if conn t = None then no_connection_text (jobId t) else no_socket_text (jobId t)) \<rparr>
      else t\<lparr> isSocketReady := (wait_registration wa t \<noteq> None \<and> seen) \<rparr>)"
proof -
  have "socket_events t \<noteq> None \<longleftrightarrow> TaskNeedsSocketWait t \<and> TaskWaitEvents t \<noteq> 0" by (simp add: socket_events_code)
  then show ?thesis unfolding waited_task_def by (simp only: conj_assoc)
qed

lemma wants_socket_ready [simp]:
  "TaskNeedsSocketWait (t\<lparr> isSocketReady := b \<rparr>) = TaskNeedsSocketWait t"
  "TaskWaitEvents (t\<lparr> isSocketReady := b \<rparr>) = TaskWaitEvents t"
  by (simp_all add: TaskNeedsSocketWait_def TaskWaitEvents_def)

lemma wait_registration_SomeD:
  "wait_registration wa t \<noteq> None \<Longrightarrow> TaskNeedsSocketWait t \<and> conn t \<noteq> None"
  by (auto simp: wait_registration_code split: option.splits if_splits)

lemma register_task_waited:
  "register_task wa (t\<lparr> isSocketReady := False \<rparr>) = ([], Inr (waited_task wa False t, wait_registration wa t))"
proof (cases "TaskNeedsSocketWait t \<and> TaskWaitEvents t \<noteq> 0")
  case False
  then have "wait_registration wa t = None" by (auto simp: wait_registration_code split: option.split)
  with False show ?thesis by (auto simp: register_task_def waited_task_code io_simps)
next
  case True
  show ?thesis
  proof (cases "conn t")
    case None
    with True show ?thesis
      by (simp add: register_task_def waited_task_code wait_registration_code io_simps wait_formats no_connection_text_def)
  next
    case (Some c)
    with True show ?thesis
      by (cases "PQsocket wa c < 0")
        (simp_all add: register_task_def waited_task_code wait_registration_code io_simps wait_formats no_socket_text_def)
  qed
qed

lemma waited_registered: "wait_registration wa t \<noteq> None \<Longrightarrow> waited_task wa b t = t\<lparr> isSocketReady := b \<rparr>"
  unfolding waited_task_code by (simp only: simp_thms if_False)

lemma waited_reported:
  assumes "wait_registration wa t \<noteq> None"
  shows "(waited_task wa False t)\<lparr> isSocketReady := True \<rparr> = waited_task wa True t"
  unfolding waited_registered [OF assms] by simp

lemma wake_times_ready:
  "has_pending (t\<lparr> isSocketReady := b \<rparr>) = has_pending t"
  "wake_times getJob (t\<lparr> isSocketReady := b \<rparr>) = wake_times getJob t"
  by (simp_all add: has_pending_def wake_times_def)

lemma map_filter_map_option: "List.map_filter (\<lambda>k. map_option f (m k)) ks = map f (List.map_filter m ks)"
proof (induction ks)
  case (Cons k ks)
  then show ?case by (cases "m k") (simp_all add: map_filter_simps)
qed (simp add: map_filter_simps)

lemma wait_sockets_keys: "k \<in> (\<lambda>(_, _, k). k) ` set (wait_sockets wa look ks) \<longleftrightarrow>
   k \<in> set ks \<and> (\<exists>t. look k = Some t \<and> wait_registration wa t \<noteq> None)"
  by (induction ks) (auto simp: wait_sockets_def map_filter_simps split: option.splits bind_splits)

context pg_timestamps
begin

lemma next_event_time_ready:
  "next_event_time pt getJob (map (isSocketReady_update (\<lambda>_. b)) ts) t = next_event_time pt getJob ts t"
  by (simp add: next_event_time_fold wake_times_ready comp_def)

end

context task_table
begin

lemma register_loop_spec:
  assumes "distinct ks" and "set ks \<subseteq> dom m"
    and "\<And>k. k \<in> set ks \<Longrightarrow> h_find HT tbl k = map_option (isSocketReady_update (\<lambda>_. False)) (m k)"
  shows "\<exists>tbl'. register_loop HT wa ks tbl ws = ([], Inr (tbl', ws @ wait_sockets wa m ks))
     \<and> h_find HT tbl' = (\<lambda>k. if k \<in> set ks then map_option (waited_task wa False) (m k) else h_find HT tbl k)"
  using assms
proof (induction ks arbitrary: tbl ws)
  case Nil
  show ?case by (simp add: io_simps wait_sockets_def map_filter_simps)
next
  case (Cons k ks)
  then obtain t where t: "m k = Some t" by auto
  with Cons.prems(3) have f: "h_find HT tbl k = Some (t\<lparr> isSocketReady := False \<rparr>)" by simp
  let ?tbl = "h_store HT tbl k (waited_task wa False t)"
  let ?ws = "ws @ (case wait_registration wa t of None \<Rightarrow> [] | Some (ev, sock) \<Rightarrow> [(ev, sock, k)])"
  have s: "h_find HT ?tbl = (h_find HT tbl)(k \<mapsto> waited_task wa False t)" using f by (simp add: store)
  have "\<exists>tbl'. register_loop HT wa ks ?tbl ?ws = ([], Inr (tbl', ?ws @ wait_sockets wa m ks))
     \<and> h_find HT tbl' = (\<lambda>k. if k \<in> set ks then map_option (waited_task wa False) (m k) else h_find HT ?tbl k)"
  proof (rule Cons.IH)
    show "h_find HT ?tbl k' = map_option (isSocketReady_update (\<lambda>_. False)) (m k')" if "k' \<in> set ks" for k'
      using that Cons.prems(1) Cons.prems(3) [of k'] by (auto simp: s)
  qed (use Cons.prems in auto)
  then obtain tbl' where l: "register_loop HT wa ks ?tbl ?ws = ([], Inr (tbl', ?ws @ wait_sockets wa m ks))"
    and h: "h_find HT tbl' = (\<lambda>k. if k \<in> set ks then map_option (waited_task wa False) (m k) else h_find HT ?tbl k)" by blast
  have "register_loop HT wa (k # ks) tbl ws = ([], Inr (tbl', ws @ wait_sockets wa m (k # ks)))"
    using f t l by (cases "wait_registration wa t") (auto simp: register_task_waited wait_sockets_def map_filter_simps)
  moreover have "h_find HT tbl' = (\<lambda>k'. if k' \<in> set (k # ks) then map_option (waited_task wa False) (m k') else h_find HT tbl k')"
    using Cons.prems(1) t by (auto simp: h s fun_eq_iff)
  ultimately show ?case by blast
qed

lemma handle_events_spec:
  assumes "\<And>k. SocketReady k \<in> set es \<Longrightarrow> h_find HT tbl k \<noteq> None"
  shows "if PostmasterDeath \<in> set es then handle_events HT es tbl = ([], Inl (ProcExit 1))
     else \<exists>tbl'. handle_events HT es tbl = ([], Inr tbl')
         \<and> (\<forall>k. h_find HT tbl' k = map_option (\<lambda>t. if SocketReady k \<in> set es then t\<lparr> isSocketReady := True \<rparr> else t)
              (h_find HT tbl k))"
  using assms
proof (induction es arbitrary: tbl)
  case Nil
  show ?case by (simp add: io_simps option.map_ident)
next
  case (Cons e es)
  show ?case
  proof (cases e)
    case LatchSet
    with Cons.IH [of tbl] Cons.prems show ?thesis by auto
  next
    case PostmasterDeath
    then show ?thesis by (simp add: io_simps)
  next
    case (SocketReady k)
    with Cons.prems obtain t where t: "h_find HT tbl k = Some t" by auto
    let ?tbl = "h_store HT tbl k (t\<lparr> isSocketReady := True \<rparr>)"
    have f: "h_find HT ?tbl = (h_find HT tbl)(k \<mapsto> t\<lparr> isSocketReady := True \<rparr>)" using t by (simp add: store)
    have "if PostmasterDeath \<in> set es then handle_events HT es ?tbl = ([], Inl (ProcExit 1))
     else \<exists>tbl'. handle_events HT es ?tbl = ([], Inr tbl')
         \<and> (\<forall>k. h_find HT tbl' k = map_option (\<lambda>t. if SocketReady k \<in> set es then t\<lparr> isSocketReady := True \<rparr> else t)
              (h_find HT ?tbl k))"
      using Cons.prems by (intro Cons.IH) (auto simp: f)
    with t SocketReady show ?thesis by (auto simp: f)
  qed
qed

end

context scheduler
begin

lemma WaitForEvent_exact:
  assumes ok: "answers_ok wa" and ks: "distinct ks" "set ks = dom (task_of HT g)"
  shows "if PostmasterDeath \<in> set (wait_events pt HJ HT wa ks g)
     then WaitForEvent pt HJ HT wa ks g = ([], Inl (ProcExit 1))
     else \<exists>tt. WaitForEvent pt HJ HT wa ks g = ([], Inr (g\<lparr> CronTaskHashTable := tt \<rparr>))
       \<and> (\<forall>k. h_find HT tt k = map_option
           (if wait_ms pt HJ HT wa ks g = 0 then isSocketReady_update (\<lambda>_. False)
            else waited_task wa (SocketReady k \<in> set (wait_events pt HJ HT wa ks g))) (task_of HT g k))"
proof -
  let ?tbl = "CronTaskHashTable g"
  let ?body = "\<lambda>task. returnIO (Some (task\<lparr> isSocketReady := False \<rparr>)) :: CronTask option step"
  have m: "task_of HT g = h_find HT ?tbl" by (simp add: task_of_def fun_eq_iff)
  obtain tt0 where f0: "foreach_task HT ?body ks ?tbl
        = (concat (map (\<lambda>k. fst (?body (the (h_find HT ?tbl k)))) ks), Inr tt0)"
    and h0: "h_find HT tt0 = (\<lambda>k. if k \<in> set ks then Option.bind (h_find HT ?tbl k) (\<lambda>t. Some (t\<lparr> isSocketReady := False \<rparr>))
        else h_find HT ?tbl k)"
    using tasks.foreach_task_spec [of ks ?tbl ?body "\<lambda>t. Some (t\<lparr> isSocketReady := False \<rparr>)"] ks m
    by (auto simp: io_simps)
  have f: "foreach_task HT ?body ks ?tbl = ([], Inr tt0)" using f0 by (simp add: io_simps)
  have h: "h_find HT tt0 k = map_option (isSocketReady_update (\<lambda>_. False)) (task_of HT g k)" for k
    using ks by (cases "task_of HT g k") (auto simp: h0 m)
  define ms where "ms = wait_ms pt HJ HT wa ks g"
  have "h_find HT tt0 = (\<lambda>k. map_option (isSocketReady_update (\<lambda>_. False)) (task_of HT g k))" by (simp add: h fun_eq_iff)
  moreover have "job_of HJ g = getCronJob HJ (CronJobHashTable g)" by (simp add: job_of_def fun_eq_iff)
  ultimately have ms': "CalculateWaitTimeout pt (getCronJob HJ (CronJobHashTable g))
      (List.map_filter (h_find HT tt0) ks) (wa_time wa) = ms"
    by (simp add: ms_def wait_ms_def CalculateWaitTimeout_def map_filter_map_option next_event_time_ready)
  show ?thesis
  proof (cases "ms = 0")
    case True
    have "WaitForEvent pt HJ HT wa ks g = ([], Inr (g\<lparr> CronTaskHashTable := tt0 \<rparr>))"
      using True f by (simp add: WaitForEvent_def io_simps ms')
    with True h show ?thesis by (auto simp: wait_events_def ms_def)
  next
    case False
    let ?ws = "wait_sockets wa (task_of HT g) ks"
    obtain tt1 where r: "register_loop HT wa ks tt0 [] = ([], Inr (tt1, ?ws))"
      and h1: "h_find HT tt1 = (\<lambda>k. if k \<in> set ks then map_option (waited_task wa False) (task_of HT g k) else h_find HT tt0 k)"
      using tasks.register_loop_spec [of ks "task_of HT g" tt0 wa "[]"] ks h by auto
    have h1: "h_find HT tt1 k = map_option (waited_task wa False) (task_of HT g k)" for k
      using ks h [of k] by (cases "task_of HT g k") (auto simp: h1)
    let ?es = "WaitEventSetWait wa ?ws ms"
    have es: "wait_events pt HJ HT wa ks g = ?es" using False by (simp add: wait_events_def ms_def)
    have reg: "SocketReady k \<in> set ?es \<Longrightarrow> \<exists>t. task_of HT g k = Some t \<and> wait_registration wa t \<noteq> None" for k
      using ok wait_sockets_keys [of k wa "task_of HT g" ks] unfolding answers_ok_def by blast
    have e: "if PostmasterDeath \<in> set ?es then handle_events HT ?es tt1 = ([], Inl (ProcExit 1))
     else \<exists>tbl'. handle_events HT ?es tt1 = ([], Inr tbl')
         \<and> (\<forall>k. h_find HT tbl' k = map_option (\<lambda>t. if SocketReady k \<in> set ?es then t\<lparr> isSocketReady := True \<rparr> else t)
              (h_find HT tt1 k))"
    proof (rule tasks.handle_events_spec)
      show "h_find HT tt1 k \<noteq> None" if "SocketReady k \<in> set ?es" for k using reg [OF that] by (auto simp: h1)
    qed
    have w: "WaitForEvent pt HJ HT wa ks g = bindIO (handle_events HT ?es tt1) (\<lambda>t. returnIO (g\<lparr> CronTaskHashTable := t \<rparr>))"
      using False f r by (simp add: WaitForEvent_def io_simps ms')
    show ?thesis
    proof (cases "PostmasterDeath \<in> set ?es")
      case True
      with e show ?thesis by (simp add: w es io_simps)
    next
      case nodeath: False
      with e obtain tt where t: "handle_events HT ?es tt1 = ([], Inr tt)"
        and ht: "\<And>k. h_find HT tt k = map_option (\<lambda>t. if SocketReady k \<in> set ?es then t\<lparr> isSocketReady := True \<rparr> else t)
              (h_find HT tt1 k)" by auto
      have "h_find HT tt k = map_option (waited_task wa (SocketReady k \<in> set ?es)) (task_of HT g k)" for k
      proof (cases "task_of HT g k")
        case (Some t)
        show ?thesis
        proof (cases "SocketReady k \<in> set ?es")
          case True
          with reg [of k] Some waited_reported [of wa t] show ?thesis by (simp add: ht h1)
        qed (simp add: ht h1 Some)
      qed (simp add: ht h1)
      with nodeath False t show ?thesis by (auto simp: w es io_simps ms_def)
    qed
  qed
qed

lemma LoadTasksList_seq: "distinct (LoadTasksList HT g) \<and> set (LoadTasksList HT g) = dom (task_of HT g)"
  using tasks.seq [of "CronTaskHashTable g"] by (simp add: LoadTasksList_def task_of_def dom_def)

end

text \<open>What all outcomes of a wait have in common, for the lemmas about whole turns.\<close>

definition wait_step :: "CronTask \<Rightarrow> CronTask \<Rightarrow> bool" where
  "wait_step t t' =
     (t' = t\<lparr> isSocketReady := False \<rparr>
      \<or> TaskNeedsSocketWait t \<and> conn t \<noteq> None \<and> t' = t\<lparr> isSocketReady := True \<rparr>
      \<or> TaskNeedsSocketWait t \<and> (\<exists>ps m. t' = t\<lparr> isSocketReady := False, state := CRON_TASK_ERROR,
            polling_status := ps, errorMessage := Some m \<rparr>))"

lemma waited_wait_step: "wait_step t (waited_task wa b t)" "wait_step t (t\<lparr> isSocketReady := False \<rparr>)"
proof -
  show "wait_step t (t\<lparr> isSocketReady := False \<rparr>)" by (simp add: wait_step_def)
  show "wait_step t (waited_task wa b t)"
  proof (cases "TaskNeedsSocketWait t \<and> TaskWaitEvents t \<noteq> 0 \<and> wait_registration wa t = None")
    case True
    then show ?thesis unfolding wait_step_def waited_task_code by (simp only: if_True simp_thms) blast
  next
    case False
    then have w: "waited_task wa b t = t\<lparr> isSocketReady := (wait_registration wa t \<noteq> None \<and> b) \<rparr>"
      unfolding waited_task_code by (rule if_not_P)
    show ?thesis
    proof (cases "wait_registration wa t \<noteq> None \<and> b")
      case True
      with wait_registration_SomeD [of wa t] show ?thesis unfolding w wait_step_def by simp
    next
      case False
      then have "waited_task wa b t = t\<lparr> isSocketReady := False \<rparr>" unfolding w by (simp only:)
      then show ?thesis by (simp only: wait_step_def simp_thms)
    qed
  qed
qed

context scheduler
begin

lemma WaitForEvent_list:
  assumes "answers_ok wa" and "distinct ks" and "set ks = dom (task_of HT g)"
  shows "WaitForEvent pt HJ HT wa ks g = ([], Inl (ProcExit 1)) \<and> (\<exists>ws ms. PostmasterDeath \<in> set (WaitEventSetWait wa ws ms))
     \<or> (\<exists>tt. WaitForEvent pt HJ HT wa ks g = ([], Inr (g\<lparr> CronTaskHashTable := tt \<rparr>))
         \<and> (\<forall>k. case task_of HT g k of None \<Rightarrow> h_find HT tt k = None
                | Some t \<Rightarrow> \<exists>t'. h_find HT tt k = Some t' \<and> wait_step t t'))"
proof (cases "PostmasterDeath \<in> set (wait_events pt HJ HT wa ks g)")
  case True
  with WaitForEvent_exact [OF assms] show ?thesis by (auto simp: wait_events_def split: if_splits)
next
  case False
  with WaitForEvent_exact [OF assms] obtain tt where
    w: "WaitForEvent pt HJ HT wa ks g = ([], Inr (g\<lparr> CronTaskHashTable := tt \<rparr>))"
    and h: "\<And>k. h_find HT tt k = map_option
           (if wait_ms pt HJ HT wa ks g = 0 then isSocketReady_update (\<lambda>_. False)
            else waited_task wa (SocketReady k \<in> set (wait_events pt HJ HT wa ks g))) (task_of HT g k)" by auto
  have "case task_of HT g k of None \<Rightarrow> h_find HT tt k = None | Some t \<Rightarrow> \<exists>t'. h_find HT tt k = Some t' \<and> wait_step t t'" for k
    by (simp add: h waited_wait_step split: option.split)
  with w show ?thesis by blast
qed

end

section \<open>Properties\<close>

text \<open>
  C15: CalculateWaitTimeout (src/nedo_cron.c), given the documented timestamp functions. It is 0 if a
  waiting task has a pending run; otherwise it is the whole milliseconds until the earliest of the
  next minute, the planned runs of the seconds jobs, the connection deadlines and the run deadlines
  without a cancel request, at least 0 and at most one second. So the worker never sleeps past any of
  them, and no 32-bit operation on the way overflows.
\<close>

theorem CalculateWaitTimeout_correct:
  assumes "pg_timestamps pt" and "0 \<le> now"
  shows "CalculateWaitTimeout pt getJob ts now =
     (if \<exists>task \<in> set ts. has_pending task then 0
      else max 0 (min 1000
        ((Min (insert (EndOfMinute True now) (\<Union>task \<in> set ts. set (wake_times getJob task))) - now) div 1000)))"
  using assms by (rule pg_timestamps.wait_timeout)

theorem CalculateWaitTimeout_correct_witness:
  "CalculateWaitTimeout pg_time_doc (\<lambda>_. None) [raw_task\<lparr> runDeadline := 500000, cancelRequested := False \<rparr>] 0 = 500"
  using CalculateWaitTimeout_correct [OF doc.pg_timestamps_axioms,
      of 0 "\<lambda>_. None" "[raw_task\<lparr> runDeadline := 500000, cancelRequested := False \<rparr>]"]
  by (simp add: raw_task_def has_pending_def wake_times_def EndOfMinute_def StartOfMinute_nonneg)

text \<open>
  C16: WaitForEvent (src/nedo_cron.c), with a kernel that reports only registered sockets, exactly.
  With timeout 0 it only clears the readiness of every task. Otherwise it waits, for the time of
  CalculateWaitTimeout, on the sockets of the connecting, sending and running tasks whose polling
  status asks for one, and then: if the kernel reports the death of the postmaster the process exits
  with code 1, and not otherwise; a latch event alone changes nothing; each task whose socket was
  registered is ready exactly if the kernel reported it; a task whose connection is missing or has no
  socket fails with the text that says so; every other task only loses its readiness. The table keeps
  its keys and nothing else of the worker's state changes.
\<close>

theorem WaitForEvent_correct:
  assumes "scheduler pt HJ HT" and "answers_ok wa" and "ks = LoadTasksList HT g"
  shows "if PostmasterDeath \<in> set (wait_events pt HJ HT wa ks g)
     then WaitForEvent pt HJ HT wa ks g = ([], Inl (ProcExit 1))
     else \<exists>tt. WaitForEvent pt HJ HT wa ks g = ([], Inr (g\<lparr> CronTaskHashTable := tt \<rparr>))
       \<and> (\<forall>k. h_find HT tt k = map_option
           (if wait_ms pt HJ HT wa ks g = 0 then isSocketReady_update (\<lambda>_. False)
            else waited_task wa (SocketReady k \<in> set (wait_events pt HJ HT wa ks g))) (task_of HT g k))"
  unfolding assms(3) using scheduler.LoadTasksList_seq [OF assms(1), of g]
  by (intro scheduler.WaitForEvent_exact [OF assms(1,2)]) simp_all

text \<open>Kernels that report every registered socket at once, with the latch, and the postmaster's death.\<close>

definition eager_answers :: "int \<Rightarrow> wait_answers" where
  "eager_answers now = \<lparr> wa_time = now, wa_strerror = ''Success'', PQsocket = (\<lambda>c. int c + 3),
     WaitEventSetWait = (\<lambda>ws ms. LatchSet # map (\<lambda>(_, _, k). SocketReady k) ws) \<rparr>"

lemma eager_ok: "answers_ok (eager_answers now)"
  by (force simp: answers_ok_def eager_answers_def)

definition last_answers :: "int \<Rightarrow> wait_answers" where
  "last_answers now = (eager_answers now)\<lparr> WaitEventSetWait := (\<lambda>ws ms. [LatchSet, PostmasterDeath]) \<rparr>"

lemma last_ok: "answers_ok (last_answers now)"
  by (simp add: answers_ok_def last_answers_def)

text \<open>Two tasks with queries under way, one of them without a connection.\<close>

definition waiting_globals :: "((int \<times> CronJob) list, (int \<times> CronTask) list) globals" where
  "waiting_globals = example_globals\<lparr> CronTaskHashTable :=
     [(7, InitCronTask raw_task 7\<lparr> state := CRON_TASK_RUNNING, conn := Some 3, polling_status := PGRES_POLLING_READING \<rparr>),
      (8, InitCronTask raw_task 8\<lparr> state := CRON_TASK_RUNNING, polling_status := PGRES_POLLING_READING \<rparr>)] \<rparr>"

theorem WaitForEvent_correct_witness:
  "(\<exists>g'. WaitForEvent pg_time_doc (alist_hash raw_job) (alist_hash raw_task) (eager_answers 0)
        (LoadTasksList (alist_hash raw_task) waiting_globals) waiting_globals = ([], Inr g')
      \<and> map_option isSocketReady (task_of (alist_hash raw_task) g' 7) = Some True
      \<and> map_option state (task_of (alist_hash raw_task) g' 8) = Some CRON_TASK_ERROR)
   \<and> WaitForEvent pg_time_doc (alist_hash raw_job) (alist_hash raw_task) (last_answers 0)
        (LoadTasksList (alist_hash raw_task) waiting_globals) waiting_globals = ([], Inl (ProcExit 1))"
proof -
  let ?HT = "alist_hash raw_task" and ?HJ = "alist_hash raw_job"
  let ?ks = "LoadTasksList ?HT waiting_globals"
  have ks: "?ks = [7, 8]" by (simp add: LoadTasksList_def waiting_globals_def alist_hash_def)
  have t: "task_of ?HT waiting_globals 7
      = Some (InitCronTask raw_task 7\<lparr> state := CRON_TASK_RUNNING, conn := Some 3, polling_status := PGRES_POLLING_READING \<rparr>)"
    "task_of ?HT waiting_globals 8 = Some (InitCronTask raw_task 8\<lparr> state := CRON_TASK_RUNNING, polling_status := PGRES_POLLING_READING \<rparr>)"
    and j: "job_of ?HJ waiting_globals = (\<lambda>_. None)"
    by (simp_all add: task_of_def job_of_def getCronJob_def waiting_globals_def example_globals_def alist_hash_def fun_eq_iff)
  have ms: "wait_ms pg_time_doc ?HJ ?HT wa ?ks waiting_globals = 1000" if "wa_time wa = 0" for wa
    by (simp add: wait_ms_def ks t j that map_filter_simps doc.wait_timeout has_pending_def wake_times_def InitCronTask_def
        EndOfMinute_def StartOfMinute_nonneg)
  have ws: "wait_sockets (eager_answers 0) (task_of ?HT waiting_globals) ?ks = [(WL_SOCKET_READABLE, 6, 7)]"
    by (simp add: wait_sockets_def ks t map_filter_simps wait_registration_code TaskNeedsSocketWait_def TaskWaitEvents_def
        InitCronTask_def eager_answers_def cdefs)
  have w: "wa_time (eager_answers 0) = 0" "wa_time (last_answers 0) = 0" by (simp_all add: eager_answers_def last_answers_def)
  have e: "wait_events pg_time_doc ?HJ ?HT (eager_answers 0) ?ks waiting_globals = [LatchSet, SocketReady 7]"
    "wait_events pg_time_doc ?HJ ?HT (last_answers 0) ?ks waiting_globals = [LatchSet, PostmasterDeath]"
    by (simp_all add: wait_events_def ms w ws, simp_all add: eager_answers_def last_answers_def)
  obtain tt where a: "WaitForEvent pg_time_doc ?HJ ?HT (eager_answers 0) ?ks waiting_globals
        = ([], Inr (waiting_globals\<lparr> CronTaskHashTable := tt \<rparr>))"
    and h: "\<And>k. h_find ?HT tt k = map_option (waited_task (eager_answers 0) (SocketReady k \<in> set [LatchSet, SocketReady 7]))
        (task_of ?HT waiting_globals k)"
    using WaitForEvent_correct [OF doc_scheduler.scheduler_axioms [of raw_job raw_task] eager_ok [of 0] refl, of waiting_globals]
    by (auto simp: e ms w)
  have "map_option isSocketReady (h_find ?HT tt 7) = Some True" "map_option state (h_find ?HT tt 8) = Some CRON_TASK_ERROR"
    by (simp_all add: h t waited_task_code wait_registration_code TaskNeedsSocketWait_def TaskWaitEvents_def InitCronTask_def
        eager_answers_def cdefs)
  moreover have "WaitForEvent pg_time_doc ?HJ ?HT (last_answers 0) ?ks waiting_globals = ([], Inl (ProcExit 1))"
    using WaitForEvent_correct [OF doc_scheduler.scheduler_axioms [of raw_job raw_task] last_ok [of 0] refl, of waiting_globals]
    by (simp add: e)
  ultimately show ?thesis using a
    by (intro conjI exI [where x = "waiting_globals\<lparr> CronTaskHashTable := tt \<rparr>"]) (simp_all add: task_of_def)
qed

end
