(* ===== verification/Task_Machine.thy ===== *)
theory Task_Machine
  imports Wait
begin

text \<open>
  \<open>ManageCronTask\<close> of \<open>src/nedo_cron.c\<close>: the state machine of one run, from a queued run through
  connecting, sending and running to its end, one definition per state. The answers of libpq and of
  the server to the calls of one step are an argument.
\<close>

section \<open>What a step is told\<close>

text \<open>
  \<open>PQstatus\<close> reports a bad, a good or a still connecting connection. \<open>an_results\<close> are the results
  that \<open>PQgetResult\<close> hands out before NULL; of one, the program reads its status, its SQLSTATE field
  and its error message. \<open>an_strerror\<close> is the text of \<open>errno\<close>.
\<close>

datatype ConnStatusType = CONNECTION_OK | CONNECTION_BAD | CONNECTION_PENDING

datatype ExecStatusType =
  PGRES_EMPTY_QUERY | PGRES_COMMAND_OK | PGRES_TUPLES_OK | PGRES_COPY_OUT | PGRES_COPY_IN
| PGRES_BAD_RESPONSE | PGRES_NONFATAL_ERROR | PGRES_FATAL_ERROR | PGRES_COPY_BOTH
| PGRES_SINGLE_TUPLE | PGRES_PIPELINE_SYNC | PGRES_PIPELINE_ABORTED | PGRES_TUPLES_CHUNK

record pg_result =
  PQresultStatus :: ExecStatusType
  sqlstate :: "string option"
  PQresultErrorMessage :: string

record answers =
  an_now :: int
  an_strerror :: string
  an_insert :: spi_answer
  an_update :: spi_answer
  an_encoding :: string
  PQconnectStartParams :: "nat option"
  PQsetnonblocking :: int
  an_status :: ConnStatusType
  PQerrorMessage :: string
  PQconnectPoll :: PollingStatus
  PQbackendPID :: int
  PQsendQuery :: int
  PQgetCancel :: bool
  PQcancel :: "int \<times> string"
  PQconsumeInput :: int
  PQisBusy :: int
  an_results :: "pg_result list"

text \<open>libpq takes a NULL connection for a bad one.\<close>

definition PQstatus :: "answers \<Rightarrow> nat option \<Rightarrow> ConnStatusType" where
  "PQstatus an c = (if c = None then CONNECTION_BAD else an_status an)"

definition PQfinish :: "nat option \<Rightarrow> unit step" where
  "PQfinish c = (case c of None \<Rightarrow> returnIO () | Some c' \<Rightarrow> emitIO (EvFinishConn c'))"

section \<open>The handlers\<close>

definition fail_task :: "string \<Rightarrow> CronTask \<Rightarrow> string option \<Rightarrow> fmt_arg list \<Rightarrow> CronTask option step" where
  "fail_task em task fmt args =
     bindIO (SetTaskError em (task\<lparr> state := CRON_TASK_ERROR, polling_status := PGRES_POLLING_FAILED \<rparr>) fmt args)
       (\<lambda>task'. returnIO (Some task'))"

definition manage_waiting :: "CronTask \<Rightarrow> CronTask option step" where
  "manage_waiting task =
     (if isActive task = False then returnIO None
      else if pendingRunCount task = 0 then returnIO (Some task)
      else returnIO (Some (task\<lparr> pendingRunCount := int32 (pendingRunCount task - 1), state := CRON_TASK_START \<rparr>)))"

definition connection_params :: "answers \<Rightarrow> int \<Rightarrow> CronJob \<Rightarrow> (string \<times> string) list" where
  "connection_params an timeout_ms job =
     [(''host'', nodeName job), (''port'', take 11 (show_int (nodePort job))),
      (''fallback_application_name'', ''nedo_cron''), (''client_encoding'', an_encoding an),
      (''dbname'', database job), (''user'', userName job),
      (''options'', take 63 (''-c statement_timeout='' @ show_int timeout_ms))]"

text \<open>The part of the state from \<open>PQconnectStartParams\<close> on; the task has its run id.\<close>

definition open_connection ::
  "pg_time \<Rightarrow> ('jh, 'th) globals \<Rightarrow> answers \<Rightarrow> CronJob \<Rightarrow> int \<Rightarrow> CronTask \<Rightarrow> CronTask option step" where
  "open_connection pt g an j currentTime task =
     (case PQconnectStartParams an of
        None \<Rightarrow> fail_task (an_strerror an) task (Some ''PQconnectStartParams returned NULL'') []
      | Some c \<Rightarrow>
        bindIO (emitIO (EvConnectStart c (connection_params an (StatementTimeoutMs g) j))) (\<lambda>_.
          let task1 = task\<lparr> conn := Some c \<rparr> in
          if PQsetnonblocking an \<noteq> 0 then fail_task (an_strerror an) task1 (Some (PQerrorMessage an)) []
          else if PQstatus an (Some c) = CONNECTION_BAD then fail_task (an_strerror an) task1 (Some (PQerrorMessage an)) []
          else returnIO (Some (task1\<lparr> startDeadline := ts_plus_ms pt currentTime (TaskTimeout g),
                 polling_status := PGRES_POLLING_WRITING, state := CRON_TASK_CONNECTING \<rparr>))))"

definition manage_start ::
  "pg_time \<Rightarrow> ('jh, 'th) globals \<Rightarrow> answers \<Rightarrow> CronJob option \<Rightarrow> int \<Rightarrow> CronTask \<Rightarrow> CronTask option step" where
  "manage_start pt g an job currentTime task =
     (case job of None \<Rightarrow> raiseIO NullPointer
      | Some j \<Rightarrow>
        bindIO (InsertRunDetailsStart (an_insert an) task j (an_now an)) (\<lambda>(task1, rid).
          open_connection pt g an j currentTime (task1\<lparr> runId := rid \<rparr>)))"

definition manage_connecting :: "pg_time \<Rightarrow> answers \<Rightarrow> int \<Rightarrow> CronTask \<Rightarrow> CronTask option step" where
  "manage_connecting pt an currentTime task =
     (if \<not> isActive task then fail_task (an_strerror an) task (Some ''job has been removed'') []
      else if ts_exceeds pt (startDeadline task) currentTime 0 then
        fail_task (an_strerror an) task (Some fmt_timeout) [ArgInt (jobId task)]
      else if PQstatus an (conn task) = CONNECTION_BAD then fail_task (an_strerror an) task (Some (PQerrorMessage an)) []
      else if \<not> isSocketReady task then returnIO (Some task)
      else if PQconnectPoll an = PGRES_POLLING_OK then
        bindIO (UpdatePID (an_update an) (runId task) (PQbackendPID an)) (\<lambda>_.
          returnIO (Some (task\<lparr> polling_status := PGRES_POLLING_WRITING, state := CRON_TASK_SENDING \<rparr>)))
      else if PQconnectPoll an = PGRES_POLLING_FAILED then fail_task (an_strerror an) task (Some (PQerrorMessage an)) []
      else returnIO (Some (task\<lparr> polling_status := PQconnectPoll an \<rparr>)))"

definition manage_sending ::
  "pg_time \<Rightarrow> ('jh, 'th) globals \<Rightarrow> answers \<Rightarrow> CronJob option \<Rightarrow> int \<Rightarrow> CronTask \<Rightarrow> CronTask option step" where
  "manage_sending pt g an job currentTime task =
     (case job of None \<Rightarrow> raiseIO NullPointer
      | Some j \<Rightarrow>
        if \<not> isActive task then fail_task (an_strerror an) task (Some ''job has been removed'') []
        else if ts_exceeds pt (startDeadline task) currentTime 0 then
          fail_task (an_strerror an) task (Some fmt_timeout) [ArgInt (jobId task)]
        else if PQstatus an (conn task) = CONNECTION_BAD then fail_task (an_strerror an) task (Some (PQerrorMessage an)) []
        else if \<not> isSocketReady task then returnIO (Some task)
        else (case conn task of None \<Rightarrow> raiseIO NullPointer
          | Some c \<Rightarrow>
            bindIO (emitIO (EvSendQuery c (command j))) (\<lambda>_.
              if PQsendQuery an = 1 then
                returnIO (Some (task\<lparr> polling_status := PGRES_POLLING_READING, state := CRON_TASK_RUNNING,
                  startDeadline := 0, runDeadline := ts_plus_ms pt currentTime (StatementTimeoutMs g),
                  cancelRequested := False, timedOut := False \<rparr>))
              else fail_task (an_strerror an) task (Some (PQerrorMessage an)) [])))"

text \<open>
  The cancel request of a running task: \<open>Inl\<close> is a \<open>break\<close> out of the state's code, \<open>Inr\<close> goes on.
\<close>

definition manage_timeout :: "pg_time \<Rightarrow> answers \<Rightarrow> int \<Rightarrow> CronTask \<Rightarrow> (CronTask option + CronTask) step" where
  "manage_timeout pt an currentTime task =
     (if ts_exceeds pt (runDeadline task) currentTime 0 \<and> runDeadline task \<noteq> 0 \<and> \<not> cancelRequested task then
        (if \<not> PQgetCancel an then
           bindIO (fail_task (an_strerror an) (task\<lparr> timedOut := True \<rparr>) (Some fmt_no_cancel) [ArgInt (jobId task)])
             (\<lambda>r. returnIO (Inl r))
         else (case conn task of None \<Rightarrow> raiseIO NullPointer
           | Some c \<Rightarrow>
             bindIO (emitIO (EvCancel c)) (\<lambda>_.
               case PQcancel an of (ok, errbuf) \<Rightarrow>
                 if ok = 0 then
                   bindIO (fail_task (an_strerror an) (task\<lparr> cancelRequested := True, timedOut := True, runDeadline := 0 \<rparr>)
                       (Some fmt_cancel_failed) [ArgInt (jobId task), ArgStr (take 255 errbuf)])
                     (\<lambda>r. returnIO (Inl r))
                 else returnIO (Inr (task\<lparr> cancelRequested := True, timedOut := True, runDeadline := 0,
                        polling_status := PGRES_POLLING_READING \<rparr>)))))
      else returnIO (Inr task))"

fun read_results :: "string \<Rightarrow> pg_result list \<Rightarrow> CronTask \<Rightarrow> CronTask step" where
  "read_results em [] task = returnIO task"
| "read_results em (r # rs) task =
     (if PQresultStatus r = PGRES_BAD_RESPONSE \<or> PQresultStatus r = PGRES_FATAL_ERROR
         \<or> PQresultStatus r = PGRES_NONFATAL_ERROR then
        bindIO (SetTaskError em task (Some (PQresultErrorMessage r)) []) (\<lambda>task1.
          if sqlstate r = Some ''57014'' then
            returnIO (task1\<lparr> timedOut := True, polling_status := PGRES_POLLING_FAILED, state := CRON_TASK_ERROR \<rparr>)
          else returnIO (task1\<lparr> polling_status := PGRES_POLLING_FAILED, state := CRON_TASK_ERROR \<rparr>))
      else if PQresultStatus r = PGRES_COPY_BOTH \<or> PQresultStatus r = PGRES_COPY_IN
         \<or> PQresultStatus r = PGRES_COPY_OUT then
        bindIO (SetTaskError em task (Some ''COPY not supported'') []) (\<lambda>task1.
          returnIO (task1\<lparr> polling_status := PGRES_POLLING_FAILED, state := CRON_TASK_ERROR \<rparr>))
      else read_results em rs task)"

text \<open>The end of the state, after the last result: the connection is closed and the run finished.\<close>

definition close_run :: "answers \<Rightarrow> nat option \<Rightarrow> CronTask \<Rightarrow> CronTask option step" where
  "close_run an connection task =
     bindIO (PQfinish connection) (\<lambda>_.
       let task1 = task\<lparr> conn := None, polling_status := PGRES_POLLING_FAILED, isSocketReady := False \<rparr> in
       if state task1 \<noteq> CRON_TASK_ERROR then
         bindIO (UpdateRunDetailsFinish (an_update an) (runId task1) ''succeeded'' (Some ''OK'') (an_now an))
           (\<lambda>_. returnIO (Some (task1\<lparr> state := CRON_TASK_DONE \<rparr>)))
       else returnIO (Some task1))"

text \<open>What follows the timeout check: reading the server's answer if there is one.\<close>

definition read_answer :: "answers \<Rightarrow> nat option \<Rightarrow> CronTask \<Rightarrow> CronTask option step" where
  "read_answer an connection task =
     (if \<not> isSocketReady task then returnIO (Some task)
      else if PQconsumeInput an \<noteq> 1 then fail_task (an_strerror an) task (Some (PQerrorMessage an)) []
      else if PQisBusy an = 1 then returnIO (Some task)
      else bindIO (read_results (an_strerror an) (an_results an) task) (close_run an connection))"

definition manage_running :: "pg_time \<Rightarrow> answers \<Rightarrow> int \<Rightarrow> CronTask \<Rightarrow> CronTask option step" where
  "manage_running pt an currentTime task =
     (if \<not> isActive task then fail_task (an_strerror an) task (Some ''job has been removed'') []
      else if PQstatus an (conn task) = CONNECTION_BAD then fail_task (an_strerror an) task (Some (PQerrorMessage an)) []
      else bindIO (manage_timeout pt an currentTime task)
             (\<lambda>r. case r of Inl brk \<Rightarrow> returnIO brk | Inr task1 \<Rightarrow> read_answer an (conn task) task1))"

definition manage_error :: "answers \<Rightarrow> CronTask \<Rightarrow> CronTask option step" where
  "manage_error an task =
     bindIO (if runId task \<noteq> 0 then
               bindIO (UpdateRunDetailsFinish (an_update an) (runId task)
                   (if timedOut task then ''timeout'' else ''failed'') (errorMessage task) (an_now an))
                 (\<lambda>_. returnIO (task\<lparr> runId := 0 \<rparr>))
             else returnIO task) (\<lambda>task1.
     bindIO (PQfinish (conn task1)) (\<lambda>_.
       let task2 = (if conn task1 \<noteq> None then task1\<lparr> conn := None \<rparr> else task1) in
       if \<not> isActive task2 then returnIO None
       else returnIO (Some (task2\<lparr> state := CRON_TASK_DONE, polling_status := PGRES_POLLING_FAILED,
              startDeadline := 0, runDeadline := 0, cancelRequested := False, isSocketReady := False \<rparr>))))"

definition manage_done :: "('jh, 'th) globals \<Rightarrow> CronTask \<Rightarrow> CronTask option step" where
  "manage_done g task =
     (let task1 = (if maxPendingTasks g < pendingRunCount task
                   then task\<lparr> pendingRunCount := maxPendingTasks g \<rparr> else task)
      in returnIO (Some (ResetCronTaskAfterRun task1)))"

definition manage_state ::
  "pg_time \<Rightarrow> ('jh, 'th) globals \<Rightarrow> answers \<Rightarrow> CronJob option \<Rightarrow> int \<Rightarrow> CronTask \<Rightarrow> CronTask option step" where
  "manage_state pt g an job currentTime task =
     (case state task of
        CRON_TASK_WAITING \<Rightarrow> manage_waiting task
      | CRON_TASK_START \<Rightarrow> manage_start pt g an job currentTime task
      | CRON_TASK_CONNECTING \<Rightarrow> manage_connecting pt an currentTime task
      | CRON_TASK_SENDING \<Rightarrow> manage_sending pt g an job currentTime task
      | CRON_TASK_RUNNING \<Rightarrow> manage_running pt an currentTime task
      | CRON_TASK_ERROR \<Rightarrow> manage_error an task
      | CRON_TASK_RECEIVING \<Rightarrow> manage_done g task
      | CRON_TASK_DONE \<Rightarrow> manage_done g task)"

text \<open>The result is the task's new content, or \<open>None\<close> if its entry was removed.\<close>

definition ManageCronTask ::
  "pg_time \<Rightarrow> ('jh, 'th) globals \<Rightarrow> answers \<Rightarrow> CronJob option \<Rightarrow> int \<Rightarrow> CronTask \<Rightarrow> CronTask option step" where
  "ManageCronTask pt g an job currentTime task =
     (if job = None \<and> state task \<noteq> CRON_TASK_DONE then
        bindIO (SetTaskError (an_strerror an) (task\<lparr> state := CRON_TASK_ERROR \<rparr>) (Some ''job metadata not found'') [])
          (manage_state pt g an job currentTime)
      else manage_state pt g an job currentTime task)"

lemmas handler_defs = manage_waiting_def manage_start_def manage_connecting_def manage_sending_def
  manage_running_def manage_error_def manage_done_def

end
