(* ===== verification/Task_Invariants.thy ===== *)
theory Task_Invariants
  imports Task_Machine
begin

text \<open>
  What every step of the state machine keeps, and what it does to the server: the well-formedness of
  a task, and the balance of runs opened and finished and of connections opened and closed.
\<close>

section \<open>Well-formed tasks\<close>

definition in_flight :: "CronTask \<Rightarrow> bool" where
  "in_flight t = (state t = CRON_TASK_CONNECTING \<or> state t = CRON_TASK_SENDING \<or> state t = CRON_TASK_RUNNING)"

definition task_ok :: "CronTask \<Rightarrow> bool" where
  "task_ok t =
     ((conn t \<noteq> None \<longrightarrow> in_flight t \<or> state t = CRON_TASK_ERROR)
      \<and> (in_flight t \<longrightarrow> conn t \<noteq> None \<and> runId t \<noteq> 0)
      \<and> (state t = CRON_TASK_ERROR \<longrightarrow> errorMessage t \<noteq> None)
      \<and> (state t = CRON_TASK_WAITING \<or> state t = CRON_TASK_START \<longrightarrow> runId t = 0)
      \<and> state t \<noteq> CRON_TASK_RECEIVING
      \<and> 0 \<le> pendingRunCount t \<and> pendingRunCount t \<le> INT_MAX)"

section \<open>Balances\<close>

definition count_events :: "(event \<Rightarrow> bool) \<Rightarrow> event list \<Rightarrow> int" where
  "count_events P es = int (length (filter P es))"

fun opens_run :: "event \<Rightarrow> bool" where
  "opens_run (EvInsertRun _ _ _ _) = True"
| "opens_run _ = False"

fun finishes_run :: "event \<Rightarrow> bool" where
  "finishes_run (EvFinishRun _ _ _ _) = True"
| "finishes_run _ = False"

fun opens_conn :: "event \<Rightarrow> bool" where
  "opens_conn (EvConnectStart _ _) = True"
| "opens_conn _ = False"

fun closes_conn :: "event \<Rightarrow> bool" where
  "closes_conn (EvFinishConn _) = True"
| "closes_conn _ = False"

lemma count_events_simps [simp]:
  "count_events P [] = 0"
  "count_events P (e # es) = (if P e then 1 else 0) + count_events P es"
  "count_events P (es @ fs) = count_events P es + count_events P fs"
  by (simp_all add: count_events_def)

text \<open>Runs that are open in the history, and connections that are open, on account of a task.\<close>

definition run_open :: "CronTask option \<Rightarrow> int" where
  "run_open r = (case r of None \<Rightarrow> 0 | Some t \<Rightarrow> if runId t \<noteq> 0 \<and> state t \<noteq> CRON_TASK_DONE then 1 else 0)"

definition conn_open :: "CronTask option \<Rightarrow> int" where
  "conn_open r = (case r of None \<Rightarrow> 0 | Some t \<Rightarrow> if conn t \<noteq> None then 1 else 0)"

definition final_statuses :: "string set" where
  "final_statuses = {''succeeded'', ''failed'', ''timeout''}"

lemma final_statuses [simp]:
  "''succeeded'' \<in> final_statuses" "''failed'' \<in> final_statuses" "''timeout'' \<in> final_statuses"
  by (simp_all add: final_statuses_def)

text \<open>
  What a step may do to the server: update and finish only the task's own run, with one of the final
  statuses, and use only the task's own connection, for the command of its job.
\<close>

definition own_event :: "CronJob option \<Rightarrow> int \<Rightarrow> nat option \<Rightarrow> event \<Rightarrow> bool" where
  "own_event job rid c e =
     (case e of
        EvFinishRun rid' status m endtime \<Rightarrow> rid' = rid \<and> status \<in> final_statuses
      | EvSetRunning rid' pid \<Rightarrow> rid' = rid
      | EvSendQuery c' q \<Rightarrow> c = Some c' \<and> map_option command job = Some q
      | EvCancel c' \<Rightarrow> c = Some c'
      | EvFinishConn c' \<Rightarrow> c = Some c'
      | _ \<Rightarrow> True)"

text \<open>A step's effects account for the change of the task.\<close>

definition step_ok :: "CronJob option \<Rightarrow> CronTask \<Rightarrow> event list \<Rightarrow> CronTask option \<Rightarrow> bool" where
  "step_ok job t es r =
     ((case r of
         None \<Rightarrow> \<not> isActive t
       | Some t' \<Rightarrow> task_ok t' \<and> jobId t' = jobId t \<and> isActive t' = isActive t \<and> nextRunTime t' = nextRunTime t
           \<and> pendingRunCount t' \<le> pendingRunCount t)
      \<and> count_events opens_run es - count_events finishes_run es = run_open r - run_open (Some t)
      \<and> count_events opens_conn es - count_events closes_conn es = conn_open r - conn_open (Some t)
      \<and> (\<forall>e \<in> set es. own_event job (runId t) (conn t) e))"

section \<open>One step\<close>

definition format_error :: "string \<Rightarrow> string option \<Rightarrow> fmt_arg list \<Rightarrow> string option" where
  "format_error em fmt args =
     vsnprintf em 1024 (case fmt of None \<Rightarrow> unknown_error_text | Some f \<Rightarrow> if f = [] then unknown_error_text else f) args"

lemma SetTaskError_eq:
  "SetTaskError em t fmt args = (case format_error em fmt args of None \<Rightarrow> ([], Inl UndefinedFormat)
     | Some m \<Rightarrow> ([], Inr (t\<lparr> errorMessage := Some m \<rparr>)))"
  by (simp add: SetTaskError_def format_error_def Let_def io_simps split: option.split)

lemma fail_task_eq:
  "fail_task em t fmt args = (case format_error em fmt args of None \<Rightarrow> ([], Inl UndefinedFormat)
     | Some m \<Rightarrow> ([], Inr (Some (t\<lparr> state := CRON_TASK_ERROR, polling_status := PGRES_POLLING_FAILED,
          errorMessage := Some m \<rparr>))))"
  by (simp add: fail_task_def SetTaskError_eq io_simps split: option.split)

lemma bindIO_pair:
  "bindIO (ls, x) f = (case x of Inl e \<Rightarrow> (ls, Inl e) | Inr a \<Rightarrow> (ls @ fst (f a), snd (f a)))"
  by (cases x) simp_all

lemma bindIO_InrE:
  assumes "bindIO m f = (es, Inr b)"
  obtains es1 a es2 where "m = (es1, Inr a)" and "f a = (es2, Inr b)" and "es = es1 @ es2"
  using assms by (cases m; cases "snd m") (auto simp: prod_eq_iff)

lemmas machine_simps = step_simps sql_defs bindIO_pair SetTaskError_eq fail_task_eq PQfinish_def PQstatus_def Let_def

lemmas ok_defs = step_ok_def own_event_def task_ok_def in_flight_def run_open_def conn_open_def

text \<open>The server's sequence of run ids does not yield 0.\<close>

definition ids_nonzero :: "answers \<Rightarrow> bool" where
  "ids_nonzero an = (\<forall>r. an_insert an = Inr r \<longrightarrow> spi_value r \<noteq> Some 0)"

lemma waiting_ok:
  "task_ok t \<Longrightarrow> state t = CRON_TASK_WAITING \<Longrightarrow> manage_waiting t = (es, Inr r) \<Longrightarrow> step_ok job t es r"
  by (auto simp: manage_waiting_def machine_simps ok_defs cdefs split: if_splits)

definition failed_from :: "CronTask \<Rightarrow> CronTask \<Rightarrow> bool" where
  "failed_from t t' = (state t' = CRON_TASK_ERROR \<and> errorMessage t' \<noteq> None \<and> jobId t' = jobId t
     \<and> runId t' = runId t \<and> conn t' = conn t \<and> pendingRunCount t' = pendingRunCount t
     \<and> isActive t' = isActive t \<and> nextRunTime t' = nextRunTime t)"

lemma fail_task_from:
  "fail_task em t fmt args = (es, Inr r) \<Longrightarrow> es = [] \<and> (\<exists>t'. r = Some t' \<and> failed_from t t')"
  by (auto simp: fail_task_eq failed_from_def split: option.splits)

lemma InsertRunDetailsStart_events:
  assumes "InsertRunDetailsStart answer task job startTime = (es, Inr (task', rid))"
  obtains r where "answer = Inr r" and "spi_value r = Some rid" and "task' = task\<lparr> runId := rid \<rparr>"
    and "es = [EvStartTransaction, EvInsertRun (job_jobId job) (database job) (userName job) startTime, EvEndTransaction]"
  using assms by (cases answer) (auto simp: machine_simps split: if_splits option.splits)

lemma open_connection_cases:
  assumes "open_connection pt g an j now t = (es, Inr r)"
  shows "(case PQconnectStartParams an of
       None \<Rightarrow> es = [] \<and> (\<exists>t'. r = Some t' \<and> failed_from t t')
     | Some c \<Rightarrow> es = [EvConnectStart c (connection_params an (StatementTimeoutMs g) j)]
         \<and> (\<exists>t'. r = Some t' \<and> (failed_from (t\<lparr> conn := Some c \<rparr>) t'
              \<or> t' = t\<lparr> conn := Some c, startDeadline := ts_plus_ms pt now (TaskTimeout g),
                  polling_status := PGRES_POLLING_WRITING, state := CRON_TASK_CONNECTING \<rparr>)))"
  using assms unfolding open_connection_def
  by (auto simp: io_simps Let_def fail_task_eq failed_from_def split: option.splits if_splits)

lemma start_ok:
  assumes ok: "task_ok t" and st: "state t = CRON_TASK_START" and ids: "ids_nonzero an"
    and m: "manage_start pt g an job now t = (es, Inr r)"
  shows "step_ok job t es r"
proof -
  from m obtain j where j: "job = Some j" by (cases job) (auto simp: manage_start_def io_simps)
  from m obtain es1 t1 rid es2 where
    ins: "InsertRunDetailsStart (an_insert an) t j (an_now an) = (es1, Inr (t1, rid))"
    and opn: "open_connection pt g an j now (t1\<lparr> runId := rid \<rparr>) = (es2, Inr r)" and es: "es = es1 @ es2"
    by (auto simp: manage_start_def j elim!: bindIO_InrE)
  from ins obtain a where "an_insert an = Inr a" "spi_value a = Some rid" and t1: "t1 = t\<lparr> runId := rid \<rparr>"
    and es1: "es1 = [EvStartTransaction, EvInsertRun (job_jobId j) (database j) (userName j) (an_now an), EvEndTransaction]"
    by (rule InsertRunDetailsStart_events)
  with ids have "rid \<noteq> 0" by (auto simp: ids_nonzero_def)
  with open_connection_cases [OF opn] ok st show ?thesis
    unfolding es es1 t1 by (auto simp: ok_defs failed_from_def split: option.splits)
qed

lemma connecting_ok:
  assumes "task_ok t" "state t = CRON_TASK_CONNECTING" "manage_connecting pt an now t = (es, Inr r)"
  shows "step_ok job t es r"
  using assms unfolding manage_connecting_def
  by (auto simp: machine_simps ok_defs split: if_splits option.splits sum.splits)

lemma sending_ok:
  assumes "task_ok t" "state t = CRON_TASK_SENDING" "manage_sending pt g an job now t = (es, Inr r)"
  shows "step_ok job t es r"
  using assms unfolding manage_sending_def
  by (auto simp: machine_simps ok_defs split: if_splits option.splits sum.splits)

lemma UpdateRunDetailsFinish_events:
  assumes "UpdateRunDetailsFinish answer rid status msg endtime = (es, Inr u)"
  obtains m warn where "msg = Some m" and "es = [EvStartTransaction, EvFinishRun rid status m endtime] @ warn @ [EvEndTransaction]"
    and "warn = [] \<or> (\<exists>w. warn = [EvWarning w])"
  using assms by (cases answer) (auto simp: machine_simps split: if_splits option.splits)

lemma error_ok:
  assumes ok: "task_ok t" and st: "state t = CRON_TASK_ERROR" and m: "manage_error an t = (es, Inr r)"
  shows "step_ok job t es r"
proof -
  from m [unfolded manage_error_def] obtain es1 t1 es2 where
    fin: "(if runId t \<noteq> 0 then
               bindIO (UpdateRunDetailsFinish (an_update an) (runId t)
                   (if timedOut t then ''timeout'' else ''failed'') (errorMessage t) (an_now an))
                 (\<lambda>_. returnIO (t\<lparr> runId := 0 \<rparr>))
             else returnIO t) = (es1, Inr t1)"
    and rest: "bindIO (PQfinish (conn t1)) (\<lambda>_.
       let task2 = (if conn t1 \<noteq> None then t1\<lparr> conn := None \<rparr> else t1) in
       if \<not> isActive task2 then returnIO None
       else returnIO (Some (task2\<lparr> state := CRON_TASK_DONE, polling_status := PGRES_POLLING_FAILED,
              startDeadline := 0, runDeadline := 0, cancelRequested := False, isSocketReady := False \<rparr>))) = (es2, Inr r)"
    and es: "es = es1 @ es2"
    by (rule bindIO_InrE)
  have t1: "t1 = t\<lparr> runId := 0 \<rparr>"
    and e1: "es1 = [] \<and> runId t = 0 \<or> runId t \<noteq> 0 \<and> (\<exists>m warn. es1 = [EvStartTransaction,
         EvFinishRun (runId t) (if timedOut t then ''timeout'' else ''failed'') m (an_now an)] @ warn @ [EvEndTransaction]
       \<and> (warn = [] \<or> (\<exists>w. warn = [EvWarning w])))"
    using fin by (auto simp: io_simps split: if_splits elim!: bindIO_InrE UpdateRunDetailsFinish_events)
  have e2: "es2 = (case conn t of None \<Rightarrow> [] | Some c \<Rightarrow> [EvFinishConn c])"
    and r: "r = None \<and> \<not> isActive t \<or> r = Some (t1\<lparr> conn := None, state := CRON_TASK_DONE,
              polling_status := PGRES_POLLING_FAILED, startDeadline := 0, runDeadline := 0, cancelRequested := False,
              isSocketReady := False \<rparr>)"
    using rest unfolding t1 by (auto simp: machine_simps split: option.splits if_splits)
  show ?thesis
    using ok st e1 r unfolding es e2 t1
    by (cases "conn t"; elim disjE exE conjE; simp add: ok_defs)
qed

lemma read_results_cases:
  "read_results em rs t = (es, Inr t') \<Longrightarrow> es = [] \<and> (t' = t \<or> failed_from t t')"
  by (induction rs) (auto simp: SetTaskError_eq io_simps failed_from_def split: if_splits option.splits)

lemma manage_timeout_cases:
  assumes "manage_timeout pt an now t = (es, Inr x)"
  shows "(es = [] \<or> (\<exists>c. conn t = Some c \<and> es = [EvCancel c]))
     \<and> (case x of Inl r \<Rightarrow> \<exists>t'. r = Some t' \<and> failed_from t t'
         | Inr t' \<Rightarrow> t' = t \<or> (t' = t\<lparr> cancelRequested := True, timedOut := True, runDeadline := 0,
                        polling_status := PGRES_POLLING_READING \<rparr>))"
  using assms unfolding manage_timeout_def failed_from_def
  by (auto simp: io_simps fail_task_eq split: if_splits option.splits prod.splits)

lemma close_run_cases:
  assumes "close_run an (Some c) t = (es, Inr r)"
  shows "state t = CRON_TASK_ERROR \<and> es = [EvFinishConn c]
       \<and> r = Some (t\<lparr> conn := None, polling_status := PGRES_POLLING_FAILED, isSocketReady := False \<rparr>)
     \<or> state t \<noteq> CRON_TASK_ERROR
       \<and> (\<exists>warn. es = [EvFinishConn c, EvStartTransaction, EvFinishRun (runId t) ''succeeded'' ''OK'' (an_now an)]
              @ warn @ [EvEndTransaction] \<and> (warn = [] \<or> (\<exists>w. warn = [EvWarning w])))
       \<and> r = Some (t\<lparr> conn := None, polling_status := PGRES_POLLING_FAILED, isSocketReady := False,
              state := CRON_TASK_DONE \<rparr>)"
proof -
  let ?t = "t\<lparr> conn := None, polling_status := PGRES_POLLING_FAILED, isSocketReady := False \<rparr>"
  from assms obtain es1 u es2 where "PQfinish (Some c) = (es1, Inr u)" and es: "es = es1 @ es2"
    and upd: "(if state ?t \<noteq> CRON_TASK_ERROR then
         bindIO (UpdateRunDetailsFinish (an_update an) (runId ?t) ''succeeded'' (Some ''OK'') (an_now an))
           (\<lambda>_. returnIO (Some (?t\<lparr> state := CRON_TASK_DONE \<rparr>)))
       else returnIO (Some ?t)) = (es2, Inr r)"
    unfolding close_run_def Let_def by (rule bindIO_InrE)
  then have "es1 = [EvFinishConn c]" by (simp add: PQfinish_def io_simps)
  with upd show ?thesis unfolding es
    by (auto simp: io_simps split: if_splits elim!: bindIO_InrE UpdateRunDetailsFinish_events)
qed

text \<open>A running task after the timeout check: the same but for the marks of a cancel request.\<close>

definition still_running :: "CronTask \<Rightarrow> CronTask \<Rightarrow> bool" where
  "still_running t t' = (state t' = CRON_TASK_RUNNING \<and> jobId t' = jobId t \<and> runId t' = runId t \<and> conn t' = conn t
     \<and> errorMessage t' = errorMessage t \<and> pendingRunCount t' = pendingRunCount t \<and> isActive t' = isActive t
     \<and> nextRunTime t' = nextRunTime t)"

lemma read_answer_cases:
  assumes "read_answer an (Some c) t = (es, Inr r)" and "state t = CRON_TASK_RUNNING"
  shows "\<exists>t'. r = Some t' \<and> (es = [] \<and> t' = t \<or> es = [] \<and> failed_from t t'
     \<or> es = [EvFinishConn c] \<and> failed_from (t\<lparr> conn := None \<rparr>) t'
     \<or> (\<exists>warn. es = [EvFinishConn c, EvStartTransaction, EvFinishRun (runId t) ''succeeded'' ''OK'' (an_now an)]
              @ warn @ [EvEndTransaction] \<and> (warn = [] \<or> (\<exists>w. warn = [EvWarning w])))
         \<and> t' = t\<lparr> conn := None, polling_status := PGRES_POLLING_FAILED, isSocketReady := False,
              state := CRON_TASK_DONE \<rparr>)"
proof (cases "isSocketReady t \<and> PQconsumeInput an = 1 \<and> PQisBusy an \<noteq> 1")
  case False
  with assms(1) show ?thesis by (auto simp: read_answer_def io_simps split: if_splits dest: fail_task_from)
next
  case True
  with assms(1) obtain es1 t1 es2 where rr: "read_results (an_strerror an) (an_results an) t = (es1, Inr t1)"
    and cl: "close_run an (Some c) t1 = (es2, Inr r)" and es: "es = es1 @ es2"
    by (auto simp: read_answer_def elim: bindIO_InrE)
  from read_results_cases [OF rr] have "es1 = []" and "t1 = t \<or> failed_from t t1" by auto
  with close_run_cases [OF cl] assms(2) show ?thesis unfolding es by (auto simp: failed_from_def)
qed

lemma running_ok:
  assumes ok: "task_ok t" and st: "state t = CRON_TASK_RUNNING" and m: "manage_running pt an now t = (es, Inr r)"
  shows "step_ok job t es r"
proof (cases "\<not> isActive t \<or> PQstatus an (conn t) = CONNECTION_BAD")
  case True
  with m have "es = [] \<and> (\<exists>t'. r = Some t' \<and> failed_from t t')"
    by (auto simp: manage_running_def split: if_splits dest: fail_task_from)
  with ok st show ?thesis by (auto simp: failed_from_def ok_defs)
next
  case False
  with m obtain es1 x es2 where tm: "manage_timeout pt an now t = (es1, Inr x)"
    and rest: "(case x of Inl brk \<Rightarrow> returnIO brk | Inr task1 \<Rightarrow> read_answer an (conn t) task1) = (es2, Inr r)"
    and es: "es = es1 @ es2"
    by (auto simp: manage_running_def elim: bindIO_InrE)
  from ok st obtain c where c: "conn t = Some c" by (auto simp: ok_defs)
  have e1: "es1 = [] \<or> es1 = [EvCancel c]" using manage_timeout_cases [OF tm] c by auto
  show ?thesis
  proof (cases x)
    case (Inl brk)
    with rest manage_timeout_cases [OF tm] have "es2 = []" "\<exists>t'. r = Some t' \<and> failed_from t t'"
      by (auto simp: io_simps)
    with ok st c e1 show ?thesis unfolding es by (auto simp: failed_from_def ok_defs)
  next
    case (Inr t1)
    with manage_timeout_cases [OF tm] st have t1: "still_running t t1" by (auto simp: still_running_def)
    then have "state t1 = CRON_TASK_RUNNING" by (simp add: still_running_def)
    with rest Inr c read_answer_cases [of an c t1 es2 r] obtain t' where r: "r = Some t'" and
      cases: "es2 = [] \<and> t' = t1 \<or> es2 = [] \<and> failed_from t1 t'
     \<or> es2 = [EvFinishConn c] \<and> failed_from (t1\<lparr> conn := None \<rparr>) t'
     \<or> (\<exists>warn. es2 = [EvFinishConn c, EvStartTransaction, EvFinishRun (runId t1) ''succeeded'' ''OK'' (an_now an)]
              @ warn @ [EvEndTransaction] \<and> (warn = [] \<or> (\<exists>w. warn = [EvWarning w])))
         \<and> t' = t1\<lparr> conn := None, polling_status := PGRES_POLLING_FAILED, isSocketReady := False,
              state := CRON_TASK_DONE \<rparr>" by auto
    from cases e1 ok st c t1 show ?thesis
      unfolding es r still_running_def failed_from_def by (elim disjE exE conjE; simp add: ok_defs)
  qed
qed

lemma done_ok:
  "task_ok t \<Longrightarrow> state t = CRON_TASK_DONE \<Longrightarrow> 0 \<le> maxPendingTasks g \<Longrightarrow> manage_done g t = (es, Inr r) \<Longrightarrow>
     step_ok job t es r"
  by (auto simp: manage_done_def ResetCronTaskAfterRun_def Let_def io_simps ok_defs)

lemma manage_state_ok:
  assumes "task_ok t" and "ids_nonzero an" and "0 \<le> maxPendingTasks g"
    and "manage_state pt g an job now t = (es, Inr r)"
  shows "step_ok job t es r"
  using assms waiting_ok [of t es r job] start_ok [of t an pt g job now es r] connecting_ok [of t pt an now es r job]
    sending_ok [of t pt g an job now es r] running_ok [of t pt an now es r job] error_ok [of t an es r job]
    done_ok [of t g es r job]
  by (cases "state t") (auto simp: manage_state_def task_ok_def)

lemma ManageCronTask_ok:
  assumes ok: "task_ok t" and "ids_nonzero an" and "0 \<le> maxPendingTasks g"
    and m: "ManageCronTask pt g an job now t = (es, Inr r)"
  shows "step_ok job t es r"
proof (cases "job = None \<and> state t \<noteq> CRON_TASK_DONE")
  case False
  with assms manage_state_ok show ?thesis by (simp add: ManageCronTask_def)
next
  case True
  with m obtain e where "manage_state pt g an job now (t\<lparr> state := CRON_TASK_ERROR, errorMessage := Some e \<rparr>) = (es, Inr r)"
    by (auto simp: ManageCronTask_def SetTaskError_eq split: option.splits)
  moreover have "task_ok (t\<lparr> state := CRON_TASK_ERROR, errorMessage := Some e \<rparr>)"
    using ok by (auto simp: ok_defs)
  ultimately have "step_ok job (t\<lparr> state := CRON_TASK_ERROR, errorMessage := Some e \<rparr>) es r"
    using assms manage_state_ok by blast
  with True show ?thesis by (cases r) (auto simp: step_ok_def run_open_def conn_open_def)
qed

section \<open>How a step can fail\<close>

lemma snd_bindIO_Inl:
  "snd (bindIO m f) = Inl e \<longleftrightarrow> snd m = Inl e \<or> (\<exists>a. snd m = Inr a \<and> snd (f a) = Inl e)"
  by (cases m; cases "snd m") auto

text \<open>
  The expected ways: an error that the server raises, or one of the program's own errors about the
  server's answer, or a format with an undefined expansion.
\<close>

definition step_fault :: "answers \<Rightarrow> fault \<Rightarrow> bool" where
  "step_fault an f = (f = UndefinedFormat \<or> (\<exists>msg. f = PgError msg) \<or> an_insert an = Inl f \<or> an_update an = Inl f)"

lemma SetTaskError_fault: "snd (SetTaskError em t fmt args) = Inl f \<Longrightarrow> f = UndefinedFormat"
  by (auto simp: SetTaskError_eq split: option.splits)

lemma fail_task_fault: "snd (fail_task em t fmt args) = Inl f \<Longrightarrow> f = UndefinedFormat"
  by (auto simp: fail_task_eq split: option.splits)

lemma UpdateRunDetailsFinish_fault:
  "snd (UpdateRunDetailsFinish answer rid status (Some m) endtime) = Inl f \<Longrightarrow> answer = Inl f \<or> (\<exists>msg. f = PgError msg)"
  by (cases answer) (auto simp: machine_simps split: if_splits)

lemma UpdatePID_fault: "snd (UpdatePID answer rid pid) = Inl f \<Longrightarrow> answer = Inl f \<or> (\<exists>msg. f = PgError msg)"
  by (cases answer) (auto simp: machine_simps split: if_splits)

lemma InsertRunDetailsStart_fault:
  "snd (InsertRunDetailsStart answer t j startTime) = Inl f \<Longrightarrow> answer = Inl f \<or> (\<exists>msg. f = PgError msg)"
  by (cases answer) (auto simp: machine_simps split: if_splits option.splits)

lemma read_results_fault: "snd (read_results em rs t) = Inl f \<Longrightarrow> f = UndefinedFormat"
  by (induction rs) (auto simp: io_simps snd_bindIO_Inl split: if_splits dest: SetTaskError_fault)

lemma PQfinish_no_fault: "snd (PQfinish c) \<noteq> Inl f"
  by (simp add: PQfinish_def io_simps split: option.split)

lemma close_run_fault: "snd (close_run an c t) = Inl f \<Longrightarrow> an_update an = Inl f \<or> (\<exists>msg. f = PgError msg)"
  by (auto simp: close_run_def io_simps Let_def PQfinish_no_fault snd_bindIO_Inl split: if_splits
      dest!: UpdateRunDetailsFinish_fault)

lemma read_answer_fault: "snd (read_answer an c t) = Inl f \<Longrightarrow> step_fault an f"
  by (auto simp: read_answer_def step_fault_def io_simps snd_bindIO_Inl split: if_splits
      dest: fail_task_fault read_results_fault close_run_fault)

lemma manage_timeout_fault: "conn t \<noteq> None \<Longrightarrow> snd (manage_timeout pt an now t) = Inl f \<Longrightarrow> f = UndefinedFormat"
  by (auto simp: manage_timeout_def io_simps snd_bindIO_Inl split: if_splits prod.splits dest: fail_task_fault)

lemma open_connection_fault: "snd (open_connection pt g an j now t) = Inl f \<Longrightarrow> f = UndefinedFormat"
  by (auto simp: open_connection_def io_simps snd_bindIO_Inl Let_def split: if_splits option.splits dest: fail_task_fault)

lemmas part_faults = fail_task_fault UpdateRunDetailsFinish_fault UpdatePID_fault InsertRunDetailsStart_fault
  open_connection_fault

lemma manage_state_fault:
  assumes ok: "task_ok t" and job: "job \<noteq> None \<or> state t = CRON_TASK_ERROR \<or> state t = CRON_TASK_DONE"
    and m: "snd (manage_state pt g an job now t) = Inl f"
  shows "step_fault an f"
proof (cases "state t")
  case CRON_TASK_START
  with job m show ?thesis
    by (auto simp: manage_state_def manage_start_def step_fault_def snd_bindIO_Inl split: prod.splits dest!: part_faults)
next
  case CRON_TASK_CONNECTING
  with m show ?thesis
    by (auto simp: manage_state_def manage_connecting_def step_fault_def io_simps snd_bindIO_Inl split: if_splits
        dest!: part_faults)
next
  case CRON_TASK_SENDING
  with ok job m show ?thesis
    by (auto simp: manage_state_def manage_sending_def step_fault_def io_simps task_ok_def in_flight_def snd_bindIO_Inl
        split: if_splits dest!: part_faults)
next
  case CRON_TASK_RUNNING
  then have "conn t \<noteq> None" using ok by (simp add: task_ok_def in_flight_def)
  moreover from m CRON_TASK_RUNNING consider
      "snd (fail_task (an_strerror an) t (Some ''job has been removed'') []) = Inl f" | "snd (fail_task (an_strerror an) t (Some (PQerrorMessage an)) []) = Inl f"
    | "snd (manage_timeout pt an now t) = Inl f"
    | x where "snd (case x of Inl brk \<Rightarrow> returnIO brk | Inr task1 \<Rightarrow> read_answer an (conn t) task1) = Inl f"
    by (auto simp: manage_state_def manage_running_def snd_bindIO_Inl split: if_splits)
  then have "f = UndefinedFormat \<or> snd (manage_timeout pt an now t) = Inl f \<or> step_fault an f"
    by cases (auto simp: io_simps split: sum.splits dest: fail_task_fault read_answer_fault)
  ultimately show ?thesis using manage_timeout_fault [of t pt an now f] by (auto simp: step_fault_def)
next
  case CRON_TASK_ERROR
  then obtain m where "errorMessage t = Some m" using ok by (auto simp: task_ok_def)
  with m CRON_TASK_ERROR show ?thesis
    by (auto simp: manage_state_def manage_error_def step_fault_def io_simps Let_def PQfinish_no_fault snd_bindIO_Inl
        split: if_splits dest!: UpdateRunDetailsFinish_fault)
qed (use m in \<open>auto simp: manage_state_def manage_waiting_def manage_done_def io_simps Let_def split: if_splits\<close>)

lemma ManageCronTask_fault:
  assumes ok: "task_ok t" and m: "snd (ManageCronTask pt g an job now t) = Inl f"
  shows "step_fault an f"
proof (cases "job = None \<and> state t \<noteq> CRON_TASK_DONE")
  case False
  with m have "snd (manage_state pt g an job now t) = Inl f" by (simp only: ManageCronTask_def if_False)
  with False ok show ?thesis by (blast intro: manage_state_fault)
next
  case True
  with m consider "f = UndefinedFormat"
    | e where "snd (manage_state pt g an job now (t\<lparr> state := CRON_TASK_ERROR, errorMessage := Some e \<rparr>)) = Inl f"
    by (auto simp: ManageCronTask_def SetTaskError_eq snd_bindIO_Inl split: option.splits)
  then show ?thesis
  proof cases
    case (2 e)
    have "task_ok (t\<lparr> state := CRON_TASK_ERROR, errorMessage := Some e \<rparr>)" using ok by (auto simp: ok_defs)
    from manage_state_fault [OF this _ 2] show ?thesis by simp
  qed (simp add: step_fault_def)
qed

end
