(* ===== verification/Task_Props.thy ===== *)
theory Task_Props
  imports Task_Invariants
begin

text \<open>
  The properties of \<open>ManageCronTask\<close>: what one step may do, the history and the connections of a
  whole life of a task, timeouts, the removal of tasks whose job is gone, and a successful run.
\<close>

section \<open>One step\<close>

text \<open>
  C14: one call of ManageCronTask (src/nedo_cron.c) on a well-formed task, for any job, any time and
  any answers of libpq and of the server (whose run ids are not 0). If it returns, the task is well
  formed again and has kept its id and its active flag, or it was inactive and its entry is gone. The
  history rows inserted minus those finished are exactly the change of the task's open run, the
  connections opened minus those closed exactly the change of its connection; a row is only ever
  finished as succeeded, failed or timeout, and only the task's own row and own connection are
  touched; the only query sent is the job's command.
\<close>

theorem ManageCronTask_accounts:
  assumes "task_ok t" and "ids_nonzero an" and "0 \<le> maxPendingTasks g"
    and "ManageCronTask pt g an job now t = (es, Inr r)"
  shows "step_ok job t es r"
  using assms by (rule ManageCronTask_ok)

text \<open>Answers for concrete runs: everything succeeds at once.\<close>

definition good_answers :: answers where
  "good_answers = \<lparr> an_now = 100, an_strerror = ''Success'', an_insert = inserted 42, an_update = updated 1, an_encoding = ''UTF8'',
     PQconnectStartParams = Some 5, PQsetnonblocking = 0, an_status = CONNECTION_OK, PQerrorMessage = [],
     PQconnectPoll = PGRES_POLLING_OK, PQbackendPID = 4711, PQsendQuery = 1, PQgetCancel = True, PQcancel = (1, []),
     PQconsumeInput = 1, PQisBusy = 0,
     an_results = [\<lparr> PQresultStatus = PGRES_TUPLES_OK, sqlstate = None, PQresultErrorMessage = [] \<rparr>] \<rparr>"

lemma good_ids: "ids_nonzero good_answers"
  by (simp add: ids_nonzero_def good_answers_def inserted_def)

definition start_task :: CronTask where
  "start_task = InitCronTask raw_task 7\<lparr> state := CRON_TASK_START \<rparr>"

lemma start_task_ok: "task_ok start_task"
  by (simp add: start_task_def InitCronTask_def task_ok_def in_flight_def cdefs)

theorem ManageCronTask_accounts_witness:
  "\<exists>es r. ManageCronTask pg_time_doc example_globals good_answers (Some example_job) 0 start_task = (es, Inr r)
     \<and> step_ok (Some example_job) start_task es r \<and> count_events opens_run es = 1"
proof -
  obtain es r where m: "ManageCronTask pg_time_doc example_globals good_answers (Some example_job) 0 start_task = (es, Inr r)"
    and "count_events opens_run es = 1"
    by (simp add: ManageCronTask_def manage_state_def manage_start_def open_connection_def start_task_def InitCronTask_def
        good_answers_def inserted_def machine_simps raw_task_def)
  then show ?thesis
    using ManageCronTask_accounts [OF start_task_ok good_ids _ m] by (auto simp: example_globals_def)
qed

text \<open>
  how a call of ManageCronTask (src/nedo_cron.c) on a well-formed task can fail to return: an
  error that the server raises in a statement, one of the program's own errors about the server's
  answer, or an error text used as a format that has an undefined expansion. In particular no NULL
  pointer is dereferenced, although neither the job nor the connection nor the stored error message
  is tested where it is used: the message is there whenever a run is finished as failed, the
  connection whenever a query is sent or cancelled, the job whenever it is read.
\<close>

theorem ManageCronTask_faults:
  assumes "task_ok t" and "snd (ManageCronTask pt g an job now t) = Inl f"
  shows "f = UndefinedFormat \<or> (\<exists>msg. f = PgError msg) \<or> an_insert an = Inl f \<or> an_update an = Inl f"
  using ManageCronTask_fault [OF assms] by (simp add: step_fault_def)

theorem ManageCronTask_faults_witness:
  "snd (ManageCronTask pg_time_doc example_globals (good_answers\<lparr> an_insert := updated 1 \<rparr>) (Some example_job) 0 start_task)
      = Inl (PgError ''could not insert row into nedo_cron.job_run_details'')
   \<and> \<not> snd (ManageCronTask pg_time_doc example_globals (good_answers\<lparr> an_insert := updated 1 \<rparr>) (Some example_job) 0 start_task)
      = Inl NullPointer"
proof -
  have "snd (ManageCronTask pg_time_doc example_globals (good_answers\<lparr> an_insert := updated 1 \<rparr>) (Some example_job) 0 start_task)
      = Inl (PgError ''could not insert row into nedo_cron.job_run_details'')"
    by (simp add: ManageCronTask_def manage_state_def manage_start_def start_task_def InitCronTask_def
        good_answers_def updated_def machine_simps raw_task_def)
  moreover have "\<not> snd (ManageCronTask pg_time_doc example_globals (good_answers\<lparr> an_insert := updated 1 \<rparr>)
      (Some example_job) 0 start_task) = Inl NullPointer"
    using ManageCronTask_faults [OF start_task_ok, of pg_time_doc example_globals "good_answers\<lparr> an_insert := updated 1 \<rparr>"
        "Some example_job" 0 NullPointer]
    by (auto simp: good_answers_def updated_def)
  ultimately show ?thesis by blast
qed

section \<open>The life of a task\<close>

text \<open>
  Between its steps a task is rescheduled, reloaded and waited for. A life is any sequence of these,
  with the effects on the server; \<open>None\<close> is a removed entry.
\<close>

inductive task_life :: "pg_time \<Rightarrow> ('jh, 'th) globals \<Rightarrow> CronTask \<Rightarrow> event list \<Rightarrow> CronTask option \<Rightarrow> bool"
  for pt g t0 where
  begin_life: "task_life pt g t0 [] (Some t0)"
| manage: "task_life pt g t0 es (Some t) \<Longrightarrow> ids_nonzero an \<Longrightarrow> ManageCronTask pt g an job now t = (fs, Inr r) \<Longrightarrow>
     task_life pt g t0 (es @ fs) r"
| wait: "task_life pt g t0 es (Some t) \<Longrightarrow> wait_step t t' \<Longrightarrow> task_life pt g t0 es (Some t')"
| plan: "task_life pt g t0 es (Some t) \<Longrightarrow> 0 \<le> p \<Longrightarrow> p \<le> INT_MAX \<Longrightarrow>
     task_life pt g t0 es (Some (t\<lparr> pendingRunCount := p, nextRunTime := n \<rparr>))"
| reload: "task_life pt g t0 es (Some t) \<Longrightarrow> task_life pt g t0 es (Some (t\<lparr> isActive := b \<rparr>))"

lemma wait_step_ok:
  "task_ok t \<Longrightarrow> wait_step t t' \<Longrightarrow> task_ok t' \<and> run_open (Some t') = run_open (Some t) \<and> conn_open (Some t') = conn_open (Some t)
     \<and> jobId t' = jobId t \<and> isActive t' = isActive t \<and> pendingRunCount t' = pendingRunCount t"
  unfolding wait_step_def TaskNeedsSocketWait_def task_ok_def in_flight_def run_open_def conn_open_def
  by (elim disjE exE conjE; simp)

lemma fresh_task_ok: "fresh_task t jid \<Longrightarrow> task_ok t \<and> run_open (Some t) = 0 \<and> conn_open (Some t) = 0"
  by (simp add: fresh_task_def task_ok_def in_flight_def run_open_def conn_open_def cdefs)

lemma task_life_invariant:
  assumes "task_life pt g t0 es r" and "fresh_task t0 jid" and "0 \<le> maxPendingTasks g"
  shows "(case r of None \<Rightarrow> True | Some t \<Rightarrow> task_ok t)
     \<and> count_events opens_run es - count_events finishes_run es = run_open r
     \<and> count_events opens_conn es - count_events closes_conn es = conn_open r"
  using assms(1)
proof (induction rule: task_life.induct)
  case begin_life
  show ?case using fresh_task_ok [OF assms(2)] by simp
next
  case (manage es t an job now fs r)
  then have "step_ok job t fs r" using assms(3) by (intro ManageCronTask_ok) auto
  with manage.IH show ?case by (auto simp: step_ok_def split: option.splits)
next
  case (wait es t t')
  with wait_step_ok [of t t'] show ?case by auto
next
  case (plan es t p n)
  then show ?case by (auto simp: task_ok_def in_flight_def run_open_def conn_open_def)
next
  case (reload es t b)
  then show ?case by (auto simp: task_ok_def in_flight_def run_open_def conn_open_def)
qed

text \<open>
  C5: over the whole life of a task, from its creation on and through any sequence of steps of
  ManageCronTask, waits, scheduling rounds and reloads (src/nedo_cron.c, src/cron_job.c), with any
  answers of libpq and the server: the history rows inserted are those finished plus the one of the
  open run, and the connections opened are those closed plus the open one. So there is at most one
  open run and one connection at any time, a job never runs in parallel with itself, every run is
  finished exactly once, and when the task waits or is removed nothing of it is left open.
\<close>

theorem task_life_balanced:
  assumes "task_life pt g t0 es r" and "fresh_task t0 jid" and "0 \<le> maxPendingTasks g"
  shows "count_events opens_run es = count_events finishes_run es + run_open r
     \<and> count_events opens_conn es = count_events closes_conn es + conn_open r
     \<and> run_open r \<in> {0, 1} \<and> conn_open r \<in> {0, 1}
     \<and> (case r of None \<Rightarrow> run_open r = 0 \<and> conn_open r = 0
        | Some t \<Rightarrow> state t = CRON_TASK_WAITING \<or> state t = CRON_TASK_DONE \<longrightarrow> run_open r = 0 \<and> conn_open r = 0)"
  using task_life_invariant [OF assms]
  by (auto simp: run_open_def conn_open_def task_ok_def in_flight_def split: option.splits)

theorem task_life_balanced_witness:
  "\<exists>es r. task_life pg_time_doc example_globals (InitCronTask raw_task 7) es r
     \<and> count_events opens_run es = 1 \<and> run_open r = 1 \<and> count_events opens_conn es = count_events closes_conn es + conn_open r"
proof -
  let ?t = "InitCronTask raw_task 7\<lparr> pendingRunCount := 1, nextRunTime := 0 \<rparr>"
  have "task_life pg_time_doc example_globals (InitCronTask raw_task 7) [] (Some ?t)"
    by (intro task_life.plan task_life.begin_life) (simp_all add: cdefs)
  moreover have "ManageCronTask pg_time_doc example_globals good_answers (Some example_job) 0 ?t = ([], Inr (Some start_task))"
    by (simp add: ManageCronTask_def manage_state_def manage_waiting_def InitCronTask_def io_simps start_task_def raw_task_def)
  ultimately have w: "task_life pg_time_doc example_globals (InitCronTask raw_task 7) ([] @ []) (Some start_task)"
    by (rule task_life.manage [OF _ good_ids])
  obtain es r where m: "ManageCronTask pg_time_doc example_globals good_answers (Some example_job) 0 start_task = (es, Inr r)"
    and o: "count_events opens_run es = 1" and f: "count_events finishes_run es = 0"
    by (simp add: ManageCronTask_def manage_state_def manage_start_def open_connection_def start_task_def InitCronTask_def
        good_answers_def inserted_def machine_simps raw_task_def)
  have l: "task_life pg_time_doc example_globals (InitCronTask raw_task 7) (([] @ []) @ es) r"
    by (rule task_life.manage [OF w good_ids m])
  from task_life_balanced [OF l fresh_InitCronTask] o f l show ?thesis
    by (intro exI [where x = es] exI [where x = r]) (simp add: example_globals_def)
qed

section \<open>Timeouts\<close>

lemma literal_no_fault: "format_error em (Some fmt_timeout) [ArgInt i] \<noteq> None"
  by (simp add: format_error_def vsnprintf_def fmt_timeout_def fmt_modifier_def reads_arg_def)

text \<open>
  C17: the connection deadline. Once it has passed, a step of ManageCronTask (src/nedo_cron.c) on a
  connecting or sending task fails it with an error text, whatever libpq would say and without any
  call to the server; the next step finishes its run as failed, closes its connection, and leaves a
  task that the following step returns to waiting, unless the server raises an error.
\<close>

theorem connection_times_out:
  assumes "pg_timestamps pt" and "task_ok t" and "state t = CRON_TASK_CONNECTING \<or> state t = CRON_TASK_SENDING"
    and "isActive t" and "startDeadline t \<le> now" and "\<not> timedOut t"
  shows "\<exists>t1 c m. ManageCronTask pt g an (Some j) now t = ([], Inr (Some t1)) \<and> conn t = Some c \<and> errorMessage t1 = Some m
     \<and> state t1 = CRON_TASK_ERROR \<and> runId t1 = runId t \<and> conn t1 = conn t
     \<and> (an_update an2 = updated 1 \<longrightarrow> (\<exists>t2. ManageCronTask pt g an2 (Some j) now2 t1 =
          ([EvStartTransaction, EvFinishRun (runId t) ''failed'' m (an_now an2), EvEndTransaction, EvFinishConn c],
           Inr (Some t2)) \<and> state t2 = CRON_TASK_DONE \<and> runId t2 = 0 \<and> conn t2 = None))"
proof -
  obtain c where c: "conn t = Some c" "runId t \<noteq> 0" using assms(2,3) by (auto simp: task_ok_def in_flight_def)
  obtain m where m: "format_error (an_strerror an) (Some fmt_timeout) [ArgInt (jobId t)] = Some m" using literal_no_fault by blast
  have ex: "ts_exceeds pt (startDeadline t) now 0" using assms(1,5) by (simp add: pg_timestamps.exceeds)
  let ?t1 = "t\<lparr> state := CRON_TASK_ERROR, polling_status := PGRES_POLLING_FAILED, errorMessage := Some m \<rparr>"
  have one: "ManageCronTask pt g an (Some j) now t = ([], Inr (Some ?t1))"
    using assms(3,4) ex m
    by (auto simp: ManageCronTask_def manage_state_def manage_connecting_def manage_sending_def fail_task_eq)
  have "an_update an2 = updated 1 \<Longrightarrow> ManageCronTask pt g an2 (Some j) now2 ?t1 =
      ([EvStartTransaction, EvFinishRun (runId t) ''failed'' m (an_now an2), EvEndTransaction, EvFinishConn c],
       Inr (Some (?t1\<lparr> runId := 0, conn := None, state := CRON_TASK_DONE, polling_status := PGRES_POLLING_FAILED,
          startDeadline := 0, runDeadline := 0, cancelRequested := False, isSocketReady := False \<rparr>)))"
    using c assms(4,6) by (simp add: ManageCronTask_def manage_state_def manage_error_def machine_simps updated_def)
  then show ?thesis using one c
    by (intro exI [where x = ?t1] exI [where x = c] exI [where x = m]) simp
qed

text \<open>
  C18: the run deadline of ManageCronTask (src/nedo_cron.c). A running task whose deadline has passed
  and whose cancellation has not been requested sends exactly one cancel, on its own connection, and
  marks it. But the request also clears the deadline, and from then on no step of a task whose
  connection is not bad and has nothing to read does anything at all: if the server never answers,
  the task stays running for ever, however much time passes.
\<close>

theorem run_deadline:
  assumes "pg_timestamps pt" and "task_ok t" and "state t = CRON_TASK_RUNNING" and "isActive t"
    and "an_status an \<noteq> CONNECTION_BAD" and "\<not> isSocketReady t"
  shows "(runDeadline t \<noteq> 0 \<and> runDeadline t \<le> now \<and> \<not> cancelRequested t \<and> PQgetCancel an \<and> fst (PQcancel an) \<noteq> 0 \<longrightarrow>
      (\<exists>c. conn t = Some c \<and> ManageCronTask pt g an (Some j) now t = ([EvCancel c],
         Inr (Some (t\<lparr> cancelRequested := True, timedOut := True, runDeadline := 0,
           polling_status := PGRES_POLLING_READING \<rparr>)))))
    \<and> (cancelRequested t \<longrightarrow> ManageCronTask pt g an (Some j) now t = ([], Inr (Some t)))
    \<and> (now < runDeadline t \<longrightarrow> ManageCronTask pt g an (Some j) now t = ([], Inr (Some t)))"
proof -
  obtain c where c: "conn t = Some c" using assms(2,3) by (auto simp: task_ok_def in_flight_def)
  then show ?thesis
    using assms by (cases "PQcancel an")
      (simp add: ManageCronTask_def manage_state_def manage_running_def manage_timeout_def read_answer_def machine_simps
        pg_timestamps.exceeds)
qed

text \<open>Tasks in flight, for concrete runs.\<close>

definition flying_task :: "CronTaskState \<Rightarrow> CronTask" where
  "flying_task s = InitCronTask raw_task 7\<lparr> state := s, runId := 42, conn := Some 5, startDeadline := 10000000,
     runDeadline := 20000000 \<rparr>"

lemma flying_simps:
  "s = CRON_TASK_CONNECTING \<or> s = CRON_TASK_SENDING \<or> s = CRON_TASK_RUNNING \<Longrightarrow> task_ok (flying_task s)"
  "state (flying_task s) = s" "isActive (flying_task s)" "startDeadline (flying_task s) = 10000000"
  "runDeadline (flying_task s) = 20000000" "\<not> timedOut (flying_task s)" "\<not> cancelRequested (flying_task s)"
  "\<not> isSocketReady (flying_task s)" "conn (flying_task s) = Some 5" "runId (flying_task s) = 42"
  by (auto simp: flying_task_def InitCronTask_def task_ok_def in_flight_def cdefs)

theorem connection_times_out_witness:
  "\<exists>t1. ManageCronTask pg_time_doc example_globals good_answers (Some example_job) 10000000 (flying_task CRON_TASK_CONNECTING)
        = ([], Inr (Some t1)) \<and> state t1 = CRON_TASK_ERROR
     \<and> (\<exists>m t2. ManageCronTask pg_time_doc example_globals good_answers (Some example_job) 10000001 t1 =
          ([EvStartTransaction, EvFinishRun 42 ''failed'' m 100, EvEndTransaction, EvFinishConn 5], Inr (Some t2)))"
  using connection_times_out [OF doc.pg_timestamps_axioms flying_simps(1) [of CRON_TASK_CONNECTING], of 10000000
      example_globals good_answers example_job good_answers 10000001]
  by (fastforce simp: flying_simps good_answers_def)

theorem run_deadline_witness:
  "ManageCronTask pg_time_doc example_globals good_answers (Some example_job) 20000000 (flying_task CRON_TASK_RUNNING) =
      ([EvCancel 5], Inr (Some (flying_task CRON_TASK_RUNNING\<lparr> cancelRequested := True, timedOut := True, runDeadline := 0,
         polling_status := PGRES_POLLING_READING \<rparr>)))
   \<and> ManageCronTask pg_time_doc example_globals good_answers (Some example_job) 19999999 (flying_task CRON_TASK_RUNNING) =
      ([], Inr (Some (flying_task CRON_TASK_RUNNING)))"
  using run_deadline [OF doc.pg_timestamps_axioms flying_simps(1) [of CRON_TASK_RUNNING], of good_answers 20000000
      example_globals example_job]
    run_deadline [OF doc.pg_timestamps_axioms flying_simps(1) [of CRON_TASK_RUNNING], of good_answers 19999999
      example_globals example_job]
  by (simp add: flying_simps good_answers_def)

text \<open>
  C31: a statement timeout of 0, the least value the setting allows, does not mean no limit. When a
  task's query has been sent under it by ManageCronTask (src/nedo_cron.c), the very next step that
  has nothing to read cancels the query, at whatever time it runs.
\<close>

theorem zero_timeout_cancels:
  assumes "pg_timestamps pt" and "task_ok t" and "state t = CRON_TASK_SENDING" and "isActive t" and "isSocketReady t"
    and "StatementTimeoutMs g = 0" and "0 < now" and "now < startDeadline t" and "now \<le> now2"
    and "an_status an \<noteq> CONNECTION_BAD" and "PQsendQuery an = 1"
    and "an_status an2 \<noteq> CONNECTION_BAD" and "PQgetCancel an2" and "fst (PQcancel an2) \<noteq> 0"
  shows "\<exists>c t1 t2. ManageCronTask pt g an (Some j) now t = ([EvSendQuery c (command j)], Inr (Some t1))
     \<and> ManageCronTask pt g an2 (Some j) now2 (t1\<lparr> isSocketReady := False \<rparr>) = ([EvCancel c], Inr (Some t2))
     \<and> state t2 = CRON_TASK_RUNNING"
proof -
  obtain c where c: "conn t = Some c" using assms(2,3) by (auto simp: task_ok_def in_flight_def)
  let ?t1 = "t\<lparr> polling_status := PGRES_POLLING_READING, state := CRON_TASK_RUNNING, startDeadline := 0,
     runDeadline := now, cancelRequested := False, timedOut := False \<rparr>"
  have "ManageCronTask pt g an (Some j) now t = ([EvSendQuery c (command j)], Inr (Some ?t1))"
    using c assms by (simp add: ManageCronTask_def manage_state_def manage_sending_def machine_simps
        pg_timestamps.exceeds pg_timestamps.plus_ms)
  moreover have "ManageCronTask pt g an2 (Some j) now2 (?t1\<lparr> isSocketReady := False \<rparr>) = ([EvCancel c],
      Inr (Some (?t1\<lparr> isSocketReady := False, cancelRequested := True, timedOut := True, runDeadline := 0,
         polling_status := PGRES_POLLING_READING \<rparr>)))"
    using c assms by (cases "PQcancel an2")
      (simp add: ManageCronTask_def manage_state_def manage_running_def manage_timeout_def read_answer_def machine_simps
        pg_timestamps.exceeds)
  ultimately show ?thesis by (intro exI conjI) (assumption | simp)+
qed

theorem zero_timeout_cancels_witness:
  "\<exists>t1 t2. ManageCronTask pg_time_doc (example_globals\<lparr> StatementTimeoutMs := 0 \<rparr>) good_answers (Some example_job) 1000
        (flying_task CRON_TASK_SENDING\<lparr> isSocketReady := True \<rparr>) = ([EvSendQuery 5 ''SELECT 1''], Inr (Some t1))
     \<and> ManageCronTask pg_time_doc (example_globals\<lparr> StatementTimeoutMs := 0 \<rparr>) good_answers (Some example_job) 2000
        (t1\<lparr> isSocketReady := False \<rparr>) = ([EvCancel 5], Inr (Some t2))"
proof -
  let ?t = "flying_task CRON_TASK_SENDING\<lparr> isSocketReady := True \<rparr>"
  have "task_ok ?t" by (simp add: flying_task_def InitCronTask_def task_ok_def in_flight_def cdefs)
  from zero_timeout_cancels [OF doc.pg_timestamps_axioms this, of "example_globals\<lparr> StatementTimeoutMs := 0 \<rparr>" 1000 2000
      good_answers good_answers example_job]
  obtain c t1 t2 where m: "ManageCronTask pg_time_doc (example_globals\<lparr> StatementTimeoutMs := 0 \<rparr>) good_answers
        (Some example_job) 1000 ?t = ([EvSendQuery c ''SELECT 1''], Inr (Some t1))"
    and "ManageCronTask pg_time_doc (example_globals\<lparr> StatementTimeoutMs := 0 \<rparr>) good_answers (Some example_job) 2000
        (t1\<lparr> isSocketReady := False \<rparr>) = ([EvCancel c], Inr (Some t2))"
    by (auto simp: flying_simps good_answers_def example_job_def)
  moreover have "fst (ManageCronTask pg_time_doc (example_globals\<lparr> StatementTimeoutMs := 0 \<rparr>) good_answers
        (Some example_job) 1000 ?t) = [EvSendQuery 5 ''SELECT 1'']"
    by (simp add: ManageCronTask_def manage_state_def manage_sending_def flying_simps good_answers_def machine_simps
        doc.exceeds example_job_def)
  ultimately show ?thesis by auto
qed

section \<open>Tasks without a job\<close>

text \<open>
  C19: a task whose job is gone. Once a reload has made it inactive, one step of ManageCronTask
  (src/nedo_cron.c) removes its entry from whatever state it is in, two if it has just finished; its
  open run is finished as failed (as timeout if a timeout was marked) and its connection is closed,
  so nothing is left behind, unless the server raises an error.
\<close>

theorem orphan_removed:
  assumes "task_ok t" and "\<not> isActive t" and "an_update an = updated n" and "n = 0 \<or> n = 1"
  shows "(state t \<noteq> CRON_TASK_DONE \<longrightarrow> (\<exists>es. ManageCronTask pt g an None now t = (es, Inr None)
        \<and> (runId t \<noteq> 0 \<longrightarrow> EvFinishRun (runId t) (if timedOut t then ''timeout'' else ''failed'')
              ''job metadata not found'' (an_now an) \<in> set es)
        \<and> (case conn t of None \<Rightarrow> True | Some c \<Rightarrow> EvFinishConn c \<in> set es)))
    \<and> (state t = CRON_TASK_DONE \<longrightarrow> (\<exists>t1. ManageCronTask pt g an None now t = ([], Inr (Some t1))
        \<and> ManageCronTask pt g an None now2 t1 = ([], Inr None)))"
proof -
  have m: "format_error em (Some ''job metadata not found'') [] = Some ''job metadata not found''" for em
    by (simp add: format_error_def vsnprintf_plain)
  show ?thesis
    using assms
    by (auto simp: ManageCronTask_def manage_state_def manage_error_def manage_done_def ResetCronTaskAfterRun_def m
        machine_simps updated_def split: option.split)
qed

theorem orphan_removed_witness:
  "\<exists>es. ManageCronTask pg_time_doc example_globals good_answers None 1000
        (flying_task CRON_TASK_RUNNING\<lparr> isActive := False \<rparr>) = (es, Inr None)
     \<and> EvFinishRun 42 ''failed'' ''job metadata not found'' 100 \<in> set es \<and> EvFinishConn 5 \<in> set es"
proof -
  have "task_ok (flying_task CRON_TASK_RUNNING\<lparr> isActive := False \<rparr>)"
    by (simp add: flying_task_def InitCronTask_def task_ok_def in_flight_def cdefs)
  from orphan_removed [OF this, of good_answers 1 pg_time_doc example_globals 1000] show ?thesis
    by (simp add: flying_simps good_answers_def)
qed

section \<open>A run from queue to history\<close>

text \<open>Steps on one task, each told its answers and the time; the socket of a task that waits is ready.\<close>

fun manage_rounds ::
  "pg_time \<Rightarrow> ('jh, 'th) globals \<Rightarrow> CronJob \<Rightarrow> (answers \<times> int) list \<Rightarrow> CronTask \<Rightarrow> CronTask option step" where
  "manage_rounds pt g j [] t = returnIO (Some t)"
| "manage_rounds pt g j ((an, now) # rounds) t =
     bindIO (ManageCronTask pt g an (Some j) now (t\<lparr> isSocketReady := TaskNeedsSocketWait t \<rparr>)) (\<lambda>r.
       case r of None \<Rightarrow> returnIO None | Some t' \<Rightarrow> manage_rounds pt g j rounds t')"

text \<open>Nothing goes wrong: the results are not errors and not the start of a COPY.\<close>

definition harmless :: "pg_result \<Rightarrow> bool" where
  "harmless r = (PQresultStatus r \<notin> {PGRES_BAD_RESPONSE, PGRES_FATAL_ERROR, PGRES_NONFATAL_ERROR, PGRES_COPY_BOTH,
     PGRES_COPY_IN, PGRES_COPY_OUT})"

definition all_well :: "int \<Rightarrow> nat \<Rightarrow> answers \<Rightarrow> bool" where
  "all_well rid c an = (an_insert an = inserted rid \<and> an_update an = updated 1 \<and> PQconnectStartParams an = Some c
     \<and> PQsetnonblocking an = 0 \<and> an_status an = CONNECTION_OK \<and> PQconnectPoll an = PGRES_POLLING_OK
     \<and> PQbackendPID an \<noteq> 0 \<and> PQsendQuery an = 1 \<and> PQconsumeInput an = 1 \<and> PQisBusy an \<noteq> 1
     \<and> list_all harmless (an_results an))"

lemma read_results_harmless: "list_all harmless rs \<Longrightarrow> read_results em rs t = ([], Inr t)"
  by (induction rs) (auto simp: io_simps harmless_def)

lemma round_wait:
  "state t = CRON_TASK_WAITING \<Longrightarrow> isActive t \<Longrightarrow> 0 < pendingRunCount t \<Longrightarrow> pendingRunCount t \<le> INT_MAX \<Longrightarrow>
     manage_rounds pt g j ((an, now) # rounds) t =
     manage_rounds pt g j rounds (t\<lparr> isSocketReady := False, pendingRunCount := pendingRunCount t - 1, state := CRON_TASK_START \<rparr>)"
  by (simp add: ManageCronTask_def manage_state_def manage_waiting_def io_simps TaskNeedsSocketWait_def cdefs)

lemma round_start:
  "state t = CRON_TASK_START \<Longrightarrow> all_well rid c an \<Longrightarrow> manage_rounds pt g j ((an, now) # rounds) t =
     bindIO ([EvStartTransaction, EvInsertRun (job_jobId j) (database j) (userName j) (an_now an), EvEndTransaction,
        EvConnectStart c (connection_params an (StatementTimeoutMs g) j)], Inr ()) (\<lambda>_.
     manage_rounds pt g j rounds (t\<lparr> isSocketReady := False, runId := rid, conn := Some c,
        startDeadline := ts_plus_ms pt now (TaskTimeout g), polling_status := PGRES_POLLING_WRITING,
        state := CRON_TASK_CONNECTING \<rparr>))"
  by (simp add: ManageCronTask_def manage_state_def manage_start_def open_connection_def machine_simps
      TaskNeedsSocketWait_def all_well_def inserted_def)

lemma round_connect:
  "state t = CRON_TASK_CONNECTING \<Longrightarrow> isActive t \<Longrightarrow> conn t = Some c \<Longrightarrow> all_well rid c an \<Longrightarrow>
   \<not> ts_exceeds pt (startDeadline t) now 0 \<Longrightarrow> manage_rounds pt g j ((an, now) # rounds) t =
     bindIO ([EvStartTransaction, EvSetRunning (runId t) (PQbackendPID an), EvEndTransaction], Inr ()) (\<lambda>_.
     manage_rounds pt g j rounds (t\<lparr> isSocketReady := True, polling_status := PGRES_POLLING_WRITING, state := CRON_TASK_SENDING \<rparr>))"
  by (simp add: ManageCronTask_def manage_state_def manage_connecting_def machine_simps
      TaskNeedsSocketWait_def all_well_def updated_def)

lemma round_send:
  "state t = CRON_TASK_SENDING \<Longrightarrow> isActive t \<Longrightarrow> conn t = Some c \<Longrightarrow> all_well rid c an \<Longrightarrow>
   \<not> ts_exceeds pt (startDeadline t) now 0 \<Longrightarrow> manage_rounds pt g j ((an, now) # rounds) t =
     bindIO ([EvSendQuery c (command j)], Inr ()) (\<lambda>_.
     manage_rounds pt g j rounds (t\<lparr> isSocketReady := True, polling_status := PGRES_POLLING_READING, state := CRON_TASK_RUNNING,
        startDeadline := 0, runDeadline := ts_plus_ms pt now (StatementTimeoutMs g), cancelRequested := False, timedOut := False \<rparr>))"
  by (simp add: ManageCronTask_def manage_state_def manage_sending_def machine_simps TaskNeedsSocketWait_def all_well_def)

lemma round_run:
  "state t = CRON_TASK_RUNNING \<Longrightarrow> isActive t \<Longrightarrow> conn t = Some c \<Longrightarrow> all_well rid c an \<Longrightarrow>
   \<not> ts_exceeds pt (runDeadline t) now 0 \<Longrightarrow> manage_rounds pt g j ((an, now) # rounds) t =
     bindIO ([EvFinishConn c, EvStartTransaction, EvFinishRun (runId t) ''succeeded'' ''OK'' (an_now an), EvEndTransaction], Inr ())
     (\<lambda>_. manage_rounds pt g j rounds (t\<lparr> conn := None, polling_status := PGRES_POLLING_FAILED, isSocketReady := False,
        state := CRON_TASK_DONE \<rparr>))"
  by (simp add: ManageCronTask_def manage_state_def manage_running_def manage_timeout_def read_answer_def close_run_def
      read_results_harmless machine_simps TaskNeedsSocketWait_def all_well_def updated_def)

lemma round_done:
  "state t = CRON_TASK_DONE \<Longrightarrow> pendingRunCount t \<le> maxPendingTasks g \<Longrightarrow> manage_rounds pt g j ((an, now) # rounds) t =
     manage_rounds pt g j rounds (ResetCronTaskAfterRun t)"
  by (simp add: ManageCronTask_def manage_state_def manage_done_def io_simps TaskNeedsSocketWait_def Let_def
      ResetCronTaskAfterRun_def)

text \<open>
  C7: a successful run. A waiting, active task with a queued run, whose connection and query succeed
  within their deadlines, is taken by six steps of ManageCronTask (src/nedo_cron.c) back to waiting
  with one queued run less. On the way it does exactly this, in this order: insert a history row for
  the job, connect as the job's user to its database, mark the row running with the server process,
  send the job's command, close the connection, and finish the row as succeeded.
\<close>

theorem run_succeeds:
  assumes "pg_timestamps pt" and "state t = CRON_TASK_WAITING" and "isActive t" and "0 < pendingRunCount t"
    and "pendingRunCount t \<le> maxPendingTasks g" and "maxPendingTasks g \<le> INT_MAX"
    and "all_well rid c an"
    and "n3 < n2 + TaskTimeout g * 1000" and "n4 < n2 + TaskTimeout g * 1000" and "n5 < n4 + StatementTimeoutMs g * 1000"
  shows "\<exists>t'. manage_rounds pt g j [(an, n1), (an, n2), (an, n3), (an, n4), (an, n5), (an, n6)] t =
     ([EvStartTransaction, EvInsertRun (job_jobId j) (database j) (userName j) (an_now an), EvEndTransaction,
       EvConnectStart c (connection_params an (StatementTimeoutMs g) j),
       EvStartTransaction, EvSetRunning rid (PQbackendPID an), EvEndTransaction,
       EvSendQuery c (command j), EvFinishConn c,
       EvStartTransaction, EvFinishRun rid ''succeeded'' ''OK'' (an_now an), EvEndTransaction], Inr (Some t'))
     \<and> state t' = CRON_TASK_WAITING \<and> pendingRunCount t' = pendingRunCount t - 1 \<and> isActive t'
     \<and> conn t' = None \<and> runId t' = 0 \<and> nextRunTime t' = nextRunTime t"
  using assms
  by (simp add: round_wait round_start [of _ rid c] round_connect [of _ c rid] round_send [of _ c rid]
      round_run [of _ c rid] round_done pg_timestamps.exceeds pg_timestamps.plus_ms ResetCronTaskAfterRun_def returnIO_def
      del: manage_rounds.simps(2))

theorem run_succeeds_witness:
  "\<exists>t'. manage_rounds pg_time_doc example_globals example_job
        [(good_answers, 1), (good_answers, 2), (good_answers, 3), (good_answers, 4), (good_answers, 5), (good_answers, 6)]
        (InitCronTask raw_task 7\<lparr> pendingRunCount := 2 \<rparr>)
     = ([EvStartTransaction, EvInsertRun 7 ''postgres'' ''alice'' 100, EvEndTransaction,
       EvConnectStart 5 (connection_params good_answers 10000 example_job),
       EvStartTransaction, EvSetRunning 42 4711, EvEndTransaction,
       EvSendQuery 5 ''SELECT 1'', EvFinishConn 5,
       EvStartTransaction, EvFinishRun 42 ''succeeded'' ''OK'' 100, EvEndTransaction], Inr (Some t'))
     \<and> pendingRunCount t' = 1"
proof -
  have w: "all_well 42 5 good_answers" by (simp add: all_well_def good_answers_def harmless_def)
  have f: "TaskTimeout example_globals = 10000" "maxPendingTasks example_globals = 20"
    "StatementTimeoutMs example_globals = 10000" "job_jobId example_job = 7" "database example_job = ''postgres''"
    "userName example_job = ''alice''" "command example_job = ''SELECT 1''" "an_now good_answers = 100"
    "PQbackendPID good_answers = 4711"
    by (simp_all add: example_globals_def example_job_def good_answers_def)
  from run_succeeds [OF doc.pg_timestamps_axioms _ _ _ _ _ w, of "InitCronTask raw_task 7\<lparr> pendingRunCount := 2 \<rparr>"
      example_globals 3 2 4 5 example_job 1 6] show ?thesis
    by (auto simp: InitCronTask_def f cdefs simp del: manage_rounds.simps)
qed

section \<open>A failing query\<close>

definition error_result :: "pg_result \<Rightarrow> bool" where
  "error_result r = (PQresultStatus r \<in> {PGRES_BAD_RESPONSE, PGRES_FATAL_ERROR, PGRES_NONFATAL_ERROR})"

lemma read_results_error:
  assumes "list_all harmless pre" and "error_result r" and "CHR ''%'' \<notin> set (PQresultErrorMessage r)"
    and "PQresultErrorMessage r \<noteq> []"
  shows "read_results em (pre @ r # rest) t = ([], Inr (t\<lparr> errorMessage := Some (take 1023 (PQresultErrorMessage r)),
     timedOut := timedOut t \<or> sqlstate r = Some ''57014'', polling_status := PGRES_POLLING_FAILED, state := CRON_TASK_ERROR \<rparr>))"
  using assms(1)
proof (induction pre)
  case Nil
  have "t\<lparr> errorMessage := e, polling_status := p, state := s \<rparr>
      = t\<lparr> errorMessage := e, timedOut := timedOut t, polling_status := p, state := s \<rparr>" for e p s by simp
  then show ?case
    using assms(2-4) by (auto simp: error_result_def SetTaskError_plain io_simps)
qed (auto simp: harmless_def)

text \<open>
  C20: a failing query. When the results that ManageCronTask (src/nedo_cron.c) reads for a running
  task contain an error, the first one decides: its text, cut to 1023 bytes, is recorded as the run's
  message by the next step, and the status is timeout if the worker had cancelled the query or the
  error has the SQLSTATE 57014 of a cancelled statement, whoever cancelled it, and failed otherwise;
  later results are not looked at, and the connection is closed at once. This holds for texts without
  percent signs.
\<close>

theorem query_error_recorded:
  assumes "pg_timestamps pt" and "task_ok t" and "state t = CRON_TASK_RUNNING" and "isActive t" and "isSocketReady t"
    and "now < runDeadline t \<or> cancelRequested t" and "an_status an \<noteq> CONNECTION_BAD"
    and "PQconsumeInput an = 1" and "PQisBusy an \<noteq> 1" and "an_results an = pre @ r # rest"
    and "list_all harmless pre" and "error_result r" and "CHR ''%'' \<notin> set (PQresultErrorMessage r)"
    and "PQresultErrorMessage r \<noteq> []" and "an_update an2 = updated 1"
  shows "\<exists>c t1 t2. conn t = Some c \<and> ManageCronTask pt g an (Some j) now t = ([EvFinishConn c], Inr (Some t1))
     \<and> state t1 = CRON_TASK_ERROR
     \<and> ManageCronTask pt g an2 (Some j) now2 t1 = ([EvStartTransaction, EvFinishRun (runId t)
          (if timedOut t \<or> sqlstate r = Some ''57014'' then ''timeout'' else ''failed'')
          (take 1023 (PQresultErrorMessage r)) (an_now an2), EvEndTransaction], Inr (Some t2))
     \<and> state t2 = CRON_TASK_DONE"
proof -
  obtain c where c: "conn t = Some c" "runId t \<noteq> 0" using assms(2,3) by (auto simp: task_ok_def in_flight_def)
  let ?t1 = "t\<lparr> errorMessage := Some (take 1023 (PQresultErrorMessage r)),
     timedOut := timedOut t \<or> sqlstate r = Some ''57014'', conn := None, polling_status := PGRES_POLLING_FAILED,
     isSocketReady := False, state := CRON_TASK_ERROR \<rparr>"
  have tm: "manage_timeout pt an now t = ([], Inr (Inr t))"
    using assms(1,6) by (auto simp: manage_timeout_def pg_timestamps.exceeds io_simps)
  have "ManageCronTask pt g an (Some j) now t = ([EvFinishConn c], Inr (Some ?t1))"
    using assms c tm by (simp add: ManageCronTask_def manage_state_def manage_running_def read_answer_def close_run_def
        read_results_error PQstatus_def PQfinish_def io_simps Let_def)
  moreover have "ManageCronTask pt g an2 (Some j) now2 ?t1 = ([EvStartTransaction, EvFinishRun (runId t)
          (if timedOut t \<or> sqlstate r = Some ''57014'' then ''timeout'' else ''failed'')
          (take 1023 (PQresultErrorMessage r)) (an_now an2), EvEndTransaction],
       Inr (Some (?t1\<lparr> runId := 0, state := CRON_TASK_DONE, startDeadline := 0, runDeadline := 0,
          cancelRequested := False \<rparr>)))"
    using assms(4,15) c by (simp add: ManageCronTask_def manage_state_def manage_error_def machine_simps updated_def)
  ultimately show ?thesis using c by (intro exI conjI) (assumption | simp)+
qed

definition zero_division :: pg_result where
  "zero_division = \<lparr> PQresultStatus = PGRES_FATAL_ERROR, sqlstate = Some ''22012'',
     PQresultErrorMessage = ''ERROR:  division by zero'' \<rparr>"

theorem query_error_recorded_witness:
  "\<exists>t1 t2. ManageCronTask pg_time_doc example_globals (good_answers\<lparr> an_results := [zero_division] \<rparr>) (Some example_job) 1000
        (flying_task CRON_TASK_RUNNING\<lparr> isSocketReady := True \<rparr>) = ([EvFinishConn 5], Inr (Some t1))
     \<and> ManageCronTask pg_time_doc example_globals good_answers (Some example_job) 2000 t1 =
        ([EvStartTransaction, EvFinishRun 42 ''failed'' ''ERROR:  division by zero'' 100, EvEndTransaction], Inr (Some t2))"
proof -
  have ok: "task_ok (flying_task CRON_TASK_RUNNING\<lparr> isSocketReady := True \<rparr>)"
    by (simp add: flying_task_def InitCronTask_def task_ok_def in_flight_def cdefs)
  show ?thesis
    using query_error_recorded [OF doc.pg_timestamps_axioms ok, of 1000 "good_answers\<lparr> an_results := [zero_division] \<rparr>" "[]"
        zero_division "[]" good_answers example_globals example_job 2000]
    by (fastforce simp: flying_simps good_answers_def zero_division_def error_result_def)
qed

end
