(* ===== verification/Task_Graph.thy ===== *)
theory Task_Graph
  imports Task_Props
begin

text \<open>
  The states of a task as a graph: the steps that \<open>ManageCronTask\<close> of \<open>src/nedo_cron.c\<close> can take, as
  an inductive relation, and the proof that it takes no others.
\<close>

section \<open>The graph\<close>

text \<open>
  Connect, send, running, then done or error, as the comment on \<open>ManageCronTask\<close> has it. Every state
  but start, error and done may be kept; receiving is never used.
\<close>

inductive cron_transition :: "CronTaskState \<Rightarrow> CronTaskState \<Rightarrow> bool" where
  keep: "s \<in> {CRON_TASK_WAITING, CRON_TASK_CONNECTING, CRON_TASK_SENDING, CRON_TASK_RUNNING} \<Longrightarrow> cron_transition s s"
| begin_run: "cron_transition CRON_TASK_WAITING CRON_TASK_START"
| connect: "cron_transition CRON_TASK_START CRON_TASK_CONNECTING"
| connected: "cron_transition CRON_TASK_CONNECTING CRON_TASK_SENDING"
| sent: "cron_transition CRON_TASK_SENDING CRON_TASK_RUNNING"
| finished: "cron_transition CRON_TASK_RUNNING CRON_TASK_DONE"
| fail: "s \<in> {CRON_TASK_START, CRON_TASK_CONNECTING, CRON_TASK_SENDING, CRON_TASK_RUNNING} \<Longrightarrow>
    cron_transition s CRON_TASK_ERROR"
| recorded: "cron_transition CRON_TASK_ERROR CRON_TASK_DONE"
| again: "cron_transition CRON_TASK_DONE CRON_TASK_WAITING"

code_pred cron_transition .

inductive_simps cron_transition_simps [simp]:
  "cron_transition CRON_TASK_WAITING s" "cron_transition CRON_TASK_START s" "cron_transition CRON_TASK_CONNECTING s"
  "cron_transition CRON_TASK_SENDING s" "cron_transition CRON_TASK_RUNNING s" "cron_transition CRON_TASK_ERROR s"
  "cron_transition CRON_TASK_DONE s" "cron_transition CRON_TASK_RECEIVING s"

section \<open>The handlers\<close>

lemma start_transition:
  "manage_start pt g an (Some j) now t = (es, Inr (Some t')) \<Longrightarrow> cron_transition CRON_TASK_START (state t')"
  by (auto simp: manage_start_def failed_from_def split: option.splits elim!: bindIO_InrE dest!: open_connection_cases)

lemma connecting_transition:
  "manage_connecting pt an now t = (es, Inr (Some t')) \<Longrightarrow> state t = CRON_TASK_CONNECTING \<Longrightarrow>
     cron_transition CRON_TASK_CONNECTING (state t')"
  by (auto simp: manage_connecting_def machine_simps split: if_splits option.splits sum.splits elim!: bindIO_InrE)

lemma sending_transition:
  "manage_sending pt g an (Some j) now t = (es, Inr (Some t')) \<Longrightarrow> state t = CRON_TASK_SENDING \<Longrightarrow>
     cron_transition CRON_TASK_SENDING (state t')"
  by (auto simp: manage_sending_def machine_simps split: if_splits option.splits sum.splits elim!: bindIO_InrE)

lemma running_transition:
  assumes "manage_running pt an now t = (es, Inr (Some t'))" and "state t = CRON_TASK_RUNNING" and "conn t = Some c"
  shows "cron_transition CRON_TASK_RUNNING (state t')"
proof (cases "\<not> isActive t \<or> PQstatus an (conn t) = CONNECTION_BAD")
  case True
  with assms(1) show ?thesis
    by (auto simp: manage_running_def failed_from_def split: if_splits dest!: fail_task_from)
next
  case False
  with assms(1) obtain es1 x es2 where tm: "manage_timeout pt an now t = (es1, Inr x)"
    and rest: "(case x of Inl brk \<Rightarrow> returnIO brk | Inr task1 \<Rightarrow> read_answer an (conn t) task1) = (es2, Inr (Some t'))"
    by (auto simp: manage_running_def elim: bindIO_InrE)
  show ?thesis
  proof (cases x)
    case (Inl brk)
    with rest manage_timeout_cases [OF tm] show ?thesis by (auto simp: io_simps failed_from_def)
  next
    case (Inr t1)
    then have "state t1 = CRON_TASK_RUNNING" using manage_timeout_cases [OF tm] assms(2) by auto
    with rest Inr assms(3) read_answer_cases [of an c t1 es2 "Some t'"] show ?thesis by (auto simp: failed_from_def)
  qed
qed

lemma manage_transition:
  assumes "task_ok t" and "ManageCronTask pt g an (Some j) now t = (es, Inr (Some t'))"
  shows "cron_transition (state t) (state t')"
proof -
  have m: "manage_state pt g an (Some j) now t = (es, Inr (Some t'))" using assms(2) by (simp add: ManageCronTask_def)
  show ?thesis
  proof (cases "state t")
    case CRON_TASK_WAITING
    with m show ?thesis by (auto simp: manage_state_def manage_waiting_def io_simps split: if_splits)
  next
    case CRON_TASK_START
    with m start_transition show ?thesis by (fastforce simp: manage_state_def)
  next
    case CRON_TASK_CONNECTING
    with m connecting_transition show ?thesis by (fastforce simp: manage_state_def)
  next
    case CRON_TASK_SENDING
    with m sending_transition show ?thesis by (fastforce simp: manage_state_def)
  next
    case CRON_TASK_RUNNING
    then obtain c where "conn t = Some c" using assms(1) by (auto simp: task_ok_def in_flight_def)
    with CRON_TASK_RUNNING m running_transition show ?thesis by (fastforce simp: manage_state_def)
  next
    case CRON_TASK_ERROR
    with m show ?thesis
      by (auto simp: manage_state_def manage_error_def Let_def io_simps elim!: bindIO_InrE split: if_splits)
  next
    case CRON_TASK_DONE
    with m show ?thesis
      by (auto simp: manage_state_def manage_done_def ResetCronTaskAfterRun_def Let_def io_simps split: if_splits)
  qed (use assms(1) in \<open>simp add: task_ok_def\<close>)
qed

text \<open>
  C10: the state machine of ManageCronTask (src/nedo_cron.c). For a well-formed task whose job is
  loaded, whatever libpq and the server answer, a step that returns and keeps the entry moves along
  the graph: waiting to start, start to connecting, connecting to sending, sending to running,
  running to done, done to waiting, from the four states of a run to error, and from error to done.
  Only waiting, connecting, sending and running can last, and the state receiving is never entered.
\<close>

theorem state_graph:
  assumes "task_ok t" and "ManageCronTask pt g an (Some j) now t = (es, Inr (Some t'))"
  shows "cron_transition (state t) (state t')"
  using assms by (rule manage_transition)

theorem state_graph_witness:
  "\<exists>es t'. ManageCronTask pg_time_doc example_globals good_answers (Some example_job) 0 start_task = (es, Inr (Some t'))
     \<and> cron_transition CRON_TASK_START (state t')"
proof -
  obtain es t' where m: "ManageCronTask pg_time_doc example_globals good_answers (Some example_job) 0 start_task
      = (es, Inr (Some t'))"
    by (simp add: ManageCronTask_def manage_state_def manage_start_def open_connection_def start_task_def InitCronTask_def
        good_answers_def inserted_def machine_simps raw_task_def)
  have "state start_task = CRON_TASK_START" by (simp add: start_task_def)
  with state_graph [OF start_task_ok m] m show ?thesis by auto
qed

end
