(* ===== verification/Worker.thy ===== *)
theory Worker
  imports Task_Graph
begin

text \<open>
  The main loop of \<open>src/nedo_cron.c\<close>: the relcache callback, the signal handlers, \<open>ManageCronTasks\<close> and
  \<open>PgOctopusWorkerMain\<close>, and loops over the tasks whose body may fail.
\<close>

section \<open>The code\<close>

definition CronJobRelcacheCallback :: "int \<Rightarrow> int \<Rightarrow> ('jh, 'th) globals \<Rightarrow> ('jh, 'th) globals" where
  "CronJobRelcacheCallback jobsRelid relid g =
     (if relid = 0 \<or> relid = jobsRelid then g\<lparr> CronJobCacheValid := False \<rparr> else g)"

definition RegisterCronJobRelcacheCallbackIfNeeded ::
  "pg_catalog \<Rightarrow> ('jh, 'th) globals \<Rightarrow> ('jh, 'th) globals step" where
  "RegisterCronJobRelcacheCallbackIfNeeded cat g =
     (if CronJobRelcacheCallbackRegistered g then returnIO g
      else
        bindIO (emitIO EvStartTransaction) (\<lambda>_.
          let jobsRelid = (if CronLoaded cat then
                let schemaId = cat_namespace cat in if schemaId \<noteq> 0 then cat_relid cat schemaId else 0
              else 0)
          in bindIO (emitIO EvEndTransaction) (\<lambda>_.
            if jobsRelid = 0 then returnIO g
            else returnIO (g\<lparr> CronJobRelcacheOid := jobsRelid, CronJobRelcacheCallbackRegistered := True \<rparr>))))"

definition sigtermHandler :: "('jh, 'th) globals \<Rightarrow> ('jh, 'th) globals" where
  "sigtermHandler g = g\<lparr> sigtermFlag := True \<rparr>"

definition sighupHandler :: "('jh, 'th) globals \<Rightarrow> ('jh, 'th) globals" where
  "sighupHandler g = g\<lparr> sighupFlag := True \<rparr>"

definition ManageCronTasks ::
  "pg_time \<Rightarrow> ('jh, CronJob) dynahash_ops \<Rightarrow> ('th, CronTask) dynahash_ops \<Rightarrow> (int \<Rightarrow> answers) \<Rightarrow> int list \<Rightarrow> int \<Rightarrow>
     ('jh, 'th) globals \<Rightarrow> ('jh, 'th) globals step" where
  "ManageCronTasks pt HJ HT an tasks currentTime g =
     bindIO (foreach_task HT
         (\<lambda>task. ManageCronTask pt g (an (jobId task)) (getCronJob HJ (CronJobHashTable g) (jobId task)) currentTime task)
         tasks (CronTaskHashTable g))
       (\<lambda>tbl. returnIO (g\<lparr> CronTaskHashTable := tbl \<rparr>))"

text \<open>
  What happens to one turn of the loop from outside: signals that arrived before it, invalidation
  messages (relation ids), the catalog, the new value of the setting if the configuration is read
  again, the two clock readings, and the answers of the wait and, by job, of libpq and SPI.
\<close>

datatype signal = SIGTERM | SIGHUP

record inputs =
  in_signals :: "signal list"
  in_invalidations :: "int list"
  in_catalog :: pg_catalog
  in_statement_timeout :: int
  in_time :: int
  in_wait :: wait_answers
  in_time_after_wait :: int
  in_answers :: "int \<Rightarrow> answers"

fun receive_signal :: "signal \<Rightarrow> ('jh, 'th) globals \<Rightarrow> ('jh, 'th) globals" where
  "receive_signal SIGTERM g = sigtermHandler g"
| "receive_signal SIGHUP g = sighupHandler g"

text \<open>PostgreSQL calls a registered relcache callback for every message.\<close>

definition AcceptInvalidationMessages :: "int list \<Rightarrow> ('jh, 'th) globals \<Rightarrow> ('jh, 'th) globals" where
  "AcceptInvalidationMessages relids g =
     (if CronJobRelcacheCallbackRegistered g then fold (CronJobRelcacheCallback (CronJobRelcacheOid g)) relids g else g)"

definition worker_turn ::
  "pg_time \<Rightarrow> strcasecmp \<Rightarrow> ('jh, CronJob) dynahash_ops \<Rightarrow> ('th, CronTask) dynahash_ops \<Rightarrow> inputs \<Rightarrow>
     ('jh, 'th) globals \<Rightarrow> ('jh, 'th) globals step" where
  "worker_turn pt psc HJ HT inp g =
     (let currentTime = in_time inp;
          g1 = AcceptInvalidationMessages (in_invalidations inp) g
      in bindIO (RegisterCronJobRelcacheCallbackIfNeeded (in_catalog inp) g1) (\<lambda>g2.
         let g3 = (if sighupFlag g2 then
               g2\<lparr> sighupFlag := False, StatementTimeoutMs := in_statement_timeout inp, CronJobCacheValid := False \<rparr>
             else g2)
         in bindIO (if \<not> CronJobCacheValid g3 \<or> lastJobReloadTime g3 = 0
                  \<or> ts_exceeds pt (lastJobReloadTime g3) currentTime 60000
                then bindIO (ReloadCronJobs psc HJ HT (in_catalog inp) g3)
                       (\<lambda>g. returnIO (g\<lparr> lastJobReloadTime := currentTime \<rparr>))
                else returnIO g3) (\<lambda>g4.
           let cronTasks = LoadTasksList HT g4
           in bindIO (StartPendingTasks pt HJ HT cronTasks currentTime g4) (\<lambda>g5.
              bindIO (WaitForEvent pt HJ HT (in_wait inp) cronTasks g5) (\<lambda>g6.
              ManageCronTasks pt HJ HT (in_answers inp) cronTasks (in_time_after_wait inp) g6)))))"

text \<open>The loop over the turns that happen; it ends the process when the flag is seen.\<close>

fun worker_loop ::
  "pg_time \<Rightarrow> strcasecmp \<Rightarrow> ('jh, CronJob) dynahash_ops \<Rightarrow> ('th, CronTask) dynahash_ops \<Rightarrow> inputs list \<Rightarrow>
     ('jh, 'th) globals \<Rightarrow> ('jh, 'th) globals step" where
  "worker_loop pt psc HJ HT [] g = returnIO g"
| "worker_loop pt psc HJ HT (inp # inps) g =
     (let g0 = fold receive_signal (in_signals inp) g
      in if sigtermFlag g0 then raiseIO (ProcExit 0)
         else bindIO (worker_turn pt psc HJ HT inp g0) (worker_loop pt psc HJ HT inps))"

definition initial_globals ::
  "('jh, CronJob) dynahash_ops \<Rightarrow> ('th, CronTask) dynahash_ops \<Rightarrow> int \<Rightarrow> ('jh, 'th) globals" where
  "initial_globals HJ HT timeout_ms = \<lparr> CronJobHashTable = CreateCronJobHashTable HJ,
     CronTaskHashTable = CreateCronTaskHashTable HT, CronJobCacheValid = False, CachedCronJobRealtionId = 0,
     CronJobRelcacheCallbackRegistered = False, CronJobRelcacheOid = 0, sighupFlag = False, sigtermFlag = False,
     lastMinute = 0, lastJobReloadTime = 0, TaskTimeout = 10000, maxPendingTasks = 20,
     StatementTimeoutMs = timeout_ms \<rparr>"

definition PgOctopusWorkerMain ::
  "pg_time \<Rightarrow> strcasecmp \<Rightarrow> ('jh, CronJob) dynahash_ops \<Rightarrow> ('th, CronTask) dynahash_ops \<Rightarrow> int \<Rightarrow> inputs list \<Rightarrow>
     ('jh, 'th) globals step" where
  "PgOctopusWorkerMain pt psc HJ HT timeout_ms inps = worker_loop pt psc HJ HT inps (initial_globals HJ HT timeout_ms)"

section \<open>Loading the library\<close>

text \<open>What \<open>_PG_init\<close> registers with the server, with the values the code gives.\<close>

datatype guc_context = PGC_POSTMASTER | PGC_SIGHUP

datatype bgw_flag = BGWORKER_SHMEM_ACCESS | BGWORKER_BACKEND_DATABASE_CONNECTION

datatype bgw_start = BgWorkerStart_PostmasterStart | BgWorkerStart_ConsistentState | BgWorkerStart_RecoveryFinished

record BackgroundWorker =
  bgw_flags :: "bgw_flag set"
  bgw_start_time :: bgw_start
  bgw_restart_time :: int
  bgw_function_name :: string
  bgw_main_arg :: int
  bgw_notify_pid :: int
  bgw_library_name :: string
  bgw_name :: string
  bgw_type :: string

datatype registration =
  DefineCustomStringVariable string string string guc_context \<comment> \<open>name, description, default\<close>
| DefineCustomIntVariable string string int int int guc_context \<comment> \<open>name, description, default, least, greatest\<close>
| RegisterBackgroundWorker BackgroundWorker

definition PG_init :: "bool \<Rightarrow> registration list" where
  "PG_init process_shared_preload_libraries_in_progress =
     (if \<not> process_shared_preload_libraries_in_progress then []
      else
       [DefineCustomStringVariable ''nedo_cron.database_name'' ''Database containing nedo_cron metadata tables''
          ''postgres'' PGC_POSTMASTER,
        DefineCustomIntVariable ''nedo_cron.statement_timeout_ms'' ''Maximum SQL execution time for nedo_cron jobs''
          10000 0 INT_MAX PGC_SIGHUP,
        RegisterBackgroundWorker \<lparr> bgw_flags = {BGWORKER_SHMEM_ACCESS, BGWORKER_BACKEND_DATABASE_CONNECTION},
          bgw_start_time = BgWorkerStart_RecoveryFinished, bgw_restart_time = 5,
          bgw_function_name = ''PgOctopusWorkerMain'', bgw_main_arg = 0, bgw_notify_pid = 0,
          bgw_library_name = ''my_nedo_cron'', bgw_name = ''my_nedo_cron_sheduler'', bgw_type = ''my_nedo_cron'' \<rparr>])"

section \<open>Loops over the tasks that may fail\<close>

context task_table
begin

lemma foreach_task_Inr:
  assumes "distinct ks" and "set ks \<subseteq> dom (h_find HT tbl)" and "snd (foreach_task HT body ks tbl) = Inr tbl'"
  shows "(\<forall>k \<in> set ks. \<exists>t. h_find HT tbl k = Some t \<and> snd (body t) = Inr (h_find HT tbl' k))
     \<and> (\<forall>k. k \<notin> set ks \<longrightarrow> h_find HT tbl' k = h_find HT tbl k)"
  using assms
proof (induction ks arbitrary: tbl)
  case Nil
  then show ?case by (simp add: io_simps)
next
  case (Cons k ks)
  then obtain t where t: "h_find HT tbl k = Some t" by auto
  with Cons.prems(3) obtain r where b: "snd (body t) = Inr r"
    and rest: "snd (foreach_task HT body ks (case r of None \<Rightarrow> h_remove HT tbl k | Some t' \<Rightarrow> h_store HT tbl k t')) = Inr tbl'"
    by (auto simp: snd_bindIO_Inr)
  let ?tbl = "case r of None \<Rightarrow> h_remove HT tbl k | Some t' \<Rightarrow> h_store HT tbl k t'"
  have f: "h_find HT ?tbl = (h_find HT tbl)(k := r)" using t by (cases r) (simp_all add: remove store)
  have "distinct ks" "set ks \<subseteq> dom (h_find HT ?tbl)" and nk: "k \<notin> set ks" using Cons.prems by (auto simp: f)
  note ih = Cons.IH [OF this(1,2) rest]
  show ?case
    using ih t b nk by (auto simp: f split: if_splits)
qed

lemma foreach_task_Inl:
  assumes "distinct ks" and "set ks \<subseteq> dom (h_find HT tbl)" and "snd (foreach_task HT body ks tbl) = Inl e"
  shows "\<exists>k \<in> set ks. \<exists>t. h_find HT tbl k = Some t \<and> snd (body t) = Inl e"
  using assms
proof (induction ks arbitrary: tbl)
  case Nil
  then show ?case by (simp add: io_simps)
next
  case (Cons k ks)
  then obtain t where t: "h_find HT tbl k = Some t" by auto
  show ?case
  proof (cases "snd (body t)")
    case (Inl e')
    with Cons.prems(3) t show ?thesis by (auto simp: snd_bindIO_Inl)
  next
    case (Inr r)
    let ?tbl = "case r of None \<Rightarrow> h_remove HT tbl k | Some t' \<Rightarrow> h_store HT tbl k t'"
    have f: "h_find HT ?tbl = (h_find HT tbl)(k := r)" using t by (cases r) (simp_all add: remove store)
    have "distinct ks" "set ks \<subseteq> dom (h_find HT ?tbl)" and nk: "k \<notin> set ks" using Cons.prems by (auto simp: f)
    moreover have "snd (foreach_task HT body ks ?tbl) = Inl e" using Cons.prems(3) t Inr by (auto simp: snd_bindIO_Inl)
    ultimately obtain k' t' where "k' \<in> set ks" "h_find HT ?tbl k' = Some t'" "snd (body t') = Inl e"
      using Cons.IH by blast
    with nk f show ?thesis by (auto split: if_splits)
  qed
qed

text \<open>Effects balanced by each step are balanced by the loop; \<open>w\<close> is the weight of an entry.\<close>

lemma foreach_task_balance:
  assumes "distinct ks" and "set ks \<subseteq> dom (h_find HT tbl)" and "snd (foreach_task HT body ks tbl) = Inr tbl'"
    and "\<And>k t r. k \<in> set ks \<Longrightarrow> h_find HT tbl k = Some t \<Longrightarrow> snd (body t) = Inr r \<Longrightarrow>
       count_events P (fst (body t)) - count_events Q (fst (body t)) = w r - w (Some t)"
  shows "count_events P (fst (foreach_task HT body ks tbl)) - count_events Q (fst (foreach_task HT body ks tbl))
     = (\<Sum>k \<in> set ks. w (h_find HT tbl' k) - w (h_find HT tbl k))"
  using assms
proof (induction ks arbitrary: tbl)
  case Nil
  then show ?case by (simp add: io_simps)
next
  case (Cons k ks)
  then obtain t where t: "h_find HT tbl k = Some t" by auto
  with Cons.prems(3) obtain r where b: "snd (body t) = Inr r"
    and rest: "snd (foreach_task HT body ks (case r of None \<Rightarrow> h_remove HT tbl k | Some t' \<Rightarrow> h_store HT tbl k t')) = Inr tbl'"
    by (auto simp: snd_bindIO_Inr)
  let ?tbl = "case r of None \<Rightarrow> h_remove HT tbl k | Some t' \<Rightarrow> h_store HT tbl k t'"
  have f: "h_find HT ?tbl = (h_find HT tbl)(k := r)" using t by (cases r) (simp_all add: remove store)
  have d: "distinct ks" and sub: "set ks \<subseteq> dom (h_find HT ?tbl)" and nk: "k \<notin> set ks" using Cons.prems by (auto simp: f)
  let ?fs = "fst (foreach_task HT body ks ?tbl)"
  have "count_events P ?fs - count_events Q ?fs = (\<Sum>k \<in> set ks. w (h_find HT tbl' k) - w (h_find HT ?tbl k))"
  proof (rule Cons.IH [OF d sub rest])
    fix k' t' r' assume "k' \<in> set ks" "h_find HT ?tbl k' = Some t'" "snd (body t') = Inr r'"
    then show "count_events P (fst (body t')) - count_events Q (fst (body t')) = w r' - w (Some t')"
      using nk by (intro Cons.prems(4) [of k']) (auto simp: f split: if_splits)
  qed
  also have "\<dots> = (\<Sum>k \<in> set ks. w (h_find HT tbl' k) - w (h_find HT tbl k))"
    using nk by (intro sum.cong) (auto simp: f)
  finally have "count_events P ?fs - count_events Q ?fs = (\<Sum>k \<in> set ks. w (h_find HT tbl' k) - w (h_find HT tbl k))" .
  moreover have "h_find HT tbl' k = r" using foreach_task_Inr [OF d sub rest] nk by (simp add: f)
  moreover have "count_events P (fst (body t)) - count_events Q (fst (body t)) = w r - w (Some t)"
    using Cons.prems(4) [OF _ t b] by simp
  moreover have "fst (foreach_task HT body (k # ks) tbl) = fst (body t) @ ?fs"
    using t b by (cases "body t") (simp add: bindIO_def)
  ultimately show ?case using t nk by simp
qed

end

end
