(* ===== verification/Worker_Invariants.thy ===== *)
theory Worker_Invariants
  imports Worker
begin

text \<open>
  The invariant of every state that the main loop of \<open>src/nedo_cron.c\<close> reaches, the balance of its
  effects over all tasks, and the ways in which a turn can fail.
\<close>

section \<open>The invariant\<close>

text \<open>
  Every task is well formed and under its id, the tables agree, the jobs carry their parsed
  schedules, and no task has more queued runs than there were minutes, give or take one.
\<close>

definition worker_ok ::
  "strcasecmp \<Rightarrow> ('jh, CronJob) dynahash_ops \<Rightarrow> ('th, CronTask) dynahash_ops \<Rightarrow> ('jh, 'th) globals \<Rightarrow> bool" where
  "worker_ok psc HJ HT g =
     (tables_agree HJ HT g \<and> jobs_parsed psc HJ g
      \<and> (\<forall>jid t. task_of HT g jid = Some t \<longrightarrow> task_ok t \<and> pendingRunCount t \<le> 1 + lastMinute g div 60000000)
      \<and> 60000000 dvd lastMinute g \<and> 0 \<le> lastMinute g \<and> lastMinute g < 2147483648000000 \<and> 0 \<le> maxPendingTasks g)"

text \<open>
  Clock readings of the years 2000 to 2068, a kernel that reports only registered sockets, a server
  that gives no run the id 0, and statements that fail only by raising an error.
\<close>

definition inputs_ok :: "inputs \<Rightarrow> bool" where
  "inputs_ok inp = (0 \<le> in_time inp \<and> in_time inp < 2147483648000000 \<and> answers_ok (in_wait inp)
     \<and> (\<forall>jid. ids_nonzero (in_answers inp jid)
          \<and> (\<forall>f. an_insert (in_answers inp jid) = Inl f \<or> an_update (in_answers inp jid) = Inl f \<longrightarrow> (\<exists>msg. f = PgError msg))))"

text \<open>How a turn may fail to return: an error is raised, a server text is used as a format, or the
  kernel reports the death of the postmaster.\<close>

definition postmaster_dies :: "inputs \<Rightarrow> bool" where
  "postmaster_dies inp = (\<exists>ws ms. PostmasterDeath \<in> set (WaitEventSetWait (in_wait inp) ws ms))"

definition turn_fault :: "inputs \<Rightarrow> fault \<Rightarrow> bool" where
  "turn_fault inp f = (f = UndefinedFormat \<or> (\<exists>msg. f = PgError msg) \<or> f = ProcExit 1 \<and> postmaster_dies inp)"

text \<open>Runs in the history that are not finished, and open connections, over all tasks.\<close>

definition open_runs :: "('th, CronTask) dynahash_ops \<Rightarrow> ('jh, 'th) globals \<Rightarrow> int" where
  "open_runs HT g = (\<Sum>k \<in> dom (task_of HT g). run_open (task_of HT g k))"

definition open_conns :: "('th, CronTask) dynahash_ops \<Rightarrow> ('jh, 'th) globals \<Rightarrow> int" where
  "open_conns HT g = (\<Sum>k \<in> dom (task_of HT g). conn_open (task_of HT g k))"

definition balanced :: "event list \<Rightarrow> ('th, CronTask) dynahash_ops \<Rightarrow> ('jh, 'th) globals \<Rightarrow> ('jh, 'th) globals \<Rightarrow> bool" where
  "balanced es HT g g' =
     (count_events opens_run es - count_events finishes_run es = open_runs HT g' - open_runs HT g
      \<and> count_events opens_conn es - count_events closes_conn es = open_conns HT g' - open_conns HT g)"

lemma balanced_trans: "balanced es HT g g1 \<Longrightarrow> balanced fs HT g1 g2 \<Longrightarrow> balanced (es @ fs) HT g g2"
  by (simp add: balanced_def)

text \<open>The tasks have the same open runs and connections.\<close>

definition same_open :: "('th, CronTask) dynahash_ops \<Rightarrow> ('jh, 'th) globals \<Rightarrow> ('jh, 'th) globals \<Rightarrow> bool" where
  "same_open HT g g' = (\<forall>k. run_open (task_of HT g' k) = run_open (task_of HT g k)
     \<and> conn_open (task_of HT g' k) = conn_open (task_of HT g k))"

text \<open>Nothing changed but the tasks and the last minute.\<close>

definition only_tasks :: "('jh, 'th) globals \<Rightarrow> ('jh, 'th) globals \<Rightarrow> bool" where
  "only_tasks g g' = (CronJobHashTable g' = CronJobHashTable g \<and> CronJobCacheValid g' = CronJobCacheValid g
     \<and> lastJobReloadTime g' = lastJobReloadTime g \<and> sigtermFlag g' = sigtermFlag g)"

definition silent :: "event \<Rightarrow> bool" where
  "silent e = (e = EvStartTransaction \<or> e = EvEndTransaction \<or> (\<exists>m. e = EvWarning m))"

lemma count_silent:
  "list_all silent es \<Longrightarrow> count_events opens_run es = 0 \<and> count_events finishes_run es = 0
     \<and> count_events opens_conn es = 0 \<and> count_events closes_conn es = 0"
  by (induction es) (auto simp: silent_def)

lemma open_None [simp]: "run_open None = 0" "conn_open None = 0"
  by (simp_all add: run_open_def conn_open_def)

lemma open_active: "run_open (Some (t\<lparr> isActive := b \<rparr>)) = run_open (Some t)" "conn_open (Some (t\<lparr> isActive := b \<rparr>)) = conn_open (Some t)"
  by (simp_all add: run_open_def conn_open_def)

lemma sum_open:
  assumes "finite A" and "dom m \<subseteq> A" and "w None = (0 :: int)"
  shows "(\<Sum>k \<in> A. w (m k)) = (\<Sum>k \<in> dom m. w (m k))"
  using assms by (intro sum.mono_neutral_right) (auto simp: domIff)

lemma worker_ok_frame:
  assumes "CronJobHashTable g' = CronJobHashTable g" and "CronTaskHashTable g' = CronTaskHashTable g"
    and "lastMinute g' = lastMinute g" and "maxPendingTasks g' = maxPendingTasks g"
  shows "worker_ok psc HJ HT g' = worker_ok psc HJ HT g"
  using assms by (simp add: worker_ok_def tables_agree_def jobs_parsed_def job_of_def task_of_def)

lemma receive_signals_frame [simp]:
  "worker_ok psc HJ HT (fold receive_signal sigs g) = worker_ok psc HJ HT g"
proof (induction sigs arbitrary: g)
  case (Cons s sigs)
  have "worker_ok psc HJ HT (receive_signal s g) = worker_ok psc HJ HT g"
    by (rule worker_ok_frame; cases s) (simp_all add: sigtermHandler_def sighupHandler_def)
  with Cons show ?case by simp
qed simp

lemma signals_only:
  "CronTaskHashTable (fold receive_signal sigs g) = CronTaskHashTable g
   \<and> (sigtermFlag (fold receive_signal sigs g) \<longleftrightarrow> sigtermFlag g \<or> SIGTERM \<in> set sigs)"
proof (induction sigs arbitrary: g)
  case (Cons s sigs)
  then show ?case by (cases s) (simp_all add: sigtermHandler_def sighupHandler_def)
qed simp

lemma callbacks_flag:
  "fold (CronJobRelcacheCallback oid) relids g
     = (if \<exists>r \<in> set relids. r = 0 \<or> r = oid then g\<lparr> CronJobCacheValid := False \<rparr> else g)"
proof (induction relids arbitrary: g)
  case (Cons r relids)
  have "CronJobRelcacheCallback oid r g = (if r = 0 \<or> r = oid then g\<lparr> CronJobCacheValid := False \<rparr> else g)"
    by (rule CronJobRelcacheCallback_def)
  with Cons show ?case by auto
qed simp

lemma AcceptInvalidationMessages_eq:
  "AcceptInvalidationMessages relids g = (if CronJobRelcacheCallbackRegistered g
       \<and> (\<exists>r \<in> set relids. r = 0 \<or> r = CronJobRelcacheOid g) then g\<lparr> CronJobCacheValid := False \<rparr> else g)"
  by (simp add: AcceptInvalidationMessages_def callbacks_flag)

text \<open>What registering the callback leaves alone.\<close>

lemma Register_frame:
  obtains oid reg where "snd (RegisterCronJobRelcacheCallbackIfNeeded cat g)
     = Inr (g\<lparr> CronJobRelcacheOid := oid, CronJobRelcacheCallbackRegistered := reg \<rparr>)"
proof (cases "snd (RegisterCronJobRelcacheCallbackIfNeeded cat g) = Inr g")
  case True
  then show thesis using that [of "CronJobRelcacheCallbackRegistered g" "CronJobRelcacheOid g"] by simp
next
  case False
  then show thesis
    by (auto simp: RegisterCronJobRelcacheCallbackIfNeeded_def io_simps Let_def split: if_splits intro: that)
qed

section \<open>The parts of a turn\<close>

lemma jobs_by_id_parsed:
  assumes "jobs_by_id (parsed_rows psc rows) jid = Some j"
  shows "parse psc (Some (scheduleText j)) = Some (schedule j)"
proof -
  have "j \<in> set (parsed_rows psc rows)" using jobs_by_id_Some [OF assms] by simp
  then obtain row where "row_job psc row = Some j"
    by (auto simp: parsed_rows_def List.map_filter_def)
  then show ?thesis by (auto simp: row_job_def)
qed

lemma runs_due_le_minutes:
  assumes "0 \<le> (now - a) div 60000000"
  shows "runs_due (due_ts ast) a now \<le> (now - a) div 60000000"
proof -
  let ?n = "(now - a) div 60000000"
  have "\<not> due_ts ast m' True False" if "due_ts ast m False True" for m m'
    using that by (cases ast) (auto simp: due_ts_def split: if_splits)
  then have "due_ts ast m' True False \<Longrightarrow> count_minutes (\<lambda>m. due_ts ast m False True) a (nat ?n) = 0" for m'
    by (auto simp: count_minutes_def filter_empty_conv)
  with assms count_minutes_bounds [of "\<lambda>m. due_ts ast m False True" a "nat ?n"]
    count_minutes_bounds [of "\<lambda>m. due_ts ast m True True" a "nat ?n"]
  show ?thesis by (auto simp: runs_due_def Let_def)
qed

lemma task_ok_frame [simp]:
  "task_ok (t\<lparr> nextRunTime := x \<rparr>) = task_ok t"
  "task_ok (t\<lparr> isActive := b \<rparr>) = task_ok t"
  "task_ok (t\<lparr> isSocketReady := b \<rparr>) = task_ok t"
  by (simp_all add: task_ok_def in_flight_def)

lemma task_ok_pending: "task_ok t \<Longrightarrow> 0 \<le> n \<Longrightarrow> n \<le> INT_MAX \<Longrightarrow> task_ok (t\<lparr> pendingRunCount := n \<rparr>)"
  by (simp add: task_ok_def in_flight_def)

lemma task_ok_count: "task_ok t \<Longrightarrow> 0 \<le> pendingRunCount t"
  by (simp add: task_ok_def)

lemma planned_task_ids:
  "jobId (planned_task ast a now t) = jobId t \<and> isActive (planned_task ast a now t) = isActive t
     \<and> run_open (Some (planned_task ast a now t)) = run_open (Some t)
     \<and> conn_open (Some (planned_task ast a now t)) = conn_open (Some t)"
  by (cases ast) (simp_all add: run_open_def conn_open_def)

lemma planned_task_ok:
  assumes "task_ok t" and "pendingRunCount t \<le> 1 + a div 60000000" and "60000000 dvd a" and "0 \<le> a" and "0 \<le> now"
    and "max a (StartOfMinute True now) < 2147483648000000"
  shows "task_ok (planned_task ast a now t)
     \<and> pendingRunCount (planned_task ast a now t) \<le> 1 + max a (StartOfMinute True now) div 60000000"
proof -
  let ?n = "(now - a) div 60000000" and ?b = "max a (StartOfMinute True now)"
  have b: "?b = a + 60000000 * int (nat ?n)" by (rule next_minute [OF assms(3-5)])
  then have d: "?b div 60000000 = a div 60000000 + int (nat ?n)" by simp
  have "?b div 60000000 \<le> 35791394" using assms(6) by linarith
  then have small: "1 + ?b div 60000000 \<le> INT_MAX" by (simp add: cdefs)
  have "?n < 0 \<Longrightarrow> runs_due (due_ts ast) a now = 0" by (simp add: runs_due_def)
  with runs_due_le_minutes [of now a ast] have r: "runs_due (due_ts ast) a now \<le> int (nat ?n)"
    by (cases "0 \<le> ?n") auto
  have z: "0 \<le> ?b div 60000000" using b assms(4) by (simp add: pos_imp_zdiv_nonneg_iff)
  have p: "0 \<le> pendingRunCount t" using assms(1) by (rule task_ok_count)
  have keep: "pendingRunCount t \<le> 1 + ?b div 60000000" using assms(2) d by linarith
  obtain n nx where e: "planned_task ast a now t = t\<lparr> nextRunTime := nx, pendingRunCount := n \<rparr>"
    and n: "0 \<le> n" "n \<le> 1 + ?b div 60000000"
  proof (cases ast)
    case (AstSeconds s)
    show thesis
    proof (rule that)
      show "planned_task ast a now t = t\<lparr> nextRunTime := nextRunTime (planned_task ast a now t),
          pendingRunCount := pendingRunCount (planned_task ast a now t) \<rparr>"
        unfolding AstSeconds planned_task.simps by simp
      show "0 \<le> pendingRunCount (planned_task ast a now t)" using p AstSeconds by simp
      show "pendingRunCount (planned_task ast a now t) \<le> 1 + ?b div 60000000" using keep z AstSeconds by simp
    qed
  next
    case (AstFields ms hs ds mos ws)
    show thesis
    proof (rule that)
      show "planned_task ast a now t = t\<lparr> nextRunTime := nextRunTime t,
          pendingRunCount := pendingRunCount t + runs_due (due_ts ast) a now \<rparr>"
        unfolding AstFields planned_task.simps by simp
      show "0 \<le> pendingRunCount t + runs_due (due_ts ast) a now" using p runs_due_bounds by simp
      show "pendingRunCount t + runs_due (due_ts ast) a now \<le> 1 + ?b div 60000000" using assms(2) r d by linarith
    qed
  qed
  show ?thesis using assms(1) n small by (simp add: e task_ok_pending)
qed

lemma worker_ok_tasks:
  assumes "worker_ok psc HJ HT g"
  shows "\<And>jid t. task_of HT g jid = Some t \<Longrightarrow> task_ok t \<and> pendingRunCount t \<le> 1 + lastMinute g div 60000000
       \<and> jobId t = jid \<and> (isActive t \<longleftrightarrow> job_of HJ g jid \<noteq> None)"
    and "\<And>jid j. job_of HJ g jid = Some j \<Longrightarrow> job_jobId j = jid \<and> task_of HT g jid \<noteq> None
       \<and> parse psc (Some (scheduleText j)) = Some (schedule j)"
  using assms by (auto simp: worker_ok_def tables_agree_def jobs_parsed_def)

lemma worker_okI:
  assumes "\<And>jid t. task_of HT g jid = Some t \<Longrightarrow> task_ok t \<and> pendingRunCount t \<le> 1 + lastMinute g div 60000000
       \<and> jobId t = jid \<and> (isActive t \<longleftrightarrow> job_of HJ g jid \<noteq> None)"
    and "\<And>jid j. job_of HJ g jid = Some j \<Longrightarrow> job_jobId j = jid \<and> task_of HT g jid \<noteq> None
       \<and> parse psc (Some (scheduleText j)) = Some (schedule j)"
    and "60000000 dvd lastMinute g" and "0 \<le> lastMinute g" and "lastMinute g < 2147483648000000" and "0 \<le> maxPendingTasks g"
  shows "worker_ok psc HJ HT g"
  using assms by (auto simp: worker_ok_def tables_agree_def jobs_parsed_def)

lemma worker_ok_clock:
  "worker_ok psc HJ HT g \<Longrightarrow> 60000000 dvd lastMinute g \<and> 0 \<le> lastMinute g \<and> lastMinute g < 2147483648000000
     \<and> 0 \<le> maxPendingTasks g"
  by (simp add: worker_ok_def)

lemma reload_fault:
  assumes "visible_rows cat g = None"
  shows "\<exists>msg. snd (ReloadCronJobs psc HJ HT cat g) = Inl (PgError msg)"
  using assms
  by (auto simp: visible_rows_def ReloadCronJobs_def LoadJobsList_def CronJobRelationId_def io_simps Let_def bindIO_def
      split: if_splits option.splits)

text \<open>The body of \<open>ManageCronTasks\<close> for one entry.\<close>

definition manage_body ::
  "pg_time \<Rightarrow> ('jh, CronJob) dynahash_ops \<Rightarrow> (int \<Rightarrow> answers) \<Rightarrow> int \<Rightarrow> ('jh, 'th) globals \<Rightarrow> CronTask \<Rightarrow>
     CronTask option step" where
  "manage_body pt HJ an now g t =
     ManageCronTask pt g (an (jobId t)) (getCronJob HJ (CronJobHashTable g) (jobId t)) now t"

lemma ManageCronTasks_body:
  "ManageCronTasks pt HJ HT an ks now g = bindIO (foreach_task HT (manage_body pt HJ an now g) ks (CronTaskHashTable g))
     (\<lambda>tbl. returnIO (g\<lparr> CronTaskHashTable := tbl \<rparr>))"
  by (simp add: ManageCronTasks_def manage_body_def [abs_def])

lemma TupleToJob_silent: "list_all silent (fst (TupleToJob psc HJ tbl row))"
  by (auto simp: TupleToJob_def io_simps silent_def Let_def split: prod.split option.split)

lemma list_all_bindIO:
  "list_all P (fst m) \<Longrightarrow> (\<And>a. list_all P (fst (f a))) \<Longrightarrow> list_all P (fst (bindIO m f))"
  by (auto simp: bindIO_def split: prod.split sum.split)

lemma scan_rows_silent: "list_all silent (fst (scan_rows psc HJ tbl rows js))"
  by (induction rows arbitrary: tbl js)
    (auto simp: io_simps split: prod.split intro: list_all_bindIO TupleToJob_silent)

lemma reload_silent: "list_all silent (fst (ReloadCronJobs psc HJ HT cat g))"
  unfolding ReloadCronJobs_def LoadJobsList_def Let_def
  by (intro list_all_bindIO)
    (auto intro!: list_all_bindIO scan_rows_silent simp: io_simps silent_def split: sum.split option.split prod.split)

context scheduler
begin

lemma finite_tasks: "finite (dom (task_of HT g))"
  using LoadTasksList_seq [of g] by (metis List.finite_set)

lemma same_open_balanced: "same_open HT g g' \<Longrightarrow> list_all silent es \<Longrightarrow> balanced es HT g g'"
  using sum_open [of "dom (task_of HT g) \<union> dom (task_of HT g')" "task_of HT g" run_open]
    sum_open [of "dom (task_of HT g) \<union> dom (task_of HT g')" "task_of HT g'" run_open]
    sum_open [of "dom (task_of HT g) \<union> dom (task_of HT g')" "task_of HT g" conn_open]
    sum_open [of "dom (task_of HT g) \<union> dom (task_of HT g')" "task_of HT g'" conn_open]
  by (simp add: same_open_def balanced_def open_runs_def open_conns_def finite_tasks count_silent)

lemma reload_worker_ok:
  assumes ok: "worker_ok psc HJ HT g" and v: "visible_rows cat g = Some (relid, rows)"
    and r: "snd (ReloadCronJobs psc HJ HT cat g) = Inr g'"
  shows "worker_ok psc HJ HT g' \<and> same_open HT g g' \<and> job_of HJ g' = jobs_by_id (parsed_rows psc rows)
     \<and> CronJobCacheValid g' \<and> sigtermFlag g' = sigtermFlag g"
proof -
  have ids: "task_of HT g jid = Some t \<Longrightarrow> jobId t = jid" for jid t using worker_ok_tasks(1) [OF ok] by blast
  have agree: "tables_agree HJ HT g'" by (rule reload_tables_agree [OF r v ids])
  from ReloadCronJobs_spec [OF v, of psc] r obtain jt tt where
    jobs: "job_of HJ g' = jobs_by_id (parsed_rows psc rows)" and
    tasks: "\<And>jid. reloaded_task (jid \<in> job_jobId ` set (parsed_rows psc rows)) jid (task_of HT g jid) (task_of HT g' jid)"
    and g': "g' = g\<lparr> CronJobHashTable := jt, CronTaskHashTable := tt, CronJobCacheValid := True, CachedCronJobRealtionId := relid \<rparr>"
    by auto
  have l: "lastMinute g' = lastMinute g" "maxPendingTasks g' = maxPendingTasks g" by (simp_all add: g')
  have "0 \<le> lastMinute g div 60000000" using worker_ok_clock [OF ok] by (simp add: pos_imp_zdiv_nonneg_iff)
  then have t: "task_ok t \<and> pendingRunCount t \<le> 1 + lastMinute g div 60000000" if "task_of HT g' jid = Some t" for jid t
    using tasks [of jid] that worker_ok_tasks(1) [OF ok, of jid] fresh_task_ok [of t jid]
    by (auto simp: reloaded_task_def fresh_task_def split: option.splits if_splits)
  have j: "parse psc (Some (scheduleText j)) = Some (schedule j)" if "job_of HJ g' jid = Some j" for jid j
    using that unfolding jobs by (rule jobs_by_id_parsed)
  have "worker_ok psc HJ HT g'"
    using agree t j worker_ok_clock [OF ok] by (auto simp: worker_ok_def jobs_parsed_def l)
  moreover have "run_open (task_of HT g' jid) = run_open (task_of HT g jid)
      \<and> conn_open (task_of HT g' jid) = conn_open (task_of HT g jid)" for jid
    using tasks [of jid] by (auto simp: reloaded_task_def open_active dest: fresh_task_ok split: option.splits if_splits)
  ultimately show ?thesis using jobs by (simp add: same_open_def g')
qed

lemma schedule_worker_ok:
  assumes ok: "worker_ok psc HJ HT g" and now: "0 \<le> now" "now < 2147483648000000"
  shows "\<exists>g'. StartPendingTasks pt HJ HT (LoadTasksList HT g) now g = ([], Inr g') \<and> worker_ok psc HJ HT g'
     \<and> dom (task_of HT g') = dom (task_of HT g) \<and> same_open HT g g' \<and> only_tasks g g'
     \<and> (\<forall>jid. task_of HT g' jid = (case job_of HJ g jid of None \<Rightarrow> task_of HT g jid
          | Some j \<Rightarrow> map_option (planned_task (job_ast psc j) (round_start g now) now) (task_of HT g jid)))"
proof -
  let ?a = "round_start g now"
  have m: "StartOfMinute True now \<le> now" "0 \<le> StartOfMinute True now" using now by (simp_all add: StartOfMinute_div)
  have c: "clock_ok g now" using worker_ok_clock [OF ok] now m by (auto simp: clock_ok_def round_start_def)
  have a: "60000000 dvd ?a" "0 \<le> ?a" using round_start_minute [OF c] by simp_all
  have small: "max ?a (StartOfMinute True now) < 2147483648000000"
    using worker_ok_clock [OF ok] now m by (auto simp: round_start_def)
  have la: "lastMinute g div 60000000 \<le> ?a div 60000000"
    using m by (intro zdiv_mono1) (auto simp: round_start_def)
  have ma: "?a div 60000000 \<le> max ?a (StartOfMinute True now) div 60000000" by (intro zdiv_mono1) simp_all
  have "lastMinute g div 60000000 \<le> 35791394" using worker_ok_clock [OF ok] by linarith
  then have "1 + lastMinute g div 60000000 \<le> INT_MAX - 181" by (simp add: cdefs)
  with worker_ok_tasks(1) [OF ok] have cb: "counts_below (INT_MAX - 181) HT g"
    unfolding counts_below_def by (meson order_trans task_ok_count)
  have "tables_agree HJ HT g" "jobs_parsed psc HJ g" using ok by (simp_all add: worker_ok_def)
  from StartPendingTasks_spec [OF this cb c] obtain g' tt where
    s: "StartPendingTasks pt HJ HT (LoadTasksList HT g) now g = ([], Inr g')"
    and t: "\<And>jid. task_of HT g' jid = (case job_of HJ g jid of None \<Rightarrow> task_of HT g jid
           | Some j \<Rightarrow> map_option (planned_task (job_ast psc j) ?a now) (task_of HT g jid))"
    and g': "g' = g\<lparr> CronTaskHashTable := tt, lastMinute := max ?a (StartOfMinute True now) \<rparr>"
    by blast
  have j: "job_of HJ g' = job_of HJ g" by (simp add: g' job_of_def fun_eq_iff)
  have l: "lastMinute g' = max ?a (StartOfMinute True now)" "maxPendingTasks g' = maxPendingTasks g" by (simp_all add: g')
  have dom: "dom (task_of HT g') = dom (task_of HT g)" by (auto simp: t domIff split: option.splits)
  have "worker_ok psc HJ HT g'"
  proof (rule worker_okI)
    fix jid u assume u: "task_of HT g' jid = Some u"
    show "task_ok u \<and> pendingRunCount u \<le> 1 + lastMinute g' div 60000000 \<and> jobId u = jid
        \<and> (isActive u \<longleftrightarrow> job_of HJ g' jid \<noteq> None)"
    proof (cases "job_of HJ g jid")
      case None
      with u have "task_of HT g jid = Some u" by (simp add: t)
      from worker_ok_tasks(1) [OF ok this] la ma show ?thesis unfolding j l by linarith
    next
      case (Some jb)
      with u obtain v where v: "task_of HT g jid = Some v" and uv: "u = planned_task (job_ast psc jb) ?a now v"
        by (auto simp: t)
      note w = worker_ok_tasks(1) [OF ok v]
      have "pendingRunCount v \<le> 1 + ?a div 60000000" using w la by linarith
      with w planned_task_ok [of v ?a now] a now(1) small
      have "task_ok u \<and> pendingRunCount u \<le> 1 + lastMinute g' div 60000000" unfolding uv l by blast
      moreover have "jobId u = jobId v \<and> isActive u = isActive v" unfolding uv by (simp add: planned_task_ids)
      ultimately show ?thesis using w unfolding j by simp
    qed
  next
    fix jid jb assume "job_of HJ g' jid = Some jb"
    with worker_ok_tasks(2) [OF ok, of jid jb] dom show "job_jobId jb = jid \<and> task_of HT g' jid \<noteq> None
        \<and> parse psc (Some (scheduleText jb)) = Some (schedule jb)" unfolding j by blast
  next
    show "60000000 dvd lastMinute g'" unfolding l using a(1) now by (simp add: max_def StartOfMinute_div)
    show "0 \<le> lastMinute g'" unfolding l using a(2) by simp
  qed (use small worker_ok_clock [OF ok] in \<open>simp_all add: l\<close>)
  moreover have "same_open HT g g'" unfolding same_open_def
  proof
    show "run_open (task_of HT g' k) = run_open (task_of HT g k) \<and> conn_open (task_of HT g' k) = conn_open (task_of HT g k)" for k
      by (cases "task_of HT g k"; cases "job_of HJ g k") (simp_all add: t planned_task_ids)
  qed
  moreover have "only_tasks g g'" by (simp add: only_tasks_def g')
  ultimately show ?thesis using s dom t by blast
qed

lemma wait_worker_ok:
  assumes ok: "worker_ok psc HJ HT g" and "answers_ok wa" and "distinct ks" and "set ks = dom (task_of HT g)"
    and w: "snd (WaitForEvent pt HJ HT wa ks g) = Inr g'"
  shows "worker_ok psc HJ HT g' \<and> dom (task_of HT g') = dom (task_of HT g) \<and> same_open HT g g' \<and> only_tasks g g'
     \<and> (\<forall>k t. task_of HT g k = Some t \<longrightarrow> (\<exists>t'. task_of HT g' k = Some t' \<and> wait_step t t'))"
proof -
  from WaitForEvent_list [OF assms(2-4)] w obtain tt where g': "g' = g\<lparr> CronTaskHashTable := tt \<rparr>"
    and f: "\<And>k. case task_of HT g k of None \<Rightarrow> h_find HT tt k = None
                | Some t \<Rightarrow> \<exists>t'. h_find HT tt k = Some t' \<and> wait_step t t'" by auto
  have tt: "task_of HT g' = h_find HT tt" by (simp add: g' task_of_def fun_eq_iff)
  have j: "job_of HJ g' = job_of HJ g" by (simp add: g' job_of_def fun_eq_iff)
  have l: "lastMinute g' = lastMinute g" "maxPendingTasks g' = maxPendingTasks g" by (simp_all add: g')
  have n: "task_of HT g' k = None \<longleftrightarrow> task_of HT g k = None" for k using f [of k] by (auto simp: tt split: option.splits)
  have "worker_ok psc HJ HT g'"
  proof (rule worker_okI)
    fix jid u assume u: "task_of HT g' jid = Some u"
    with n [of jid] obtain v where v: "task_of HT g jid = Some v" by fastforce
    with f [of jid] u have "wait_step v u" by (simp add: tt)
    with wait_step_ok [of v u] worker_ok_tasks(1) [OF ok v]
    show "task_ok u \<and> pendingRunCount u \<le> 1 + lastMinute g' div 60000000 \<and> jobId u = jid
        \<and> (isActive u \<longleftrightarrow> job_of HJ g' jid \<noteq> None)" unfolding j l by simp
  next
    fix jid jb assume "job_of HJ g' jid = Some jb"
    with worker_ok_tasks(2) [OF ok, of jid jb] n [of jid] show "job_jobId jb = jid \<and> task_of HT g' jid \<noteq> None
        \<and> parse psc (Some (scheduleText jb)) = Some (schedule jb)" unfolding j by simp
  qed (use worker_ok_clock [OF ok] in \<open>simp_all add: l\<close>)
  moreover have "run_open (task_of HT g' k) = run_open (task_of HT g k)
      \<and> conn_open (task_of HT g' k) = conn_open (task_of HT g k)" for k
  proof (cases "task_of HT g k")
    case None
    with n [of k] show ?thesis by simp
  next
    case (Some t)
    with f [of k] obtain t' where t': "task_of HT g' k = Some t'" and w: "wait_step t t'" by (auto simp: tt)
    from wait_step_ok [OF _ w] worker_ok_tasks(1) [OF ok Some] Some t' show ?thesis by simp
  qed
  moreover have "\<exists>t'. task_of HT g' k = Some t' \<and> wait_step t t'" if "task_of HT g k = Some t" for k t
    using f [of k] that by (simp add: tt)
  ultimately show ?thesis using n by (simp add: dom_def same_open_def only_tasks_def g')
qed

lemma manage_body_ok:
  assumes "worker_ok psc HJ HT g" and "\<forall>jid. ids_nonzero (an jid)" and "task_of HT g jid = Some t"
    and "snd (manage_body pt HJ an now g t) = Inr r"
  shows "step_ok (job_of HJ g jid) t (fst (manage_body pt HJ an now g t)) r"
proof -
  have t: "task_ok t" "jobId t = jid" using worker_ok_tasks(1) [OF assms(1,3)] by simp_all
  have m: "0 \<le> maxPendingTasks g" using worker_ok_clock [OF assms(1)] by simp
  have "manage_body pt HJ an now g t = (fst (manage_body pt HJ an now g t), Inr r)"
    using assms(4) by (metis prod.collapse)
  then show ?thesis
    using t by (intro ManageCronTask_ok [OF t(1) assms(2) [rule_format] m]) (simp add: manage_body_def job_of_def)
qed

lemma manage_worker_ok:
  assumes ok: "worker_ok psc HJ HT g" and ids: "\<forall>jid. ids_nonzero (an jid)" and ks: "distinct ks" "set ks = dom (task_of HT g)"
    and m: "snd (ManageCronTasks pt HJ HT an ks now g) = Inr g'"
  shows "worker_ok psc HJ HT g' \<and> balanced (fst (ManageCronTasks pt HJ HT an ks now g)) HT g g' \<and> only_tasks g g'
     \<and> (\<forall>k t. task_of HT g k = Some t \<longrightarrow> snd (manage_body pt HJ an now g t) = Inr (task_of HT g' k))"
proof -
  let ?body = "manage_body pt HJ an now g"
  from m obtain tt where f: "snd (foreach_task HT ?body ks (CronTaskHashTable g)) = Inr tt"
    and g': "g' = g\<lparr> CronTaskHashTable := tt \<rparr>"
    by (auto simp: ManageCronTasks_body snd_bindIO_Inr io_simps)
  have sub: "set ks \<subseteq> dom (h_find HT (CronTaskHashTable g))" using ks by (simp add: task_of_def dom_def)
  note frame = tasks.foreach_task_Inr [OF ks(1) sub f]
  have tt: "task_of HT g' = h_find HT tt" by (simp add: g' task_of_def fun_eq_iff)
  have j: "job_of HJ g' = job_of HJ g" by (simp add: g' job_of_def fun_eq_iff)
  have l: "lastMinute g' = lastMinute g" "maxPendingTasks g' = maxPendingTasks g" by (simp_all add: g')
  have step: "\<exists>t. task_of HT g k = Some t \<and> step_ok (job_of HJ g k) t (fst (?body t)) (task_of HT g' k)"
    if k: "k \<in> set ks" for k
  proof -
    from frame k obtain t where "task_of HT g k = Some t" "snd (?body t) = Inr (task_of HT g' k)"
      by (auto simp: tt task_of_def)
    with manage_body_ok [OF ok ids] show ?thesis by blast
  qed
  have "worker_ok psc HJ HT g'"
  proof (rule worker_okI)
    fix jid u assume u: "task_of HT g' jid = Some u"
    with frame ks have "jid \<in> set ks" by (auto simp: tt task_of_def)
    with step u obtain t where t: "task_of HT g jid = Some t" and s: "step_ok (job_of HJ g jid) t (fst (?body t)) (Some u)"
      by fastforce
    show "task_ok u \<and> pendingRunCount u \<le> 1 + lastMinute g' div 60000000 \<and> jobId u = jid
        \<and> (isActive u \<longleftrightarrow> job_of HJ g' jid \<noteq> None)"
      using worker_ok_tasks(1) [OF ok t] s unfolding j l step_ok_def by auto
  next
    fix jid jb assume jb: "job_of HJ g' jid = Some jb"
    then have "job_of HJ g jid = Some jb" by (simp add: j)
    note w = worker_ok_tasks(2) [OF ok this]
    with ks have "jid \<in> set ks" by auto
    with step obtain t where t: "task_of HT g jid = Some t"
      and s: "step_ok (job_of HJ g jid) t (fst (?body t)) (task_of HT g' jid)" by blast
    have "isActive t" using worker_ok_tasks(1) [OF ok t] jb j by simp
    with s have "task_of HT g' jid \<noteq> None" unfolding step_ok_def by (auto split: option.splits)
    with w show "job_jobId jb = jid \<and> task_of HT g' jid \<noteq> None
        \<and> parse psc (Some (scheduleText jb)) = Some (schedule jb)" by simp
  qed (use worker_ok_clock [OF ok] in \<open>simp_all add: l\<close>)
  moreover have "balanced (fst (ManageCronTasks pt HJ HT an ks now g)) HT g g'"
  proof -
    let ?es = "fst (foreach_task HT ?body ks (CronTaskHashTable g))"
    have e: "fst (ManageCronTasks pt HJ HT an ks now g) = ?es"
      using f by (simp add: ManageCronTasks_body bindIO_def io_simps split: prod.split)
    have b: "count_events opens_run (fst (?body t)) - count_events finishes_run (fst (?body t)) = run_open r - run_open (Some t)
        \<and> count_events opens_conn (fst (?body t)) - count_events closes_conn (fst (?body t)) = conn_open r - conn_open (Some t)"
      if "h_find HT (CronTaskHashTable g) k = Some t" "snd (?body t) = Inr r" for k t r
      using manage_body_ok [OF ok ids _ that(2), of k] that(1) by (simp add: step_ok_def task_of_def)
    have w: "(\<Sum>k \<in> set ks. w (h_find HT tt k) - w (h_find HT (CronTaskHashTable g) k))
        = (\<Sum>k \<in> dom (task_of HT g'). w (task_of HT g' k)) - (\<Sum>k \<in> dom (task_of HT g). w (task_of HT g k))"
      if "w None = (0 :: int)" for w
    proof -
      have "dom (task_of HT g') \<subseteq> set ks" using frame ks by (force simp: tt task_of_def domIff)
      with that have "(\<Sum>k \<in> set ks. w (task_of HT g' k)) = (\<Sum>k \<in> dom (task_of HT g'). w (task_of HT g' k))"
        by (intro sum_open) simp_all
      then show ?thesis by (simp add: sum_subtractf ks(2) tt flip: task_of_def)
    qed
    show ?thesis
      unfolding balanced_def open_runs_def open_conns_def e
      using tasks.foreach_task_balance [OF ks(1) sub f, of opens_run finishes_run run_open]
        tasks.foreach_task_balance [OF ks(1) sub f, of opens_conn closes_conn conn_open] b w [of run_open] w [of conn_open]
      by simp
  qed
  moreover have "snd (?body t) = Inr (task_of HT g' k)" if "task_of HT g k = Some t" for k t
    using frame that ks(2) by (force simp: tt task_of_def)
  ultimately show ?thesis by (simp add: only_tasks_def g')
qed

lemma manage_fault:
  assumes ok: "worker_ok psc HJ HT g" and ks: "distinct ks" "set ks = dom (task_of HT g)"
    and m: "snd (ManageCronTasks pt HJ HT an ks now g) = Inl f"
  shows "\<exists>jid. step_fault (an jid) f"
proof -
  from m have "snd (foreach_task HT (manage_body pt HJ an now g) ks (CronTaskHashTable g)) = Inl f"
    by (auto simp: ManageCronTasks_body snd_bindIO_Inl io_simps)
  moreover have "set ks \<subseteq> dom (h_find HT (CronTaskHashTable g))" using ks by (simp add: task_of_def dom_def)
  ultimately obtain k t where t: "task_of HT g k = Some t" and b: "snd (manage_body pt HJ an now g t) = Inl f"
    using tasks.foreach_task_Inl [OF ks(1)] unfolding task_of_def by blast
  have "task_ok t" using worker_ok_tasks(1) [OF ok t] by simp
  with b ManageCronTask_fault show ?thesis unfolding manage_body_def by blast
qed

end

section \<open>A turn of the loop\<close>

text \<open>When the jobs are loaded again.\<close>

definition must_reload :: "inputs \<Rightarrow> ('jh, 'th) globals \<Rightarrow> bool" where
  "must_reload inp g = (sighupFlag g \<or> \<not> CronJobCacheValid g \<or> lastJobReloadTime g = 0
     \<or> lastJobReloadTime g + 60000000 \<le> in_time inp
     \<or> CronJobRelcacheCallbackRegistered g \<and> (\<exists>r \<in> set (in_invalidations inp). r = 0 \<or> r = CronJobRelcacheOid g))"

text \<open>The turn after the jobs are up to date.\<close>

definition turn_rest ::
  "pg_time \<Rightarrow> ('jh, CronJob) dynahash_ops \<Rightarrow> ('th, CronTask) dynahash_ops \<Rightarrow> inputs \<Rightarrow> ('jh, 'th) globals \<Rightarrow>
     ('jh, 'th) globals step" where
  "turn_rest pt HJ HT inp g =
     bindIO (StartPendingTasks pt HJ HT (LoadTasksList HT g) (in_time inp) g) (\<lambda>g1.
     bindIO (WaitForEvent pt HJ HT (in_wait inp) (LoadTasksList HT g) g1)
       (ManageCronTasks pt HJ HT (in_answers inp) (LoadTasksList HT g) (in_time_after_wait inp)))"

lemma bindIO_InrD:
  "snd (bindIO m f) = Inr b \<Longrightarrow> \<exists>a. snd m = Inr a \<and> snd (f a) = Inr b \<and> fst (bindIO m f) = fst m @ fst (f a)"
  by (auto simp: bindIO_def split: prod.splits sum.splits)

lemma only_tasks_trans: "only_tasks g g1 \<Longrightarrow> only_tasks g1 g2 \<Longrightarrow> only_tasks g g2"
  by (simp add: only_tasks_def)

text \<open>The state after the messages and the configuration are read, before the jobs are.\<close>

definition noticed :: "inputs \<Rightarrow> int \<Rightarrow> bool \<Rightarrow> ('jh, 'th) globals \<Rightarrow> ('jh, 'th) globals" where
  "noticed inp oid reg g = (let g2 = (AcceptInvalidationMessages (in_invalidations inp) g)
         \<lparr> CronJobRelcacheOid := oid, CronJobRelcacheCallbackRegistered := reg \<rparr> in
     if sighupFlag g2 then g2\<lparr> sighupFlag := False, StatementTimeoutMs := in_statement_timeout inp, CronJobCacheValid := False \<rparr>
     else g2)"

definition turn_reload ::
  "pg_time \<Rightarrow> strcasecmp \<Rightarrow> ('jh, CronJob) dynahash_ops \<Rightarrow> ('th, CronTask) dynahash_ops \<Rightarrow> inputs \<Rightarrow>
     ('jh, 'th) globals \<Rightarrow> ('jh, 'th) globals step" where
  "turn_reload pt psc HJ HT inp g =
     (if \<not> CronJobCacheValid g \<or> lastJobReloadTime g = 0 \<or> ts_exceeds pt (lastJobReloadTime g) (in_time inp) 60000
      then bindIO (ReloadCronJobs psc HJ HT (in_catalog inp) g) (\<lambda>g. returnIO (g\<lparr> lastJobReloadTime := in_time inp \<rparr>))
      else returnIO g)"

lemma turn_split:
  obtains oid reg es where "list_all silent es"
    and "worker_turn pt psc HJ HT inp g = bindIO (es, Inr ())
      (\<lambda>_. bindIO (turn_reload pt psc HJ HT inp (noticed inp oid reg g))
        (turn_rest pt HJ HT inp))"
proof -
  let ?g1 = "AcceptInvalidationMessages (in_invalidations inp) g"
  let ?R = "RegisterCronJobRelcacheCallbackIfNeeded (in_catalog inp) ?g1"
  obtain oid reg where r: "snd ?R = Inr (?g1\<lparr> CronJobRelcacheOid := oid, CronJobRelcacheCallbackRegistered := reg \<rparr>)"
    by (rule Register_frame)
  have s: "list_all silent (fst ?R)"
    by (simp add: RegisterCronJobRelcacheCallbackIfNeeded_def io_simps silent_def Let_def)
  have e: "?R = (fst ?R, Inr (?g1\<lparr> CronJobRelcacheOid := oid, CronJobRelcacheCallbackRegistered := reg \<rparr>))"
    using r by (metis prod.collapse)
  show thesis
  proof (rule that [OF s])
    show "worker_turn pt psc HJ HT inp g = bindIO (fst ?R, Inr ())
      (\<lambda>_. bindIO (turn_reload pt psc HJ HT inp (noticed inp oid reg g))
        (turn_rest pt HJ HT inp))"
      unfolding worker_turn_def turn_reload_def turn_rest_def noticed_def Let_def
      by (subst e) (simp only: bindIO_pair sum.case)
  qed
qed

context scheduler
begin

lemma turn_rest_ok:
  assumes ok: "worker_ok psc HJ HT g" and inp: "inputs_ok inp" and r: "snd (turn_rest pt HJ HT inp g) = Inr g'"
  shows "worker_ok psc HJ HT g' \<and> balanced (fst (turn_rest pt HJ HT inp g)) HT g g' \<and> only_tasks g g'"
proof -
  let ?ks = "LoadTasksList HT g"
  have now: "0 \<le> in_time inp" "in_time inp < 2147483648000000" and wa: "answers_ok (in_wait inp)"
    and ids: "\<forall>jid. ids_nonzero (in_answers inp jid)" using inp by (simp_all add: inputs_ok_def)
  obtain g1 where s: "StartPendingTasks pt HJ HT ?ks (in_time inp) g = ([], Inr g1)" and ok1: "worker_ok psc HJ HT g1"
    and d1: "dom (task_of HT g1) = dom (task_of HT g)" and o1: "same_open HT g g1" "only_tasks g g1"
    using schedule_worker_ok [OF ok now] by blast
  from r obtain g2 where w: "snd (WaitForEvent pt HJ HT (in_wait inp) ?ks g1) = Inr g2"
    and m: "snd (ManageCronTasks pt HJ HT (in_answers inp) ?ks (in_time_after_wait inp) g2) = Inr g'"
    by (auto simp: turn_rest_def s snd_bindIO_Inr)
  have ks1: "distinct ?ks" "set ?ks = dom (task_of HT g1)" using LoadTasksList_seq [of g] d1 by simp_all
  from wait_worker_ok [OF ok1 wa ks1 w] have ok2: "worker_ok psc HJ HT g2" and d2: "dom (task_of HT g2) = dom (task_of HT g1)"
    and o2: "same_open HT g1 g2" "only_tasks g1 g2" by simp_all
  have ks2: "distinct ?ks" "set ?ks = dom (task_of HT g2)" using ks1 d2 by simp_all
  note m' = manage_worker_ok [OF ok2 ids ks2 m]
  have "fst (WaitForEvent pt HJ HT (in_wait inp) ?ks g1) = []" using WaitForEvent_list [OF wa ks1] by auto
  then have e: "fst (turn_rest pt HJ HT inp g) = [] @ [] @ fst (ManageCronTasks pt HJ HT (in_answers inp) ?ks (in_time_after_wait inp) g2)"
    using w by (cases "WaitForEvent pt HJ HT (in_wait inp) ?ks g1") (simp add: turn_rest_def s bindIO_def split: prod.split sum.split)
  have "balanced (fst (turn_rest pt HJ HT inp g)) HT g g'"
    unfolding e
    by (rule balanced_trans [OF same_open_balanced [OF o1(1)] balanced_trans [OF same_open_balanced [OF o2(1)]]])
      (use m' in simp_all)
  with m' o1(2) o2(2) show ?thesis by (blast intro: only_tasks_trans)
qed

lemma turn_rest_fault:
  assumes ok: "worker_ok psc HJ HT g" and inp: "inputs_ok inp" and r: "snd (turn_rest pt HJ HT inp g) = Inl f"
  shows "turn_fault inp f"
proof -
  let ?ks = "LoadTasksList HT g"
  have now: "0 \<le> in_time inp" "in_time inp < 2147483648000000" and wa: "answers_ok (in_wait inp)"
    using inp by (simp_all add: inputs_ok_def)
  obtain g1 where s: "StartPendingTasks pt HJ HT ?ks (in_time inp) g = ([], Inr g1)" and ok1: "worker_ok psc HJ HT g1"
    and d1: "dom (task_of HT g1) = dom (task_of HT g)"
    using schedule_worker_ok [OF ok now] by blast
  have ks1: "distinct ?ks" "set ?ks = dom (task_of HT g1)" using LoadTasksList_seq [of g] d1 by simp_all
  from r consider (wait) "snd (WaitForEvent pt HJ HT (in_wait inp) ?ks g1) = Inl f"
    | (manage) g2 where "snd (WaitForEvent pt HJ HT (in_wait inp) ?ks g1) = Inr g2"
        "snd (ManageCronTasks pt HJ HT (in_answers inp) ?ks (in_time_after_wait inp) g2) = Inl f"
    by (auto simp: turn_rest_def s snd_bindIO_Inl)
  then show ?thesis
  proof cases
    case wait
    with WaitForEvent_list [OF wa ks1] show ?thesis by (auto simp: turn_fault_def postmaster_dies_def)
  next
    case manage
    from wait_worker_ok [OF ok1 wa ks1 manage(1)] ks1
    have "worker_ok psc HJ HT g2" "set ?ks = dom (task_of HT g2)" by simp_all
    from manage_fault [OF this(1) ks1(1) this(2) manage(2)] inp show ?thesis
      by (auto simp: step_fault_def turn_fault_def inputs_ok_def)
  qed
qed

lemma noticed_ok: "worker_ok psc HJ HT (noticed inp oid reg g)
    = worker_ok psc HJ HT g"
  by (rule worker_ok_frame) (simp_all add: noticed_def AcceptInvalidationMessages_eq Let_def)

lemma noticed_reload:
  "(let g' = noticed inp oid reg g in \<not> CronJobCacheValid g' \<or> lastJobReloadTime g' = 0
      \<or> ts_exceeds pt (lastJobReloadTime g') (in_time inp) 60000) = must_reload inp g"
  by (auto simp: noticed_def AcceptInvalidationMessages_eq must_reload_def exceeds Let_def)

lemma noticed_keeps: "CachedCronJobRealtionId (noticed inp oid reg g) = CachedCronJobRealtionId g"
  "CronTaskHashTable (noticed inp oid reg g) = CronTaskHashTable g"
  "CronJobHashTable (noticed inp oid reg g) = CronJobHashTable g"
  "lastJobReloadTime (noticed inp oid reg g) = lastJobReloadTime g"
  "sigtermFlag (noticed inp oid reg g) = sigtermFlag g" "lastMinute (noticed inp oid reg g) = lastMinute g"
  by (simp_all add: noticed_def AcceptInvalidationMessages_eq Let_def)

lemma visible_noticed: "visible_rows cat (noticed inp oid reg g) = visible_rows cat g"
  by (simp add: visible_rows_def CronJobRelationId_def noticed_keeps Let_def split: sum.split)

lemma turn_reload_ok:
  assumes ok: "worker_ok psc HJ HT g" and r: "snd (turn_reload pt psc HJ HT inp (noticed inp oid reg g)) = Inr g'"
  shows "worker_ok psc HJ HT g' \<and> balanced (fst (turn_reload pt psc HJ HT inp (noticed inp oid reg g))) HT g g'
     \<and> CronJobCacheValid g' \<and> sigtermFlag g' = sigtermFlag g
     \<and> (if must_reload inp g
        then (\<exists>relid rows. visible_rows (in_catalog inp) g = Some (relid, rows)
           \<and> job_of HJ g' = jobs_by_id (parsed_rows psc rows)) \<and> lastJobReloadTime g' = in_time inp
        else job_of HJ g' = job_of HJ g \<and> lastJobReloadTime g' = lastJobReloadTime g)"
proof -
  let ?n = "noticed inp oid reg g"
  have okn: "worker_ok psc HJ HT ?n" using ok by (simp add: noticed_ok)
  have tn: "task_of HT ?n = task_of HT g" "job_of HJ ?n = job_of HJ g"
    by (simp_all add: task_of_def job_of_def noticed_keeps fun_eq_iff)
  show ?thesis
  proof (cases "must_reload inp g")
    case False
    with noticed_reload [of inp oid reg g] r have g': "turn_reload pt psc HJ HT inp ?n = ([], Inr ?n)" "g' = ?n"
      by (simp_all add: turn_reload_def io_simps Let_def)
    have "CronJobCacheValid ?n" using False noticed_reload [of inp oid reg g] by (simp add: Let_def)
    moreover have "balanced [] HT g ?n" by (rule same_open_balanced) (simp_all add: same_open_def tn)
    ultimately show ?thesis using False okn tn by (simp add: g' noticed_keeps)
  next
    case True
    with noticed_reload [of inp oid reg g]
    have e: "turn_reload pt psc HJ HT inp ?n = bindIO (ReloadCronJobs psc HJ HT (in_catalog inp) ?n)
        (\<lambda>g. returnIO (g\<lparr> lastJobReloadTime := in_time inp \<rparr>))"
      by (simp add: turn_reload_def Let_def)
    with r obtain g1 where r1: "snd (ReloadCronJobs psc HJ HT (in_catalog inp) ?n) = Inr g1"
      and g': "g' = g1\<lparr> lastJobReloadTime := in_time inp \<rparr>" by (auto simp: snd_bindIO_Inr io_simps)
    obtain relid rows where v: "visible_rows (in_catalog inp) ?n = Some (relid, rows)"
    proof (cases "visible_rows (in_catalog inp) ?n")
      case None
      from reload_fault [OF this, of psc HJ HT] r1 show thesis by auto
    qed (use that in auto)
    note w = reload_worker_ok [OF okn v r1]
    have t1: "task_of HT g' = task_of HT g1" "job_of HJ g' = job_of HJ g1"
      by (simp_all add: g' task_of_def job_of_def fun_eq_iff)
    have ok': "worker_ok psc HJ HT g' = worker_ok psc HJ HT g1" by (rule worker_ok_frame) (simp_all add: g')
    have "fst (turn_reload pt psc HJ HT inp ?n) = fst (ReloadCronJobs psc HJ HT (in_catalog inp) ?n)"
      using r1 unfolding e by (simp add: bindIO_def io_simps split: prod.split)
    moreover have "same_open HT g g'" using w by (simp add: same_open_def t1 tn)
    ultimately have "balanced (fst (turn_reload pt psc HJ HT inp ?n)) HT g g'"
      by (simp add: same_open_balanced reload_silent)
    then show ?thesis using True w v ok' t1 by (simp add: g' visible_noticed noticed_keeps)
  qed
qed

lemma turn_ok:
  assumes ok: "worker_ok psc HJ HT g" and inp: "inputs_ok inp" and r: "snd (worker_turn pt psc HJ HT inp g) = Inr g'"
  shows "worker_ok psc HJ HT g' \<and> balanced (fst (worker_turn pt psc HJ HT inp g)) HT g g'
     \<and> CronJobCacheValid g' \<and> sigtermFlag g' = sigtermFlag g
     \<and> (if must_reload inp g
        then (\<exists>relid rows. visible_rows (in_catalog inp) g = Some (relid, rows)
           \<and> job_of HJ g' = jobs_by_id (parsed_rows psc rows)) \<and> lastJobReloadTime g' = in_time inp
        else job_of HJ g' = job_of HJ g \<and> lastJobReloadTime g' = lastJobReloadTime g)"
proof -
  obtain oid reg es where es: "list_all silent es" and e: "worker_turn pt psc HJ HT inp g = bindIO (es, Inr ())
      (\<lambda>_. bindIO (turn_reload pt psc HJ HT inp (noticed inp oid reg g)) (turn_rest pt HJ HT inp))"
    by (rule turn_split)
  let ?R = "turn_reload pt psc HJ HT inp (noticed inp oid reg g)"
  from r obtain g1 where r1: "snd ?R = Inr g1" and r2: "snd (turn_rest pt HJ HT inp g1) = Inr g'"
    by (auto simp: e bindIO_pair snd_bindIO_Inr)
  have f: "fst (worker_turn pt psc HJ HT inp g) = es @ fst ?R @ fst (turn_rest pt HJ HT inp g1)"
    using r1 by (simp add: e bindIO_pair) (simp add: bindIO_def split: prod.split)
  note a = turn_reload_ok [OF ok r1]
  then have ok1: "worker_ok psc HJ HT g1" by simp
  note b = turn_rest_ok [OF ok1 inp r2]
  have j: "job_of HJ g' = job_of HJ g1" using b by (simp add: only_tasks_def job_of_def fun_eq_iff)
  have "balanced es HT g g" by (rule same_open_balanced) (simp_all add: same_open_def es)
  then have "balanced (fst (worker_turn pt psc HJ HT inp g)) HT g g'"
    unfolding f using a b by (blast intro: balanced_trans)
  with a b j show ?thesis by (simp add: only_tasks_def)
qed

lemma turn_faults:
  assumes ok: "worker_ok psc HJ HT g" and inp: "inputs_ok inp" and r: "snd (worker_turn pt psc HJ HT inp g) = Inl f"
  shows "turn_fault inp f"
proof -
  obtain oid reg es where e: "worker_turn pt psc HJ HT inp g = bindIO (es, Inr ())
      (\<lambda>_. bindIO (turn_reload pt psc HJ HT inp (noticed inp oid reg g)) (turn_rest pt HJ HT inp))"
    by (rule turn_split)
  let ?n = "noticed inp oid reg g"
  from r consider (reload) "snd (turn_reload pt psc HJ HT inp ?n) = Inl f"
    | (rest) g1 where "snd (turn_reload pt psc HJ HT inp ?n) = Inr g1" "snd (turn_rest pt HJ HT inp g1) = Inl f"
    by (auto simp: e bindIO_pair snd_bindIO_Inl)
  then show ?thesis
  proof cases
    case reload
    then have r: "snd (ReloadCronJobs psc HJ HT (in_catalog inp) ?n) = Inl f"
      by (auto simp: turn_reload_def snd_bindIO_Inl io_simps split: if_splits)
    show ?thesis
    proof (cases "visible_rows (in_catalog inp) ?n")
      case None
      from reload_fault [OF this, of psc HJ HT] r show ?thesis by (auto simp: turn_fault_def)
    next
      case (Some v)
      with ReloadCronJobs_spec [of "in_catalog inp" ?n "fst v" "snd v" psc] r show ?thesis by auto
    qed
  next
    case rest
    with turn_reload_ok [OF ok rest(1)] inp show ?thesis by (auto intro: turn_rest_fault)
  qed
qed

lemma initial_ok: "worker_ok psc HJ HT (initial_globals HJ HT ms) \<and> open_runs HT (initial_globals HJ HT ms) = 0
   \<and> open_conns HT (initial_globals HJ HT ms) = 0"
proof -
  let ?g = "initial_globals HJ HT ms"
  have t: "task_of HT ?g = Map.empty" "job_of HJ ?g = Map.empty"
    by (simp_all add: task_of_def job_of_def initial_globals_def CreateCronTaskHashTable_def CreateCronJobHashTable_def
        getCronJob_def tasks.find_create jobs.find_create fun_eq_iff)
  have "worker_ok psc HJ HT ?g" by (rule worker_okI) (simp_all add: t, simp_all add: initial_globals_def)
  then show ?thesis by (simp add: open_runs_def open_conns_def t)
qed

lemma loop_ok:
  assumes "worker_ok psc HJ HT g" and "list_all inputs_ok inps"
  shows "(\<forall>g'. snd (worker_loop pt psc HJ HT inps g) = Inr g' \<longrightarrow> worker_ok psc HJ HT g'
         \<and> balanced (fst (worker_loop pt psc HJ HT inps g)) HT g g')
     \<and> (\<forall>f. snd (worker_loop pt psc HJ HT inps g) = Inl f \<longrightarrow>
          (\<exists>inp \<in> set inps. turn_fault inp f) \<or> f = ProcExit 0 \<and> (sigtermFlag g \<or> (\<exists>inp \<in> set inps. SIGTERM \<in> set (in_signals inp))))"
  using assms
proof (induction inps arbitrary: g)
  case Nil
  have "balanced [] HT g g" by (rule same_open_balanced) (simp_all add: same_open_def)
  with Nil show ?case by (simp add: io_simps)
next
  case (Cons inp inps)
  let ?g = "fold receive_signal (in_signals inp) g"
  have ok: "worker_ok psc HJ HT ?g" and inp: "inputs_ok inp" and rest: "list_all inputs_ok inps"
    using Cons.prems by simp_all
  note sig = signals_only [of "in_signals inp" g]
  show ?case
  proof (cases "sigtermFlag ?g")
    case True
    with sig show ?thesis by (auto simp: Let_def io_simps)
  next
    case False
    then have e: "worker_loop pt psc HJ HT (inp # inps) g = bindIO (worker_turn pt psc HJ HT inp ?g) (worker_loop pt psc HJ HT inps)"
      by (simp add: Let_def)
    show ?thesis
    proof (cases "snd (worker_turn pt psc HJ HT inp ?g)")
      case (Inl f)
      with turn_faults [OF ok inp Inl] show ?thesis unfolding e by (auto simp: snd_bindIO_Inl snd_bindIO_Inr)
    next
      case (Inr g1)
      note t = turn_ok [OF ok inp Inr]
      then have ok1: "worker_ok psc HJ HT g1" by simp
      have "same_open HT g ?g" using sig by (simp add: same_open_def task_of_def)
      then have "balanced ([] @ fst (worker_turn pt psc HJ HT inp ?g)) HT g g1"
        using t by (intro balanced_trans [OF same_open_balanced [where es = "[]"]]) (blast | simp)+
      moreover have f: "fst (worker_loop pt psc HJ HT (inp # inps) g)
          = fst (worker_turn pt psc HJ HT inp ?g) @ fst (worker_loop pt psc HJ HT inps g1)"
        using Inr unfolding e by (simp add: bindIO_def split: prod.split)
      moreover have s: "snd (worker_loop pt psc HJ HT (inp # inps) g) = snd (worker_loop pt psc HJ HT inps g1)"
        using Inr unfolding e by (simp add: bindIO_def split: prod.split)
      ultimately show ?thesis
        using Cons.IH [OF ok1 rest] t False sig unfolding s f by (auto intro: balanced_trans)
    qed
  qed
qed

text \<open>What becomes of one task: it is planned, waited for, and makes one step.\<close>

lemma turn_rest_task:
  assumes ok: "worker_ok psc HJ HT g" and inp: "inputs_ok inp" and r: "snd (turn_rest pt HJ HT inp g) = Inr g'"
    and t: "task_of HT g k = Some t" and j: "job_of HJ g k = Some j"
  shows "\<exists>t1 (g2 :: ('jh, 'th) globals). wait_step (planned_task (job_ast psc j) (round_start g (in_time inp)) (in_time inp) t) t1 \<and> task_ok t1
     \<and> isActive t1
     \<and> snd (ManageCronTask pt g2 (in_answers inp k) (Some j) (in_time_after_wait inp) t1) = Inr (task_of HT g' k)"
proof -
  let ?ks = "LoadTasksList HT g"
  have now: "0 \<le> in_time inp" "in_time inp < 2147483648000000" and wa: "answers_ok (in_wait inp)"
    and ids: "\<forall>jid. ids_nonzero (in_answers inp jid)" using inp by (simp_all add: inputs_ok_def)
  obtain g1 where s: "StartPendingTasks pt HJ HT ?ks (in_time inp) g = ([], Inr g1)" and ok1: "worker_ok psc HJ HT g1"
    and d1: "dom (task_of HT g1) = dom (task_of HT g)" and o1: "only_tasks g g1"
    and t1: "task_of HT g1 k = Some (planned_task (job_ast psc j) (round_start g (in_time inp)) (in_time inp) t)"
    using schedule_worker_ok [OF ok now] t j by fastforce
  from r obtain g2 where w: "snd (WaitForEvent pt HJ HT (in_wait inp) ?ks g1) = Inr g2"
    and m: "snd (ManageCronTasks pt HJ HT (in_answers inp) ?ks (in_time_after_wait inp) g2) = Inr g'"
    by (auto simp: turn_rest_def s snd_bindIO_Inr)
  have ks1: "distinct ?ks" "set ?ks = dom (task_of HT g1)" using LoadTasksList_seq [of g] d1 by simp_all
  note w' = wait_worker_ok [OF ok1 wa ks1 w]
  then have ok2: "worker_ok psc HJ HT g2" and ks2: "set ?ks = dom (task_of HT g2)" using ks1 by simp_all
  from w' t1 obtain t2 where t2: "task_of HT g2 k = Some t2"
    and ws: "wait_step (planned_task (job_ast psc j) (round_start g (in_time inp)) (in_time inp) t) t2" by blast
  have j2: "job_of HJ g2 k = Some j" using j o1 w' by (simp add: only_tasks_def job_of_def)
  have "snd (manage_body pt HJ (in_answers inp) (in_time_after_wait inp) g2 t2) = Inr (task_of HT g' k)"
    using manage_worker_ok [OF ok2 ids ks1(1) ks2 m] t2 by blast
  moreover note worker_ok_tasks(1) [OF ok2 t2]
  ultimately show ?thesis using ws j2
    by (intro exI [where x = t2]) (auto simp: manage_body_def job_of_def)
qed

lemma turn_rest_starts:
  assumes ok: "worker_ok psc HJ HT g" and inp: "inputs_ok inp" and r: "snd (turn_rest pt HJ HT inp g) = Inr g'"
    and t: "task_of HT g k = Some t" and j: "job_of HJ g k = Some j" and w: "state t = CRON_TASK_WAITING"
    and p: "0 < pendingRunCount (planned_task (job_ast psc j) (round_start g (in_time inp)) (in_time inp) t)"
  shows "\<exists>t'. task_of HT g' k = Some t' \<and> state t' = CRON_TASK_START
     \<and> pendingRunCount t' = pendingRunCount (planned_task (job_ast psc j) (round_start g (in_time inp)) (in_time inp) t) - 1"
proof -
  let ?p = "planned_task (job_ast psc j) (round_start g (in_time inp)) (in_time inp) t"
  have sp: "state ?p = CRON_TASK_WAITING" using w by (cases "job_ast psc j") simp_all
  obtain t1 and g2 :: "('jh, 'th) globals" where ws: "wait_step ?p t1" and ok1: "task_ok t1" and act: "isActive t1"
    and m: "snd (ManageCronTask pt g2 (in_answers inp k) (Some j) (in_time_after_wait inp) t1) = Inr (task_of HT g' k)"
    using turn_rest_task [OF ok inp r t j] by blast
  have t1: "t1 = ?p\<lparr> isSocketReady := False \<rparr>" using ws sp by (simp add: wait_step_def TaskNeedsSocketWait_def)
  have st: "state t1 = CRON_TASK_WAITING" and pc: "pendingRunCount t1 = pendingRunCount ?p"
    using sp by (simp_all add: t1)
  have "pendingRunCount t1 \<le> INT_MAX" using ok1 by (simp add: task_ok_def)
  with p pc have i: "int32 (pendingRunCount t1 - 1) = pendingRunCount t1 - 1" by (simp add: cdefs)
  from m st act p pc i have "task_of HT g' k = Some (t1\<lparr> pendingRunCount := pendingRunCount t1 - 1, state := CRON_TASK_START \<rparr>)"
    by (simp add: ManageCronTask_def manage_state_def manage_waiting_def io_simps)
  then show ?thesis by (simp add: pc)
qed

text \<open>A reload keeps the tasks but for their activity, and makes fresh ones for new jobs.\<close>

lemma turn_reload_task:
  assumes r: "snd (turn_reload pt psc HJ HT inp (noticed inp oid reg g)) = Inr g1" and j: "job_of HJ g1 k = Some j"
  shows "round_start g1 = round_start g
     \<and> (\<forall>t. task_of HT g k = Some t \<longrightarrow> (\<exists>b. task_of HT g1 k = Some (t\<lparr> isActive := b \<rparr>)))
     \<and> (task_of HT g k = None \<longrightarrow> job_of HJ g k = None \<longrightarrow> (\<exists>t. task_of HT g1 k = Some t \<and> fresh_task t k))"
proof -
  let ?n = "noticed inp oid reg g"
  have n: "task_of HT ?n = task_of HT g" "job_of HJ ?n = job_of HJ g" "round_start ?n = round_start g"
    by (simp_all add: task_of_def job_of_def noticed_keeps round_start_def fun_eq_iff)
  show ?thesis
  proof (cases "must_reload inp g")
    case False
    with noticed_reload [of inp oid reg g] r have g1: "g1 = ?n" by (simp add: turn_reload_def io_simps Let_def)
    have "\<exists>b. Some t = Some (t\<lparr> isActive := b \<rparr>)" for t :: CronTask by (rule exI [of _ "isActive t"]) simp
    with j show ?thesis by (auto simp: g1 n)
  next
    case True
    with noticed_reload [of inp oid reg g]
    have e: "turn_reload pt psc HJ HT inp ?n = bindIO (ReloadCronJobs psc HJ HT (in_catalog inp) ?n)
        (\<lambda>g. returnIO (g\<lparr> lastJobReloadTime := in_time inp \<rparr>))"
      by (simp add: turn_reload_def Let_def)
    with r obtain g2 where r2: "snd (ReloadCronJobs psc HJ HT (in_catalog inp) ?n) = Inr g2"
      and g1: "g1 = g2\<lparr> lastJobReloadTime := in_time inp \<rparr>" by (auto simp: snd_bindIO_Inr io_simps)
    obtain relid rows where v: "visible_rows (in_catalog inp) ?n = Some (relid, rows)"
    proof (cases "visible_rows (in_catalog inp) ?n")
      case None
      from reload_fault [OF this, of psc HJ HT] r2 show thesis by auto
    qed (use that in auto)
    have t1: "task_of HT g1 = task_of HT g2" "job_of HJ g1 = job_of HJ g2" "lastMinute g1 = lastMinute g2"
      by (simp_all add: g1 task_of_def job_of_def fun_eq_iff)
    from ReloadCronJobs_spec [OF v, of psc] r2
    have jobs: "job_of HJ g2 = jobs_by_id (parsed_rows psc rows)"
      and task: "reloaded_task (k \<in> job_jobId ` set (parsed_rows psc rows)) k (task_of HT g k) (task_of HT g2 k)"
      and l: "lastMinute g2 = lastMinute g" by (auto simp: n noticed_keeps)
    have "k \<in> job_jobId ` set (parsed_rows psc rows)"
      using j jobs_by_id_Some [of "parsed_rows psc rows" k j] by (force simp: t1 jobs)
    with task show ?thesis by (auto simp: t1 l reloaded_task_def round_start_def fun_eq_iff split: option.splits)
  qed
qed

text \<open>Whether a run is due, and how many, depends on two fields of the task only.\<close>

lemma planned_pending_cong:
  "pendingRunCount t' = pendingRunCount t \<Longrightarrow> nextRunTime t' = nextRunTime t \<Longrightarrow>
     pendingRunCount (planned_task ast a now t') = pendingRunCount (planned_task ast a now t)"
  by (cases ast) simp_all

lemma turn_starts:
  assumes ok: "worker_ok psc HJ HT g" and inp: "inputs_ok inp" and r: "snd (worker_turn pt psc HJ HT inp g) = Inr g'"
    and j: "job_of HJ g' k = Some j"
    and t: "task_of HT g k = Some t \<and> state t = CRON_TASK_WAITING \<or> task_of HT g k = None \<and> fresh_task t k"
    and p: "0 < pendingRunCount (planned_task (job_ast psc j) (round_start g (in_time inp)) (in_time inp) t)"
  shows "\<exists>t'. task_of HT g' k = Some t' \<and> state t' = CRON_TASK_START
     \<and> pendingRunCount t' = pendingRunCount (planned_task (job_ast psc j) (round_start g (in_time inp)) (in_time inp) t) - 1"
proof -
  obtain oid reg es where e: "worker_turn pt psc HJ HT inp g = bindIO (es, Inr ())
      (\<lambda>_. bindIO (turn_reload pt psc HJ HT inp (noticed inp oid reg g)) (turn_rest pt HJ HT inp))"
    by (rule turn_split)
  from r obtain g1 where r1: "snd (turn_reload pt psc HJ HT inp (noticed inp oid reg g)) = Inr g1"
    and r2: "snd (turn_rest pt HJ HT inp g1) = Inr g'"
    by (auto simp: e bindIO_pair snd_bindIO_Inr)
  have ok1: "worker_ok psc HJ HT g1" using turn_reload_ok [OF ok r1] by simp
  have j1: "job_of HJ g1 k = Some j" using turn_rest_ok [OF ok1 inp r2] j by (simp add: only_tasks_def job_of_def)
  have new: "task_of HT g k = None \<Longrightarrow> job_of HJ g k = None" using worker_ok_tasks(2) [OF ok, of k] by fastforce
  from turn_reload_task [OF r1 j1] t new obtain t1 where t1: "task_of HT g1 k = Some t1" "state t1 = CRON_TASK_WAITING"
      "pendingRunCount t1 = pendingRunCount t" "nextRunTime t1 = nextRunTime t"
    and a: "round_start g1 = round_start g" by (auto simp: fresh_task_def)
  note q = planned_pending_cong [OF t1(3,4), of "job_ast psc j" "round_start g (in_time inp)" "in_time inp"]
  show ?thesis
    using turn_rest_starts [OF ok1 inp r2 t1(1) j1 t1(2)] p by (simp add: a q)
qed

end

end
