(* ===== verification/Worker_Props.thy ===== *)
theory Worker_Props
  imports Worker_Invariants
begin

text \<open>
  Properties of the whole worker (\<open>PgOctopusWorkerMain\<close> in \<open>src/nedo_cron.c\<close>), whose states are those
  that some sequence of turns leads to.
\<close>

text \<open>A turn at time \<open>now\<close> with the jobs table \<open>rows\<close>, in which nothing else happens.\<close>

definition quiet_turn :: "int \<Rightarrow> JobRow list \<Rightarrow> inputs" where
  "quiet_turn now rows = \<lparr> in_signals = [], in_invalidations = [], in_catalog = example_catalog (Some rows),
     in_statement_timeout = 10000, in_time = now, in_wait = eager_answers now, in_time_after_wait = now,
     in_answers = (\<lambda>_. good_answers) \<rparr>"

lemma quiet_ok: "0 \<le> now \<Longrightarrow> now < 2147483648000000 \<Longrightarrow> inputs_ok (quiet_turn now rows)"
  by (simp add: inputs_ok_def quiet_turn_def eager_ok good_ids) (simp add: good_answers_def inserted_def updated_def)

abbreviation example_main :: "inputs list \<Rightarrow> ((int \<times> CronJob) list, (int \<times> CronTask) list) globals step" where
  "example_main \<equiv> PgOctopusWorkerMain pg_time_doc ascii_strcasecmp (alist_hash raw_job) (alist_hash raw_task) 10000"

abbreviation example_turn ::
  "inputs \<Rightarrow> ((int \<times> CronJob) list, (int \<times> CronTask) list) globals \<Rightarrow> ((int \<times> CronJob) list, (int \<times> CronTask) list) globals step"
where
  "example_turn \<equiv> worker_turn pg_time_doc ascii_strcasecmp (alist_hash raw_job) (alist_hash raw_task)"


text \<open>The first turn of a worker whose jobs table has one job.\<close>

abbreviation first_inputs :: inputs where
  "first_inputs \<equiv> quiet_turn 1000 [example_row 1 ''5 seconds'']"

lemma first_turn: "\<not> isl (snd (example_main [first_inputs]))"
  by code_simp

lemma first_globals: obtains g where "snd (example_main [first_inputs]) = Inr g"
  using first_turn by (cases "snd (example_main [first_inputs])") auto

lemma first_inputs_ok: "list_all inputs_ok [first_inputs]"
  by (simp add: quiet_ok)

context scheduler
begin

lemma main_ok:
  assumes "list_all inputs_ok inps"
  shows "snd (PgOctopusWorkerMain pt psc HJ HT ms inps) = Inr g \<Longrightarrow> worker_ok psc HJ HT g
       \<and> count_events opens_run (fst (PgOctopusWorkerMain pt psc HJ HT ms inps))
           = count_events finishes_run (fst (PgOctopusWorkerMain pt psc HJ HT ms inps)) + open_runs HT g
       \<and> count_events opens_conn (fst (PgOctopusWorkerMain pt psc HJ HT ms inps))
           = count_events closes_conn (fst (PgOctopusWorkerMain pt psc HJ HT ms inps)) + open_conns HT g"
    and "snd (PgOctopusWorkerMain pt psc HJ HT ms inps) = Inl f \<Longrightarrow>
       (\<exists>inp \<in> set inps. turn_fault inp f) \<or> f = ProcExit 0 \<and> (\<exists>inp \<in> set inps. SIGTERM \<in> set (in_signals inp))"
  using loop_ok [of psc "initial_globals HJ HT ms" inps] assms initial_ok [of psc ms]
  by (auto simp: PgOctopusWorkerMain_def balanced_def initial_globals_def)

end

section \<open>Properties\<close>

text \<open>
  C9: the invariant of the worker (PgOctopusWorkerMain, src/nedo_cron.c). After any number of turns,
  with any signals, invalidations, catalog contents and answers of libpq: every task is well formed
  and under its id (a connecting, sending or running task has a connection and a run, a failed task
  has an error text, a waiting task has neither connection nor run); a task is active exactly if its
  job is loaded, and every loaded job has a task and carries the schedule its text parses to; and
  the queue of pending runs of a task is never longer than the minutes of the clock, so that its
  32-bit counter cannot overflow.
\<close>

theorem worker_invariant:
  assumes "scheduler pt HJ HT" and "list_all inputs_ok inps"
    and "snd (PgOctopusWorkerMain pt psc HJ HT ms inps) = Inr g"
  shows "worker_ok psc HJ HT g"
  using scheduler.main_ok(1) [OF assms] by simp

theorem worker_invariant_witness:
  "\<exists>g. snd (example_main [first_inputs]) = Inr g \<and> worker_ok ascii_strcasecmp (alist_hash raw_job) (alist_hash raw_task) g"
proof -
  obtain g where g: "snd (example_main [first_inputs]) = Inr g" by (rule first_globals)
  with worker_invariant [OF doc_scheduler.scheduler_axioms first_inputs_ok g] show ?thesis by blast
qed

text \<open>
  C2: the books of the whole worker (PgOctopusWorkerMain, src/nedo_cron.c) balance. At every turn,
  the history rows it has inserted are those it has finished plus one for each task with an open
  run, and the connections it has opened are those it has closed plus one for each task with an open
  connection: over all jobs together no run is lost or finished twice, and no connection leaks.
\<close>

theorem worker_history:
  assumes "scheduler pt HJ HT" and "list_all inputs_ok inps"
    and "PgOctopusWorkerMain pt psc HJ HT ms inps = (es, Inr g)"
  shows "count_events opens_run es = count_events finishes_run es + open_runs HT g
     \<and> count_events opens_conn es = count_events closes_conn es + open_conns HT g"
  using scheduler.main_ok(1) [OF assms(1,2), of psc ms g] assms(3) by simp

theorem worker_history_witness:
  "\<exists>es g. example_main [first_inputs] = (es, Inr g)
     \<and> count_events opens_run es = count_events finishes_run es + open_runs (alist_hash raw_task) g"
proof -
  obtain es g where g: "example_main [first_inputs] = (es, Inr g)" by (metis first_globals prod.collapse)
  with worker_history [OF doc_scheduler.scheduler_axioms first_inputs_ok g] show ?thesis by blast
qed

text \<open>
  C13: how the worker (PgOctopusWorkerMain, src/nedo_cron.c) can stop. It exits with code 0 only after
  SIGTERM and with code 1 only if the kernel reports the death of the postmaster to one of its waits;
  otherwise only an error that a statement or the catalog raises, or a server error text used as a
  format string with an undefined expansion, ends it. It never follows a NULL pointer or an entry removed from the hash table, and none of its
  loops runs forever.
\<close>

theorem worker_faults:
  assumes "scheduler pt HJ HT" and "list_all inputs_ok inps"
    and "snd (PgOctopusWorkerMain pt psc HJ HT ms inps) = Inl f"
  shows "f = UndefinedFormat \<or> (\<exists>msg. f = PgError msg)
     \<or> f = ProcExit 1 \<and> (\<exists>inp \<in> set inps. \<exists>ws ms. PostmasterDeath \<in> set (WaitEventSetWait (in_wait inp) ws ms))
     \<or> f = ProcExit 0 \<and> (\<exists>inp \<in> set inps. SIGTERM \<in> set (in_signals inp))"
  using scheduler.main_ok(2) [OF assms] unfolding turn_fault_def postmaster_dies_def by blast

theorem worker_faults_witness:
  "\<exists>f. snd (example_main [first_inputs\<lparr> in_signals := [SIGTERM] \<rparr>]) = Inl f \<and> f \<noteq> NullPointer \<and> f \<noteq> NoReturn"
proof -
  let ?inps = "[first_inputs\<lparr> in_signals := [SIGTERM] \<rparr>]"
  have i: "list_all inputs_ok ?inps" using first_inputs_ok by (simp add: inputs_ok_def)
  have e: "snd (example_main ?inps) = Inl (ProcExit 0)"
    by (simp add: PgOctopusWorkerMain_def io_simps sigtermHandler_def Let_def)
  from worker_faults [OF doc_scheduler.scheduler_axioms i e] show ?thesis by (simp add: e)
qed

text \<open>
  C30: SIGTERM (sigtermHandler and the loop of PgOctopusWorkerMain, src/nedo_cron.c) stops the worker
  at the next turn without touching the server: no run is finished and no connection closed or
  cancelled, so that exactly the open runs of the last turn stay in the history as running for ever.
\<close>

theorem shutdown_leaves_runs:
  assumes "scheduler pt HJ HT" and "list_all inputs_ok inps"
    and "PgOctopusWorkerMain pt psc HJ HT ms inps = (es, Inr g)" and "SIGTERM \<in> set (in_signals inp)"
  shows "PgOctopusWorkerMain pt psc HJ HT ms (inps @ [inp]) = (es, Inl (ProcExit 0))
     \<and> count_events opens_run es - count_events finishes_run es = open_runs HT g"
proof -
  have "worker_loop pt psc HJ HT inps g0 = (es, Inr g) \<Longrightarrow>
      worker_loop pt psc HJ HT (inps @ [inp]) g0 = (es, Inl (ProcExit 0))" for g0
  proof (induction inps arbitrary: g0 es)
    case Nil
    with assms(4) signals_only [of "in_signals inp" g0] show ?case by (simp add: Let_def io_simps)
  next
    case (Cons i inps)
    then show ?case by (auto simp: Let_def io_simps elim!: bindIO_InrE split: if_splits)
  qed
  with scheduler.main_ok(1) [OF assms(1,2), of psc ms g] assms(3) show ?thesis by (simp add: PgOctopusWorkerMain_def)
qed

theorem shutdown_leaves_runs_witness:
  "\<exists>es. example_main [first_inputs, first_inputs\<lparr> in_signals := [SIGTERM] \<rparr>] = (es, Inl (ProcExit 0))"
proof -
  obtain es g where g: "example_main [first_inputs] = (es, Inr g)" by (metis first_globals prod.collapse)
  from shutdown_leaves_runs [OF doc_scheduler.scheduler_axioms first_inputs_ok g, of "first_inputs\<lparr> in_signals := [SIGTERM] \<rparr>"]
  show ?thesis by simp
qed

text \<open>
  C12: when the jobs are loaded again (the main loop, src/nedo_cron.c, and CronJobRelcacheCallback). A
  turn of a worker that meets the invariant reads the jobs table anew if the cache is invalid, after
  SIGHUP, after an invalidation of the jobs table or of everything, on the first turn, and at the
  latest 60 seconds after the last time; then the loaded jobs are exactly the rows the catalog shows
  whose schedule parses. Otherwise they stay as they are. Either way the cache is valid afterwards.
\<close>

theorem worker_turn_reloads:
  assumes "scheduler pt HJ HT" and "worker_ok psc HJ HT g" and "inputs_ok inp"
    and "snd (worker_turn pt psc HJ HT inp g) = Inr g'"
  shows "CronJobCacheValid g'
     \<and> (if must_reload inp g
        then (\<exists>relid rows. visible_rows (in_catalog inp) g = Some (relid, rows)
           \<and> job_of HJ g' = jobs_by_id (parsed_rows psc rows)) \<and> lastJobReloadTime g' = in_time inp
        else job_of HJ g' = job_of HJ g \<and> lastJobReloadTime g' = lastJobReloadTime g)"
  using scheduler.turn_ok [OF assms] by blast

text \<open>
  A worker in its stride: it loaded its one job half a minute ago, at 00:02:00, and planned its next
  run for 00:02:29.
\<close>

definition steady_task :: CronTask where
  "steady_task = InitCronTask raw_task 7\<lparr> nextRunTime := 149000000 \<rparr>"

definition steady_globals :: "((int \<times> CronJob) list, (int \<times> CronTask) list) globals" where
  "steady_globals = \<lparr> CronJobHashTable = [(7, example_seconds_job)], CronTaskHashTable = [(7, steady_task)],
     CronJobCacheValid = True, CachedCronJobRealtionId = 16390, CronJobRelcacheCallbackRegistered = True,
     CronJobRelcacheOid = 16390, sighupFlag = False, sigtermFlag = False, lastMinute = 120000000,
     lastJobReloadTime = 120000000, TaskTimeout = 10000, maxPendingTasks = 20, StatementTimeoutMs = 10000 \<rparr>"

lemma steady_lookups:
  "task_of (alist_hash raw_task) steady_globals k = (if k = 7 then Some steady_task else None)"
  "job_of (alist_hash raw_job) steady_globals k = (if k = 7 then Some example_seconds_job else None)"
  by (simp_all add: task_of_def job_of_def getCronJob_def steady_globals_def alist_hash_def)

lemma steady_job: "parse psc (Some (scheduleText example_seconds_job)) = Some (schedule example_seconds_job)"
  "job_jobId example_seconds_job = 7"
  by (simp_all add: example_seconds_job_def parse_5_seconds)

lemma steady_task: "task_ok steady_task" "jobId steady_task = 7" "isActive steady_task" "pendingRunCount steady_task = 0"
  "state steady_task = CRON_TASK_WAITING" "nextRunTime steady_task = 149000000"
  by (simp_all add: steady_task_def task_ok_def in_flight_def InitCronTask_def cdefs)

lemma steady_ok: "worker_ok ascii_strcasecmp (alist_hash raw_job) (alist_hash raw_task) steady_globals"
proof (rule worker_okI)
  have m: "lastMinute steady_globals = 120000000" by (simp add: steady_globals_def)
  show "60000000 dvd lastMinute steady_globals" "0 \<le> lastMinute steady_globals" "lastMinute steady_globals < 2147483648000000"
    "0 \<le> maxPendingTasks steady_globals" by (simp_all add: steady_globals_def)
  show "task_of (alist_hash raw_task) steady_globals jid = Some t \<Longrightarrow>
      task_ok t \<and> pendingRunCount t \<le> 1 + lastMinute steady_globals div 60000000 \<and> jobId t = jid \<and>
      (isActive t \<longleftrightarrow> job_of (alist_hash raw_job) steady_globals jid \<noteq> None)" for jid t
    by (auto simp: steady_lookups steady_task m split: if_splits)
qed (auto simp: steady_lookups steady_job split: if_splits)

lemma steady_turn: "\<not> isl (snd (example_turn (quiet_turn 150000000 []) steady_globals))"
  by code_simp

lemma steady_returns: obtains g where "snd (example_turn (quiet_turn 150000000 []) steady_globals) = Inr g"
  using steady_turn by (cases "snd (example_turn (quiet_turn 150000000 []) steady_globals)") auto

lemma steady_keeps: "\<not> must_reload (quiet_turn 150000000 []) steady_globals"
  by (simp add: must_reload_def steady_globals_def quiet_turn_def)

theorem worker_turn_reloads_witness:
  "\<exists>g'. snd (example_turn (quiet_turn 150000000 []) steady_globals) = Inr g' \<and> CronJobCacheValid g'
     \<and> job_of (alist_hash raw_job) g' 7 = Some example_seconds_job"
proof -
  obtain g' where g: "snd (example_turn (quiet_turn 150000000 []) steady_globals) = Inr g'" by (rule steady_returns)
  from worker_turn_reloads [OF doc_scheduler.scheduler_axioms steady_ok quiet_ok g] steady_keeps g show ?thesis
    by (simp add: steady_lookups)
qed

text \<open>The same worker after an invalidation, so that its next turn loads the jobs again.\<close>

definition stale_globals :: "((int \<times> CronJob) list, (int \<times> CronTask) list) globals" where
  "stale_globals = steady_globals\<lparr> CronJobCacheValid := False \<rparr>"

lemma stale_ok: "worker_ok ascii_strcasecmp (alist_hash raw_job) (alist_hash raw_task) stale_globals"
proof -
  have "worker_ok ascii_strcasecmp (alist_hash raw_job) (alist_hash raw_task) stale_globals
      = worker_ok ascii_strcasecmp (alist_hash raw_job) (alist_hash raw_task) steady_globals"
    by (rule worker_ok_frame) (simp_all add: stale_globals_def)
  with steady_ok show ?thesis by (rule iffD2 [rotated])
qed

lemma steady_schedules:
  "map_option scheduleText (case snd (example_turn (quiet_turn 150000000 []) steady_globals) of
     Inl _ \<Rightarrow> None | Inr g' \<Rightarrow> job_of (alist_hash raw_job) g' 7) = Some ''5 seconds''"
  by code_simp

lemma stale_schedules:
  "map_option scheduleText (case snd (example_turn (quiet_turn 150000000 [example_row 7 ''5 seconds'']) stale_globals) of
     Inl _ \<Rightarrow> None | Inr g' \<Rightarrow> job_of (alist_hash raw_job) g' 7) = Some ''5 seconds''"
  by code_simp

text \<open>
  C6: a due run starts in the turn that finds it due (the main loop, StartPendingTasks and
  ManageCronTask, src/nedo_cron.c), whether or not the jobs are loaded again in that turn. Take a job
  that is loaded when the turn returns, and its task, which was waiting before the turn or is made by
  the reload of the turn. If the task has pending runs after the scheduling of this turn, from earlier
  turns or because one of the minutes just passed matches the schedule that is now loaded or its
  interval is over, then when the turn returns the task has left the waiting state, is about to
  connect, and has one pending run less.
\<close>

theorem due_run_starts:
  assumes "scheduler pt HJ HT" and "worker_ok psc HJ HT g" and "inputs_ok inp"
    and "snd (worker_turn pt psc HJ HT inp g) = Inr g'" and "job_of HJ g' jid = Some j"
    and "task_of HT g jid = Some t \<and> state t = CRON_TASK_WAITING \<or> task_of HT g jid = None \<and> fresh_task t jid"
    and "0 < pendingRunCount (planned_task (job_ast psc j) (round_start g (in_time inp)) (in_time inp) t)"
  shows "\<exists>t'. task_of HT g' jid = Some t' \<and> state t' = CRON_TASK_START
     \<and> pendingRunCount t' = pendingRunCount (planned_task (job_ast psc j) (round_start g (in_time inp)) (in_time inp) t) - 1"
  using assms by (rule scheduler.turn_starts)

theorem due_run_starts_witness:
  "(\<exists>g' t'. snd (example_turn (quiet_turn 150000000 []) steady_globals) = Inr g'
      \<and> task_of (alist_hash raw_task) g' 7 = Some t' \<and> state t' = CRON_TASK_START \<and> pendingRunCount t' = 0)
   \<and> must_reload (quiet_turn 150000000 [example_row 7 ''5 seconds'']) stale_globals
   \<and> (\<exists>g' t'. snd (example_turn (quiet_turn 150000000 [example_row 7 ''5 seconds'']) stale_globals) = Inr g'
      \<and> task_of (alist_hash raw_task) g' 7 = Some t' \<and> state t' = CRON_TASK_START \<and> pendingRunCount t' = 0)"
proof -
  have ast: "read_schedule ascii_strcasecmp ''5 seconds'' = Some (AstSeconds 5)" by (simp add: read_eval)
  have turn: "\<exists>g' t'. snd (example_turn inp g) = Inr g' \<and> task_of (alist_hash raw_task) g' 7 = Some t'
      \<and> state t' = CRON_TASK_START \<and> pendingRunCount t' = 0"
    if ok: "worker_ok ascii_strcasecmp (alist_hash raw_job) (alist_hash raw_task) g" and i: "inputs_ok inp"
      and s: "map_option scheduleText (case snd (example_turn inp g) of Inl _ \<Rightarrow> None
          | Inr g' \<Rightarrow> job_of (alist_hash raw_job) g' 7) = Some ''5 seconds''"
      and t: "task_of (alist_hash raw_task) g 7 = Some steady_task" and now: "in_time inp = 150000000" for inp g
  proof -
    from s obtain g' j where g: "snd (example_turn inp g) = Inr g'"
      and j: "job_of (alist_hash raw_job) g' 7 = Some j" "scheduleText j = ''5 seconds''"
      by (auto split: sum.splits)
    have a: "job_ast ascii_strcasecmp j = AstSeconds 5" using ast by (simp add: job_ast_def j(2))
    have p: "pendingRunCount (planned_task (job_ast ascii_strcasecmp j) (round_start g (in_time inp)) (in_time inp) steady_task) = 1"
      by (simp add: a now steady_task)
    from due_run_starts [OF doc_scheduler.scheduler_axioms ok i g j(1), of steady_task] t steady_task(5) g
    show ?thesis by (auto simp: p)
  qed
  have "must_reload (quiet_turn 150000000 [example_row 7 ''5 seconds'']) stale_globals"
    by (simp add: must_reload_def stale_globals_def)
  moreover have "task_of (alist_hash raw_task) stale_globals 7 = Some steady_task"
    using steady_lookups(1) [of 7] by (simp add: stale_globals_def task_of_def)
  ultimately show ?thesis
    using turn [OF steady_ok quiet_ok steady_schedules] turn [OF stale_ok quiet_ok stale_schedules]
    by (simp add: steady_lookups quiet_turn_def)
qed

end
