(* ===== verification/Spec2Isabelle.thy ===== *)
theory Spec2Isabelle
  imports Worker_Props
begin

text \<open>
  A verification of my_nedo_cron, a cron scheduler that runs inside PostgreSQL as a background worker.

  \<^bold>\<open>The program.\<close> Users put jobs into the table \<open>nedo_cron.jobs\<close> with the SQL functions of
  \<open>src/cron_job.c\<close>; a job has a schedule, a command, a database and a user. The worker
  (\<open>PgOctopusWorkerMain\<close> in \<open>src/nedo_cron.c\<close>) keeps two hash tables: the jobs it has loaded, with
  their parsed schedules, and one task per job with the state of its runs. Each turn of its loop takes
  notice of invalidation messages and signals, loads the jobs again if need be, turns the minutes that
  have passed into pending runs, waits for a socket or a deadline for at most a second, and moves
  every task one step: waiting, start, connecting, sending, running, done or error. A run is a row of
  \<open>nedo_cron.job_run_details\<close>, written through SPI (\<open>src/cron_sql.c\<close>), and a connection of libpq to
  the job's database.

  \<^bold>\<open>The theories and the code.\<close>
  Prelude: C's 32-bit integers as wrapped \<open>int\<close>, the result monad with a log of effects, lists.
  C_Library, Calendar: the C functions the code calls (\<open>strtol\<close>, \<open>gmtime\<close>, ...), and \<open>vsnprintf\<close>,
  which \<open>postgres.h\<close> maps to the server's own: \<open>%m\<close> is the text of \<open>errno\<close>, which is an argument, a
  malformed directive ends the output, and only a conversion without its argument is undefined.
  Parser_Types, Parser_Lex, Parser_Field: \<open>include/cron_parser.h\<close> and \<open>src/cron_parser.c\<close>.
  Cron_Time: \<open>src/cron_time.c\<close>. Cron_Match: the calendar functions of \<open>src/cron_parser.c\<close> and
  \<open>ShouldRunTask\<close>. Hash_Table: the interface of PostgreSQL's hash tables.
  Cron_Types: \<open>include/cron_job.h\<close>, \<open>include/cron_task.h\<close>, the global variables (record \<open>globals\<close>),
  faults and effects. Cron_Task, Cron_SQL, Cron_Job: \<open>src/cron_task.c\<close>, \<open>src/cron_sql.c\<close>,
  \<open>src/cron_job.c\<close>. Scheduler, Wait, Task_Error, Task_Machine, Worker: the parts of
  \<open>src/nedo_cron.c\<close> - \<open>StartPendingTasks\<close>; \<open>CalculateWaitTimeout\<close> and \<open>WaitForEvent\<close>;
  \<open>SetTaskError\<close>; \<open>ManageCronTask\<close>, one \<open>manage_\<close> definition for each case of its switch; the
  callback, the signal handlers, the main loop and \<open>_PG_init\<close>.

  Names are those of the code. A pointer that may be NULL is an option; a list of task pointers is a
  list of keys of the task table, and a body that loops over it gets and stores entries
  (\<open>foreach_task\<close>), a removed entry being a fault if it is touched again. A function that acts on the
  server or may not return has the type \<open>step\<close>: the effects in their order, and a value or a fault
  (NULL pointer, undefined format, \<open>ereport(ERROR)\<close>, endless loop, \<open>proc_exit\<close>).

  \<^bold>\<open>What is assumed.\<close> Code that is not part of the repository is an argument: PostgreSQL's timestamp
  functions (record \<open>pg_time\<close>, locale \<open>pg_timestamps\<close>: what their documentation says, including that
  \<open>TimestampDifference\<close> is never negative), the two hash tables (locale \<open>dynahash\<close>, extended by
  \<open>task_table\<close>, \<open>cron_tables\<close> and \<open>scheduler\<close>), the catalog (record \<open>pg_catalog\<close>), the answers of
  libpq and SPI to one step of a task (record \<open>answers\<close>), of the kernel to one wait (\<open>wait_answers\<close>),
  and \<open>pg_strcasecmp\<close>. Each locale is interpreted on a concrete instance (association lists, and
  timestamp functions written from the documentation); the witnesses run the model on them. The
  statements hold for every instance that meets the contract, and for all answers unless they say so.
  \<open>inputs_ok\<close> asks that the clock reads a time of the years 2000 to 2068 (the code casts seconds to
  \<open>int\<close>), that the kernel reports registered sockets only, and that the server gives no run the id 0.

  \<^bold>\<open>What is shown.\<close>
  Parser_Spec, Parser_Props, Parser_Errors: the parser accepts exactly the schedules of an abstract
  grammar and computes their denotation; printing and parsing are inverse; every failure names its
  first wrong field; every array store is in range.
  Cron_Match: from the text of a schedule to the decision to run at a given time.
  Cron_Job: what a reload makes of the two tables, and which schedules the SQL functions accept.
  Scheduler: a round does to every task what the syntax of its schedule says, every due minute is
  counted exactly once, and the minute loop (\<open>partial_function\<close>, \<open>None\<close> if it never ends) ends.
  Wait: the timeout in closed form, and a wait exactly: \<open>register_loop_spec\<close> (which sockets),
  \<open>handle_events_spec\<close> (what a list of events does), \<open>WaitForEvent_exact\<close> (both together).
  Task_Error: what becomes of a text that is used as a format.
  Task_Invariants: well-formed tasks, and one step of the state machine keeps them, accounts for the
  runs and connections it opens and closes, and fails only as listed. Task_Props: the life of a task,
  deadlines, removal, a whole successful run, a failing query. Task_Graph: the graph of the states.
  Worker_Invariants, Worker_Props: every state the main loop reaches is well formed, the runs and
  connections over all tasks balance, the loop stops only as listed, when jobs are loaded again, and
  that a due run starts in the turn that finds it due, be the jobs loaded again in it or not.

  \<^bold>\<open>Bounds.\<close> The queue of pending runs is bounded by the minutes on the clock (below 35.8 million), so
  the 32-bit counter does not wrap; one round adds at most 181 runs, which is the slack the scheduling
  lemmas ask for. No definition uses fuel.

  \<^bold>\<open>Not modelled.\<close> Memory contexts and \<open>pfree\<close>; log lines at the level LOG; \<open>errno\<close> and the latch in
  the signal handlers (a signal is noticed at the next turn); the allocation and release of the
  wait event set; \<open>CHECK_FOR_INTERRUPTS\<close> at the end of \<open>WaitForEvent\<close>, which acts only on interrupts that
  the server itself has raised (the worker's own handlers raise none); invalidation messages that PostgreSQL delivers while a
  transaction of the worker starts, which are taken to arrive with the next turn; the build file, the
  SQL script with the table definitions and \<open>protect.sql\<close>. The \<open>free_\<close> functions of the parser only
  release memory.
\<close>

end
